(* ===== verification/Gtc_Prelude.thy ===== *)
theory Gtc_Prelude
  imports Main "HOL-Library.Word"
begin

text \<open>
  The prelude of the development: the machine integers of the Go sources, the outcome of a Go
  call (a value, an \<^verbatim>\<open>error\<close> or a panic), the sequencing of calls that return early on an error,
  the \<^verbatim>\<open>for i, x := range xs\<close> loop, and the lemmas about loops that fill a preallocated slice.
  Three collections carry the component proofs: \<open>go_simps\<close> (rewriting of outcomes), \<open>go_elims\<close>
  (what a successful call implies about its parts) and \<open>go_defs\<close> (definitions that witnesses unfold).
\<close>

section \<open>Machine integers\<close>

text \<open>
  A Go \<^verbatim>\<open>uint32\<close> or \<^verbatim>\<open>uint64\<close> is a word of that width; \<^verbatim>\<open>int32\<close> and \<^verbatim>\<open>int64\<close> are the same words
  read in two's complement, so that a conversion \<^verbatim>\<open>uint32(x)\<close> of an \<^verbatim>\<open>int32\<close> keeps the bits.
  A \<^verbatim>\<open>time.Duration\<close> is an \<^verbatim>\<open>int64\<close> number of nanoseconds.
\<close>

type_synonym uint32 = "32 word"
type_synonym uint64 = "64 word"
type_synonym int32 = "32 word"
type_synonym int64 = "64 word"
type_synonym Duration = int64

section \<open>Errors, panics and outcomes\<close>

text \<open>
  \<open>go_error\<close> has a constructor for each error type of the sources, \<open>ErrorsNew\<close> for the errors made
  by \<^verbatim>\<open>errors.New\<close> and \<^verbatim>\<open>fmt.Errorf\<close> (the argument is the constant part of the text), \<open>NotFound\<close>
  for \<^verbatim>\<open>errors.NewNotFound\<close> of the Kubernetes API machinery, and \<open>LibraryError\<close> for any error
  value that code outside this repository returns.
\<close>

datatype go_error =
    MalformedResourceName string
  | MalformedListenerResourceName string
  | RouteNotFound int string string
  | BackendNotFound int int string string
  | UnsupportedResourceType string
  | UnknownProvider string
  | ErrorsNew string
  | NotFound string string
  | LibraryError string

datatype go_panic =
    NilDereference
  | IndexOutOfRange int nat
  | CloseOfClosedChannel
  | PanicWith go_error

datatype 'a outcome = Ok 'a | Err go_error | Panic go_panic

primrec and_then :: "'a outcome \<Rightarrow> ('a \<Rightarrow> 'b outcome) \<Rightarrow> 'b outcome" where
  "and_then (Ok a) f = f a"
| "and_then (Err e) f = Err e"
| "and_then (Panic p) f = Panic p"

primrec is_Ok :: "'a outcome \<Rightarrow> bool" where
  "is_Ok (Ok a) = True"
| "is_Ok (Err e) = False"
| "is_Ok (Panic p) = False"

primrec is_Panic :: "'a outcome \<Rightarrow> bool" where
  "is_Panic (Ok a) = False"
| "is_Panic (Err e) = False"
| "is_Panic (Panic p) = True"

text \<open>The value and error pair a library call returns, and the dereference of a pointer.\<close>

primrec of_lib :: "go_error + 'a \<Rightarrow> 'a outcome" where
  "of_lib (Inl e) = Err e"
| "of_lib (Inr a) = Ok a"

primrec deref :: "'a option \<Rightarrow> 'a outcome" where
  "deref None = Panic NilDereference"
| "deref (Some a) = Ok a"

text \<open>Reading a slice at a Go \<^verbatim>\<open>int\<close>: out of range panics, below zero as well.\<close>

definition index :: "'a list \<Rightarrow> int \<Rightarrow> 'a outcome" where
  "index xs i =
     (if 0 \<le> i \<and> i < int (length xs) then Ok (xs ! nat i)
      else Panic (IndexOutOfRange i (length xs)))"

named_theorems go_simps \<open>rewriting of outcomes\<close>
named_theorems go_elims \<open>what a successful call says about its parts\<close>
named_theorems go_defs \<open>definitions unfolded on concrete inputs\<close>

lemma and_then_Ok [go_simps]: "and_then r f = Ok b \<longleftrightarrow> (\<exists>a. r = Ok a \<and> f a = Ok b)"
  by (cases r) auto

lemma and_then_assoc: "and_then (and_then r f) g = and_then r (\<lambda>a. and_then (f a) g)"
  by (cases r) auto

lemma and_then_Ok_right [simp]: "and_then r Ok = r"
  by (cases r) auto

lemma and_then_cong [fundef_cong]:
  "r = r' \<Longrightarrow> (\<And>a. r' = Ok a \<Longrightarrow> f a = g a) \<Longrightarrow> and_then r f = and_then r' g"
  by (cases r') auto

lemma is_Ok_iff [go_simps]: "is_Ok r \<longleftrightarrow> (\<exists>a. r = Ok a)"
  by (cases r) auto

lemma is_Ok_and_then: "is_Ok (and_then r f) \<longleftrightarrow> (\<exists>a. r = Ok a \<and> is_Ok (f a))"
  by (cases r) auto

lemma is_Ok_and_then1: "(\<And>a. is_Ok (f a)) \<Longrightarrow> is_Ok (and_then r f) \<longleftrightarrow> is_Ok r"
  by (cases r) auto

lemma is_Ok_and_then2:
  "(\<And>a b. is_Ok (g a b)) \<Longrightarrow> is_Ok (and_then r (\<lambda>a. and_then s (g a))) \<longleftrightarrow> is_Ok r \<and> is_Ok s"
  by (cases r; cases s) auto

lemma is_Panic_and_then [go_simps]:
  "is_Panic (and_then r f) \<longleftrightarrow> is_Panic r \<or> (\<exists>a. r = Ok a \<and> is_Panic (f a))"
  by (cases r) auto

lemma and_then_Panic: "and_then r f = Panic p \<longleftrightarrow> r = Panic p \<or> (\<exists>a. r = Ok a \<and> f a = Panic p)"
  by (cases r) auto

lemma of_lib_Ok [go_simps]: "of_lib r = Ok a \<longleftrightarrow> r = Inr a"
  by (cases r) auto

lemma of_lib_no_panic [simp]: "\<not> is_Panic (of_lib r)"
  by (cases r) auto

lemma deref_Ok [go_simps]: "deref p = Ok a \<longleftrightarrow> p = Some a"
  by (cases p) auto

lemma is_Panic_deref [go_simps]: "is_Panic (deref p) \<longleftrightarrow> p = None"
  by (cases p) auto

lemma index_Ok [go_simps]:
  "index xs i = Ok x \<longleftrightarrow> 0 \<le> i \<and> i < int (length xs) \<and> xs ! nat i = x"
  by (auto simp: index_def)

lemma index_in_range [simp]: "n < length xs \<Longrightarrow> index xs (int n) = Ok (xs ! n)"
  by (simp add: index_def)

lemma is_Panic_index [go_simps]: "is_Panic (index xs i) \<longleftrightarrow> i < 0 \<or> int (length xs) \<le> i"
  by (auto simp: index_def)

section \<open>Loops\<close>

text \<open>
  \<open>for_range body i xs s\<close> is \<^verbatim>\<open>for i, x := range xs { body }\<close> over a state \<open>s\<close>, where the body
  may leave the enclosing function by returning an error or by panicking; \<open>i\<close> is the index of the
  first element still to visit.
\<close>

primrec for_range :: "(nat \<Rightarrow> 'a \<Rightarrow> 's \<Rightarrow> 's outcome) \<Rightarrow> nat \<Rightarrow> 'a list \<Rightarrow> 's \<Rightarrow> 's outcome" where
  "for_range body i [] s = Ok s"
| "for_range body i (x # xs) s = and_then (body i x s) (for_range body (Suc i) xs)"

text \<open>\<open>traverse f i xs\<close> collects the results of \<open>f\<close> on the elements, up to the first failure.\<close>

primrec traverse :: "(nat \<Rightarrow> 'a \<Rightarrow> 'b outcome) \<Rightarrow> nat \<Rightarrow> 'a list \<Rightarrow> 'b list outcome" where
  "traverse f i [] = Ok []"
| "traverse f i (x # xs) =
     and_then (f i x) (\<lambda>y. and_then (traverse f (Suc i) xs) (\<lambda>ys. Ok (y # ys)))"

text \<open>
  The usual loop of the sources fills a slice made with \<^verbatim>\<open>make([]*T, n)\<close>: the slice starts with \<open>n\<close>
  nil pointers (\<^term>\<open>None\<close>) and iteration \<open>i\<close> stores its result at index \<open>i\<close>.
\<close>

definition fill_body :: "(nat \<Rightarrow> 'a \<Rightarrow> 'b outcome) \<Rightarrow> nat \<Rightarrow> 'a \<Rightarrow> 'b option list \<Rightarrow> 'b option list outcome" where
  "fill_body f i x slots = and_then (f i x) (\<lambda>y. Ok (slots[i := Some y]))"

lemma for_range_append:
  "for_range body i (xs @ ys) s =
     and_then (for_range body i xs s) (for_range body (i + length xs) ys)"
  by (induction xs arbitrary: i s) (auto simp: and_then_assoc intro!: and_then_cong)

lemma for_range_invariant:
  assumes "for_range body i xs s = Ok t" and "P i s"
    and "\<And>j s s'. i \<le> j \<Longrightarrow> j < i + length xs \<Longrightarrow> P j s \<Longrightarrow>
           body j (xs ! (j - i)) s = Ok s' \<Longrightarrow> P (Suc j) s'"
  shows "P (i + length xs) t"
  using assms
proof (induction xs arbitrary: i s)
  case Nil
  then show ?case by simp
next
  case (Cons x xs)
  then obtain s1 where s1: "body i x s = Ok s1" and rest: "for_range body (Suc i) xs s1 = Ok t"
    by (auto simp: go_simps)
  have "P (Suc i) s1" using Cons.prems(3) [of i s s1] Cons.prems(2) s1 by simp
  moreover have "P (Suc j) s'"
    if "Suc i \<le> j" "j < Suc i + length xs" "P j u" "body j (xs ! (j - Suc i)) u = Ok s'" for j u s'
    using Cons.prems(3) [of j u s'] that by (simp add: nth_Cons')
  ultimately have "P (Suc i + length xs) t" using Cons.IH [OF rest] by blast
  then show ?case by simp
qed

lemma traverse_Panic: "traverse f i xs = Panic p \<Longrightarrow> \<exists>j. \<exists>x \<in> set xs. f j x = Panic p"
  by (induction xs arbitrary: i) (auto simp: and_then_Panic, blast+)

lemma for_range_no_panic:
  assumes "\<And>j x s. x \<in> set xs \<Longrightarrow> \<not> is_Panic (body j x s)"
  shows "\<not> is_Panic (for_range body i xs s)"
  using assms by (induction xs arbitrary: i s) (auto simp: go_simps)

lemma for_range_pure:
  assumes "\<And>j x s. x \<in> set xs \<Longrightarrow> body j x s = Ok (f x s)"
  shows "for_range body i xs s = Ok (fold f xs s)"
  using assms by (induction xs arbitrary: i s) auto

lemma for_range_fill:
  "for_range (fill_body f) (length pre) xs (pre @ replicate (length xs) None @ post) =
     and_then (traverse f (length pre) xs) (\<lambda>ys. Ok (pre @ map Some ys @ post))"
proof (induction xs arbitrary: pre)
  case Nil
  then show ?case by simp
next
  case (Cons x xs)
  have step: "for_range (fill_body f) (Suc (length pre)) xs
      ((pre @ [Some y]) @ replicate (length xs) None @ post) =
      and_then (traverse f (Suc (length pre)) xs) (\<lambda>ys. Ok (pre @ map Some (y # ys) @ post))" for y
    using Cons.IH [of "pre @ [Some y]"] by simp
  show ?case
    using step
    by (cases "f (length pre) x") (simp_all add: fill_body_def [of f "length pre" x] and_then_assoc)
qed

lemmas for_range_fill0 = for_range_fill [where pre = "[]", simplified]
lemmas for_range_fill_all = for_range_fill [where pre = "[]" and post = "[]", simplified]

lemma traverse_Ok_length: "traverse f i xs = Ok ys \<Longrightarrow> length ys = length xs"
  by (induction xs arbitrary: i ys) (auto simp: go_simps)

lemma traverse_Ok_nth:
  "traverse f i xs = Ok ys \<Longrightarrow> k < length xs \<Longrightarrow> f (i + k) (xs ! k) = Ok (ys ! k)"
proof (induction xs arbitrary: i ys k)
  case Nil
  then show ?case by simp
next
  case (Cons x xs)
  then show ?case by (cases k) (force simp: go_simps)+
qed

lemma traverse_Ok_iff:
  "traverse f i xs = Ok ys \<longleftrightarrow>
     length ys = length xs \<and> (\<forall>k < length xs. f (i + k) (xs ! k) = Ok (ys ! k))"
  (is "?L \<longleftrightarrow> ?R")
proof
  assume ?L
  then show ?R by (auto dest: traverse_Ok_length traverse_Ok_nth)
next
  assume ?R
  then show ?L
  proof (induction xs arbitrary: i ys)
    case Nil
    then show ?case by simp
  next
    case (Cons x xs)
    then obtain z zs where ys: "ys = z # zs" by (cases ys) auto
    have "f i x = Ok z" using Cons.prems ys by force
    moreover have "traverse f (Suc i) xs = Ok zs"
    proof (rule Cons.IH)
      have "f (Suc i + k) (xs ! k) = Ok (zs ! k)" if "k < length xs" for k
        using Cons.prems ys that by (auto dest!: spec [of _ "Suc k"])
      then show "length zs = length xs \<and> (\<forall>k < length xs. f (Suc i + k) (xs ! k) = Ok (zs ! k))"
        using Cons.prems ys by simp
    qed
    ultimately show ?case by (simp add: ys)
  qed
qed

lemma traverse_append:
  "traverse f i (xs @ ys) =
     and_then (traverse f i xs) (\<lambda>rs. and_then (traverse f (i + length xs) ys) (\<lambda>ss. Ok (rs @ ss)))"
  by (induction xs arbitrary: i) (simp_all add: and_then_assoc)

lemma traverse_shift: "traverse (\<lambda>_. g) i xs = traverse (\<lambda>_. g) j xs"
proof (induction xs arbitrary: i j)
  case (Cons x xs)
  show ?case by (simp only: traverse.simps Cons.IH [of "Suc i" "Suc j"])
qed simp

lemma traverse_total:
  "(\<And>k. k < length xs \<Longrightarrow> is_Ok (f (i + k) (xs ! k))) \<Longrightarrow> is_Ok (traverse f i xs)"
proof (induction xs arbitrary: i)
  case Nil
  then show ?case by simp
next
  case (Cons x xs)
  from Cons.prems [of 0] obtain y where y: "f i x = Ok y" by (auto simp: is_Ok_iff)
  have "is_Ok (traverse f (Suc i) xs)"
    using Cons.IH [of "Suc i"] Cons.prems [of "Suc k" for k] by simp
  then show ?case using y by (auto simp: is_Ok_iff)
qed

lemma is_Ok_traverse [go_simps]:
  "is_Ok (traverse f i xs) \<longleftrightarrow> (\<forall>k < length xs. is_Ok (f (i + k) (xs ! k)))"
  by (auto simp: traverse_total) (auto simp: is_Ok_iff dest: traverse_Ok_nth)

lemma traverse_no_panic:
  assumes "\<And>j x. x \<in> set xs \<Longrightarrow> \<not> is_Panic (f j x)"
  shows "\<not> is_Panic (traverse f i xs)"
  using assms by (induction xs arbitrary: i) (auto simp: go_simps)

section \<open>Loops for effect\<close>

text \<open>
  A loop whose body does not store into a slice runs a command on each element; nested loops run it
  on the concatenation of what they range over.
\<close>

primrec each :: "('a \<Rightarrow> 's \<Rightarrow> 's outcome) \<Rightarrow> 'a list \<Rightarrow> 's \<Rightarrow> 's outcome" where
  "each f [] s = Ok s"
| "each f (x # xs) s = and_then (f x s) (each f xs)"

lemma for_range_each: "for_range body i xs s = each (\<lambda>(k, x). body k x) (enumerate i xs) s"
  by (induction xs arbitrary: i s) (auto intro!: and_then_cong)

lemma each_append: "each f (xs @ ys) s = and_then (each f xs s) (each f ys)"
  by (induction xs arbitrary: s) (auto simp: and_then_assoc intro!: and_then_cong)

lemma each_concat: "each (\<lambda>x. each g (f x)) xs s = each g (concat (map f xs)) s"
  by (induction xs arbitrary: s) (auto simp: each_append intro!: and_then_cong)

lemma each_map: "each g (map f xs) s = each (\<lambda>x. g (f x)) xs s"
  by (induction xs arbitrary: s) (auto intro!: and_then_cong)

lemma each_pure:
  assumes "\<And>x s. x \<in> set xs \<Longrightarrow> g x s = Ok (h x s)"
  shows "each g xs s = Ok (fold h xs s)"
  using assms by (induction xs arbitrary: s) auto

lemma each_cong:
  "(\<And>x s. x \<in> set xs \<Longrightarrow> f x s = g x s) \<Longrightarrow> each f xs s = each g xs s"
  by (induction xs arbitrary: s) (auto intro!: and_then_cong)

lemma each_invariant:
  assumes "each f xs s = Ok t" and "P s"
    and "\<And>x s s'. x \<in> set xs \<Longrightarrow> P s \<Longrightarrow> f x s = Ok s' \<Longrightarrow> P s'"
  shows "P t"
  using assms by (induction xs arbitrary: s) (auto simp: go_simps)

end
