(* ===== verification/Go_Strings.thy ===== *)
theory Go_Strings
  imports Gtc_Prelude
begin

text \<open>
  What the sources use of Go's \<^verbatim>\<open>strings\<close>, \<^verbatim>\<open>strconv\<close> and \<^verbatim>\<open>path\<close> packages. A Go string is a byte
  sequence, here a list of 8-bit characters. The lemmas at the end are the ones the resource
  names rest on: splitting undoes joining, \<open>Atoi\<close> undoes \<open>Itoa\<close>, and \<^verbatim>\<open>path.Join\<close> of plain path
  elements only puts slashes between them.
\<close>

section \<open>Package strings\<close>

text \<open>\<^verbatim>\<open>strings.Split(s, sep)\<close> for a separator of one byte, and \<^verbatim>\<open>strings.SplitN(s, sep, 2)\<close>.\<close>

fun strings_Split :: "string \<Rightarrow> char \<Rightarrow> string list" where
  "strings_Split [] c = [[]]"
| "strings_Split (x # xs) c =
     (if x = c then [] # strings_Split xs c
      else (x # hd (strings_Split xs c)) # tl (strings_Split xs c))"

fun strings_SplitN2 :: "string \<Rightarrow> char \<Rightarrow> string list" where
  "strings_SplitN2 [] c = [[]]"
| "strings_SplitN2 (x # xs) c =
     (if x = c then [[], xs]
      else (x # hd (strings_SplitN2 xs c)) # tl (strings_SplitN2 xs c))"

fun strings_Join :: "string list \<Rightarrow> string \<Rightarrow> string" where
  "strings_Join [] sep = []"
| "strings_Join [w] sep = w"
| "strings_Join (w # ws) sep = w @ sep @ strings_Join ws sep"

text \<open>
  Case mapping. ASCII letters map as usual. Go maps by Unicode code points, and two code points
  outside ASCII have an ASCII image under each mapping: U+017F and U+0131 (bytes C5 BF and C4 B1)
  become S and I in upper case, U+212A and U+0130 (bytes E2 84 AA and C4 B0) become k and i in
  lower case. Every other byte outside ASCII is kept, since its image is outside ASCII too: the
  results here are equal to an ASCII string exactly when Go's are, and the sources compare them
  with ASCII constants only. \<open>strings_EqualFold\<close> folds U+212A with k and U+017F with s, as Go's
  simple folding does; it is exact when one of the two strings is ASCII, as a zone of an endpoint
  hint (a Kubernetes label value) is.
\<close>

definition upper_byte :: "char \<Rightarrow> char" where
  "upper_byte c =
     (if (97::nat) \<le> of_char c \<and> of_char c \<le> (122::nat) then char_of (of_char c - (32::nat)) else c)"

definition lower_byte :: "char \<Rightarrow> char" where
  "lower_byte c =
     (if (65::nat) \<le> of_char c \<and> of_char c \<le> (90::nat) then char_of (of_char c + (32::nat)) else c)"

fun strings_ToUpper :: "string \<Rightarrow> string" where
  "strings_ToUpper [] = []"
| "strings_ToUpper [c] = [upper_byte c]"
| "strings_ToUpper (c # d # s) =
     (if c = CHR 0xC5 \<and> d = CHR 0xBF then CHR ''S'' # strings_ToUpper s
      else if c = CHR 0xC4 \<and> d = CHR 0xB1 then CHR ''I'' # strings_ToUpper s
      else upper_byte c # strings_ToUpper (d # s))"

fun lower_with :: "bool \<Rightarrow> string \<Rightarrow> string" where
  "lower_with fd [] = []"
| "lower_with fd [c] = [lower_byte c]"
| "lower_with fd (c # d # s) =
     (if c = CHR 0xE2 \<and> d = CHR 0x84 \<and> s \<noteq> [] \<and> hd s = CHR 0xAA then CHR ''k'' # lower_with fd (tl s)
      else if \<not> fd \<and> c = CHR 0xC4 \<and> d = CHR 0xB0 then CHR ''i'' # lower_with fd s
      else if fd \<and> c = CHR 0xC5 \<and> d = CHR 0xBF then CHR ''s'' # lower_with fd s
      else lower_byte c # lower_with fd (d # s))"

definition strings_ToLower :: "string \<Rightarrow> string" where
  "strings_ToLower s = lower_with False s"

definition strings_EqualFold :: "string \<Rightarrow> string \<Rightarrow> bool" where
  "strings_EqualFold s t \<longleftrightarrow> lower_with True s = lower_with True t"

section \<open>Package strconv\<close>

definition digit_char :: "nat \<Rightarrow> char" where
  "digit_char d = char_of (48 + d)"

definition digit_val :: "char \<Rightarrow> nat" where
  "digit_val c = of_char c - 48"

definition is_digit :: "char \<Rightarrow> bool" where
  "is_digit c \<longleftrightarrow> (48::nat) \<le> of_char c \<and> of_char c \<le> (57::nat)"

fun decimal :: "nat \<Rightarrow> string" where
  "decimal n = (if n < 10 then [digit_char n] else decimal (n div 10) @ [digit_char (n mod 10)])"

declare decimal.simps [simp del]

definition Itoa :: "int \<Rightarrow> string" where
  "Itoa n = (if n < 0 then CHR ''-'' # decimal (nat (- n)) else decimal (nat n))"

definition decimal_val :: "string \<Rightarrow> nat" where
  "decimal_val ds = foldl (\<lambda>n c. 10 * n + digit_val c) 0 ds"

text \<open>
  \<^verbatim>\<open>strconv.Atoi\<close>: an optional sign, then at least one digit and nothing else, and the value must
  fit a 64-bit \<^verbatim>\<open>int\<close>. \<^term>\<open>None\<close> is the error; the sources replace it by one of their own.
\<close>

definition atoi_sign :: "string \<Rightarrow> bool \<times> string" where
  "atoi_sign s =
     (case s of [] \<Rightarrow> (False, [])
      | c # cs \<Rightarrow> if c = CHR ''-'' then (True, cs) else if c = CHR ''+'' then (False, cs) else (False, s))"

definition Atoi :: "string \<Rightarrow> int option" where
  "Atoi s =
     (let neg = fst (atoi_sign s); ds = snd (atoi_sign s); n = decimal_val ds in
      if ds = [] \<or> \<not> list_all is_digit ds then None
      else if neg then (if n \<le> 2 ^ 63 then Some (- int n) else None)
      else if n < 2 ^ 63 then Some (int n) else None)"

definition go_int :: "int \<Rightarrow> bool" where
  "go_int n \<longleftrightarrow> - (2 ^ 63) \<le> n \<and> n < 2 ^ 63"

section \<open>Package path\<close>

text \<open>
  \<^verbatim>\<open>path.Clean\<close> works element by element: empty and \<^verbatim>\<open>.\<close> elements go, \<^verbatim>\<open>..\<close> takes the element
  before it away, or stays at the front of a relative path, and an empty result is \<^verbatim>\<open>.\<close>. The
  elements kept so far are a stack, last one first.
\<close>

definition clean_step :: "bool \<Rightarrow> string \<Rightarrow> string list \<Rightarrow> string list" where
  "clean_step rooted e kept =
     (if e = [] \<or> e = ''.'' then kept
      else if e = ''..'' then
        (case kept of [] \<Rightarrow> if rooted then [] else [''..'']
         | t # ts \<Rightarrow> if t = ''..'' then ''..'' # kept else ts)
      else e # kept)"

definition path_Clean :: "string \<Rightarrow> string" where
  "path_Clean p =
     (if p = [] then ''.''
      else let rooted = (hd p = CHR ''/'');
               kept = rev (fold (clean_step rooted) (strings_Split p CHR ''/'') []);
               out = (if rooted then ''/'' else []) @ strings_Join kept ''/''
           in if out = [] then ''.'' else out)"

definition join_elem :: "string \<Rightarrow> string \<Rightarrow> string" where
  "join_elem e buf =
     (if buf \<noteq> [] \<or> e \<noteq> [] then (if buf \<noteq> [] then buf @ ''/'' else buf) @ e else buf)"

definition path_Join :: "string list \<Rightarrow> string" where
  "path_Join elems = (if concat elems = [] then [] else path_Clean (fold join_elem elems []))"

text \<open>A path element that \<^verbatim>\<open>path.Clean\<close> keeps as it is.\<close>

definition plain_elem :: "string \<Rightarrow> bool" where
  "plain_elem e \<longleftrightarrow> e \<noteq> [] \<and> CHR ''/'' \<notin> set e \<and> e \<noteq> ''.'' \<and> e \<noteq> ''..''"

section \<open>Splitting and joining\<close>

lemma strings_Split_nonempty [simp]: "strings_Split s c \<noteq> []"
  by (induction s) auto

lemma strings_Split_no_sep: "c \<notin> set s \<Longrightarrow> strings_Split s c = [s]"
  by (induction s) auto

lemma strings_Split_elem_no_sep: "w \<in> set (strings_Split s c) \<Longrightarrow> c \<notin> set w"
proof (induction s arbitrary: w)
  case Nil
  then show ?case by simp
next
  case (Cons x xs)
  have "hd (strings_Split xs c) \<in> set (strings_Split xs c)" by simp
  moreover have "v \<in> set (strings_Split xs c)" if "v \<in> set (tl (strings_Split xs c))" for v
    using that by (rule list.set_sel(2) [OF strings_Split_nonempty])
  ultimately show ?case using Cons by (fastforce split: if_splits)
qed

lemma strings_Split_append:
  "c \<notin> set w \<Longrightarrow> strings_Split (w @ c # s) c = w # strings_Split s c"
  by (induction w) auto

lemma strings_Split_Join:
  "ws \<noteq> [] \<Longrightarrow> (\<And>w. w \<in> set ws \<Longrightarrow> c \<notin> set w) \<Longrightarrow> strings_Split (strings_Join ws [c]) c = ws"
  by (induction ws "[c]" rule: strings_Join.induct)
    (auto simp: strings_Split_no_sep strings_Split_append)

lemma strings_Join_Cons: "ws \<noteq> [] \<Longrightarrow> strings_Join (w # ws) sep = w @ sep @ strings_Join ws sep"
  by (cases ws) auto

lemma strings_Join_Split: "strings_Join (strings_Split s c) [c] = s"
proof (induction s)
  case Nil
  then show ?case by simp
next
  case (Cons x s)
  obtain w ws where s: "strings_Split s c = w # ws" by (cases "strings_Split s c") auto
  show ?case
  proof (cases "x = c")
    case True
    then show ?thesis using Cons by (simp add: strings_Join_Cons)
  next
    case False
    then show ?thesis using Cons s by (cases ws) auto
  qed
qed

lemma strings_SplitN2_no_sep: "c \<notin> set s \<Longrightarrow> strings_SplitN2 s c = [s]"
  by (induction s) auto

lemma strings_SplitN2_append: "c \<notin> set w \<Longrightarrow> strings_SplitN2 (w @ c # s) c = [w, s]"
  by (induction w) auto

section \<open>Decimal numbers\<close>

lemma digit_val_char [simp]: "d < 10 \<Longrightarrow> digit_val (digit_char d) = d"
  by (simp add: digit_val_def digit_char_def)

lemma is_digit_char [simp]: "d < 10 \<Longrightarrow> is_digit (digit_char d)"
  by (simp add: is_digit_def digit_char_def)

lemma decimal_nonempty [simp]: "decimal n \<noteq> []"
  by (subst decimal.simps) simp

lemma decimal_digits: "list_all is_digit (decimal n)"
proof (induction n rule: decimal.induct)
  case (1 n)
  then show ?case by (subst decimal.simps) (simp add: list_all_append)
qed

lemma decimal_val_decimal [simp]: "decimal_val (decimal n) = n"
proof (induction n rule: decimal.induct)
  case (1 n)
  then show ?case by (subst decimal.simps) (simp add: decimal_val_def)
qed

lemma is_digit_not: "is_digit c \<Longrightarrow> c \<noteq> CHR ''-'' \<and> c \<noteq> CHR ''+'' \<and> c \<noteq> CHR ''/'' \<and> c \<noteq> CHR ''.''"
  by (auto simp: is_digit_def)

lemma atoi_sign_digits: "list_all is_digit ds \<Longrightarrow> atoi_sign ds = (False, ds)"
  by (cases ds) (auto simp: atoi_sign_def dest: is_digit_not)

lemma Atoi_Itoa: "go_int n \<Longrightarrow> Atoi (Itoa n) = Some n"
proof (cases "n < 0")
  case True
  assume "go_int n"
  then have "nat (- n) \<le> 2 ^ 63" by (auto simp: go_int_def)
  then show ?thesis using True
    by (simp add: Itoa_def Atoi_def atoi_sign_def decimal_digits)
next
  case False
  assume "go_int n"
  then have "nat n < 2 ^ 63" by (auto simp: go_int_def)
  then show ?thesis using False
    by (simp add: Itoa_def Atoi_def atoi_sign_digits decimal_digits)
qed

lemma Atoi_go_int: "Atoi s = Some n \<Longrightarrow> go_int n"
  by (auto simp: Atoi_def Let_def go_int_def split: if_splits)

lemma Itoa_inj: "Itoa (int a) = Itoa (int b) \<longleftrightarrow> a = b"
proof
  assume eq: "Itoa (int a) = Itoa (int b)"
  then have "decimal a = decimal b" by (simp add: Itoa_def)
  then show "a = b" by (metis decimal_val_decimal)
qed simp

lemma Itoa_plain: "plain_elem (Itoa n)"
proof -
  have dig: "c \<noteq> CHR ''/'' \<and> c \<noteq> CHR ''.''" if "c \<in> set (decimal m)" for m c
    using decimal_digits [of m] that by (auto simp: list_all_iff dest: is_digit_not)
  then have "CHR ''/'' \<notin> set (Itoa n)" and "CHR ''.'' \<notin> set (Itoa n)"
    by (auto simp: Itoa_def)
  moreover have "Itoa n \<noteq> []" by (simp add: Itoa_def)
  ultimately show ?thesis by (auto simp: plain_elem_def)
qed

section \<open>Joining path elements\<close>

lemma fold_join_elem:
  "\<forall>e \<in> set es. e \<noteq> [] \<Longrightarrow> b \<noteq> [] \<Longrightarrow> fold join_elem es b = strings_Join (b # es) ''/''"
proof (induction es arbitrary: b)
  case Nil
  then show ?case by simp
next
  case (Cons e es)
  then have "fold join_elem (e # es) b = strings_Join ((b @ ''/'' @ e) # es) ''/''"
    by (simp add: join_elem_def [of e b])
  then show ?case by (cases es) auto
qed

lemma fold_clean_plain:
  "\<forall>e \<in> set es. plain_elem e \<Longrightarrow> fold (clean_step r) es kept = rev es @ kept"
proof (induction es arbitrary: kept)
  case Nil
  then show ?case by simp
next
  case (Cons e es)
  then have "clean_step r e kept = e # kept" by (simp add: clean_step_def plain_elem_def)
  then show ?case using Cons by simp
qed

lemma path_Join_plain:
  assumes "es \<noteq> []" and plain: "\<forall>e \<in> set es. plain_elem e"
  shows "path_Join es = strings_Join es ''/''"
proof -
  obtain e fs where es: "es = e # fs" using assms(1) by (cases es) auto
  have ne: "e \<noteq> []" "\<forall>f \<in> set fs. f \<noteq> []" and "CHR ''/'' \<notin> set e"
    using plain by (simp_all add: es plain_elem_def)
  then have sl: "hd e \<noteq> CHR ''/''" using hd_in_set [OF ne(1)] by metis
  let ?p = "strings_Join es ''/''"
  have "join_elem e [] = e" by (simp add: join_elem_def)
  then have "fold join_elem es [] = ?p" by (simp add: es fold_join_elem [OF ne(2,1)])
  moreover have "strings_Split ?p CHR ''/'' = es"
    using assms by (intro strings_Split_Join) (auto simp: plain_elem_def)
  moreover have "?p \<noteq> []" and "hd ?p \<noteq> CHR ''/''"
    using ne(1) sl by (cases fs; simp add: es)+
  moreover have "concat es \<noteq> []" using ne(1) by (simp add: es)
  ultimately show ?thesis
    by (simp add: path_Join_def path_Clean_def fold_clean_plain [OF plain])
qed

end
