(* ===== verification/Api_Types.thy ===== *)
theory Api_Types
  imports Go_Strings
begin

text \<open>
  The custom resource \<^verbatim>\<open>GRPCListener\<close> of \<^verbatim>\<open>api/gtc/v1alpha1\<close>: one record per struct of
  \<^verbatim>\<open>types.go\<close>, \<^verbatim>\<open>matcher.go\<close> and \<^verbatim>\<open>interceptor.go\<close>, with the fields in the order of the source. A
  pointer field is an option (\<^term>\<open>None\<close> is nil), a slice a list, an embedded or plain struct a
  field of its record type, and \<^verbatim>\<open>metav1.Duration\<close> its nanoseconds. Of the Kubernetes metadata
  the records keep what the program reads.
\<close>

record TypeMeta =
  tm_Kind :: string
  tm_APIVersion :: string

record ObjectMeta =
  om_Name :: string
  om_Namespace :: string
  om_ResourceVersion :: string
  om_Labels :: "string \<Rightarrow> string option"

section \<open>matcher.go\<close>

record RegexMatcher =
  rx_Regex :: string
  rx_Engine :: string

record RangeMatcher =
  rg_Start :: int64
  rg_End :: int64

record PathMatcher =
  pm_Prefix :: string
  pm_Path :: string
  pm_Regex :: "RegexMatcher option"

record HeaderMatcher =
  hm_Name :: string
  hm_Exact :: "string option"
  hm_Regex :: "RegexMatcher option"
  hm_Range :: "RangeMatcher option"
  hm_Present :: "bool option"
  hm_Prefix :: "string option"
  hm_Suffix :: "string option"
  hm_Invert :: bool

record Fraction =
  fr_Numerator :: uint32
  fr_Denominator :: string

section \<open>interceptor.go\<close>

datatype MetadataFault = MetadataFault

record FaultAbort =
  fa_Code :: "uint32 option"
  fa_Metadata :: "MetadataFault option"
  fa_Percentage :: "Fraction option"

record FaultDelay =
  fd_Fixed :: "Duration option"
  fd_Metadata :: "MetadataFault option"
  fd_Percentage :: "Fraction option"

record FaultInterceptor =
  fi_Delay :: "FaultDelay option"
  fi_Abort :: "FaultAbort option"
  fi_MaxActiveFaults :: "uint32 option"
  fi_Headers :: "HeaderMatcher list"

record Interceptor =
  ic_Fault :: "FaultInterceptor option"

section \<open>types.go\<close>

record MetadataMatcher =
  mm_Name :: string
  mm_Exact :: "string option"
  mm_Regex :: "RegexMatcher option"
  mm_Range :: "RangeMatcher option"
  mm_Present :: "bool option"
  mm_Prefix :: "string option"
  mm_Suffix :: "string option"
  mm_Invert :: bool

record MethodMatcher =
  me_Namespace :: string
  me_Service :: string
  me_Method :: string

record ServiceMatcher =
  sm_Namespace :: string
  sm_Service :: string

record RouteMatcher =
  rm_Method :: "MethodMatcher option"
  rm_Service :: "ServiceMatcher option"
  rm_Namespace :: "string option"
  rm_Metadata :: "MetadataMatcher list"
  rm_Fraction :: "Fraction option"

record PortRef =
  pr_Number :: int32
  pr_Name :: string

record ServiceRef =
  sr_Name :: string
  sr_Namespace :: string
  sr_Port :: PortRef

record Locality =
  lo_Weight :: uint32
  lo_Priority :: uint32
  lo_Service :: "ServiceRef option"

record RingHashConfig =
  rh_MinRingSize :: uint64
  rh_MaxRingSize :: uint64

record Backend =
  bk_Weight :: uint32
  bk_MaxRequests :: "uint32 option"
  bk_LBPolicy :: string
  bk_RingHashConfig :: "RingHashConfig option"
  bk_Interceptors :: "Interceptor list"
  bk_Service :: "ServiceRef option"
  bk_Localities :: "Locality list"

record RetryBackoff =
  rb_BaseInterval :: Duration
  rb_MaxInterval :: "Duration option"

record RetryPolicy =
  rp_RetryOn :: "string list"
  rp_NumRetries :: "uint32 option"
  rp_Backoff :: "RetryBackoff option"

record HashPolicy =
  hp_Metadata :: string
  hp_Channel :: "bool option"
  hp_Terminal :: bool

record Route =
  rt_Matcher :: "RouteMatcher option"
  rt_Interceptors :: "Interceptor list"
  rt_HashPolicy :: "HashPolicy list"
  rt_MaxStreamDuration :: "Duration option"
  rt_GrpcTimeoutHeaderMax :: "Duration option"
  rt_Retry :: "RetryPolicy option"
  rt_Backends :: "Backend list"

record GRPCListenerSpec =
  ls_MaxStreamDuration :: "Duration option"
  ls_Interceptors :: "Interceptor list"
  ls_Retry :: "RetryPolicy option"
  ls_Routes :: "Route list"

record GRPCListener =
  gl_TypeMeta :: TypeMeta
  gl_ObjectMeta :: ObjectMeta
  gl_Spec :: GRPCListenerSpec

text \<open>The promoted fields of the embedded metadata.\<close>

abbreviation lis_Name :: "GRPCListener \<Rightarrow> string" where
  "lis_Name lis \<equiv> om_Name (gl_ObjectMeta lis)"

abbreviation lis_Namespace :: "GRPCListener \<Rightarrow> string" where
  "lis_Namespace lis \<equiv> om_Namespace (gl_ObjectMeta lis)"

abbreviation lis_ResourceVersion :: "GRPCListener \<Rightarrow> string" where
  "lis_ResourceVersion lis \<equiv> om_ResourceVersion (gl_ObjectMeta lis)"

abbreviation lis_Routes :: "GRPCListener \<Rightarrow> Route list" where
  "lis_Routes lis \<equiv> ls_Routes (gl_Spec lis)"

text \<open>\<^verbatim>\<open>MethodMatcher.Path\<close> and \<^verbatim>\<open>ServiceMatcher.Prefix\<close>.\<close>

definition MethodMatcher_Path :: "MethodMatcher \<Rightarrow> string" where
  "MethodMatcher_Path mm =
     ''/'' @ path_Join [me_Namespace mm @ ''.'' @ me_Service mm, me_Method mm]"

definition ServiceMatcher_Prefix :: "ServiceMatcher \<Rightarrow> string" where
  "ServiceMatcher_Prefix sm = ''/'' @ sm_Namespace sm @ ''.'' @ sm_Service sm"

text \<open>
  Concrete objects for the witnesses: a listener with a single route that sends everything to the
  port named \<^verbatim>\<open>grpc\<close> of one service, as in the first case of the repository's server test.
\<close>

definition sample_service :: ServiceRef where
  "sample_service =
     \<lparr>sr_Name = ''test-service'', sr_Namespace = [], sr_Port = \<lparr>pr_Number = 0, pr_Name = ''grpc''\<rparr>\<rparr>"

definition sample_backend :: Backend where
  "sample_backend =
     \<lparr>bk_Weight = 1, bk_MaxRequests = None, bk_LBPolicy = ''round_robin'', bk_RingHashConfig = None,
      bk_Interceptors = [], bk_Service = Some sample_service, bk_Localities = []\<rparr>"

definition sample_route :: Route where
  "sample_route =
     \<lparr>rt_Matcher = None, rt_Interceptors = [], rt_HashPolicy = [], rt_MaxStreamDuration = None,
      rt_GrpcTimeoutHeaderMax = None, rt_Retry = None, rt_Backends = [sample_backend]\<rparr>"

definition sample_listener :: GRPCListener where
  "sample_listener =
     \<lparr>gl_TypeMeta = \<lparr>tm_Kind = ''GRPCListener'', tm_APIVersion = ''api.gtc.dev/v1alpha1''\<rparr>,
      gl_ObjectMeta = \<lparr>om_Name = ''test-xds'', om_Namespace = ''default'',
        om_ResourceVersion = ''42'', om_Labels = (\<lambda>_. None)\<rparr>,
      gl_Spec = \<lparr>ls_MaxStreamDuration = None, ls_Interceptors = [], ls_Retry = None,
        ls_Routes = [sample_route]\<rparr>\<rparr>"

lemmas sample_defs [go_defs] =
  sample_service_def sample_backend_def sample_route_def sample_listener_def

text \<open>
  The path of a method matcher is the path of a gRPC call, \<^verbatim>\<open>/namespace.service/method\<close>, as long as
  the method is a plain name.
\<close>

lemma MethodMatcher_Path_grpc:
  assumes "CHR ''/'' \<notin> set (me_Namespace mm)" and "CHR ''/'' \<notin> set (me_Service mm)"
    and "me_Service mm \<noteq> []" and "hd (me_Service mm) \<noteq> CHR ''.''" and "plain_elem (me_Method mm)"
  shows "MethodMatcher_Path mm =
    ''/'' @ me_Namespace mm @ ''.'' @ me_Service mm @ ''/'' @ me_Method mm"
proof -
  let ?e = "me_Namespace mm @ ''.'' @ me_Service mm"
  obtain c cs where svc: "me_Service mm = c # cs" using assms(3) by (cases "me_Service mm") auto
  have "?e \<noteq> ''.''" and "?e \<noteq> ''..''"
    using assms(4) by (auto simp: svc append_eq_Cons_conv Cons_eq_append_conv)
  then have "plain_elem ?e" using assms(1,2) by (auto simp: plain_elem_def)
  then have "path_Join [?e, me_Method mm] = strings_Join [?e, me_Method mm] ''/''"
    using assms(5) by (intro path_Join_plain) auto
  then show ?thesis by (simp add: MethodMatcher_Path_def)
qed

end
