(* ===== verification/Xds_Types.thy ===== *)
theory Xds_Types
  imports Api_Types
begin

text \<open>
  The data that crosses the boundary of the repository: the xDS messages the program builds, the
  Kubernetes objects it reads, and \<open>xdslib\<close>, the third-party functions and constants it calls
  (Envoy's \<^verbatim>\<open>go-control-plane\<close>, \<^verbatim>\<open>protobuf\<close> and Kubernetes' \<^verbatim>\<open>labels\<close>). A message is a record of the
  fields the program sets (every other field keeps its zero value), a oneof a datatype, a slice of
  message pointers a list of options. The definitions of the components take the library as an
  argument; what a theorem needs of it is a hypothesis named here.
\<close>

section \<open>Messages\<close>

record AnyMsg =
  any_TypeUrl :: string
  any_Value :: string

record PbDuration =
  pd_Seconds :: int64
  pd_Nanos :: int32

record FractionalPercent =
  fp_Numerator :: uint32
  fp_Denominator :: int32

datatype FaultDelaySecifier = FixedDelay PbDuration | HeaderDelay

record FaultDelayMsg =
  fdm_FaultDelaySecifier :: "FaultDelaySecifier option"
  fdm_Percentage :: "FractionalPercent option"

datatype FaultAbortErrorType = GrpcStatus uint32 | HeaderAbort

record FaultAbortMsg =
  fam_ErrorType :: "FaultAbortErrorType option"
  fam_Percentage :: "FractionalPercent option"

record HTTPFault =
  hf_Delay :: "FaultDelayMsg option"
  hf_Abort :: "FaultAbortMsg option"
  hf_MaxActiveFaults :: "uint32 option"

record HttpFilter =
  flt_Name :: string
  flt_TypedConfig :: AnyMsg

record RetryBackOffMsg =
  rbm_BaseInterval :: PbDuration
  rbm_MaxInterval :: "PbDuration option"

record RetryPolicyMsg =
  rpm_RetryOn :: string
  rpm_NumRetries :: uint32
  rpm_RetryBackOff :: "RetryBackOffMsg option"

datatype HeaderMatchSpecifier =
    ExactMatch string
  | SafeRegexMatch string
  | RangeMatch int64 int64
  | PresentMatch bool
  | PrefixMatch string
  | SuffixMatch string

record HeaderMatcherMsg =
  hmm_Name :: string
  hmm_InvertMatch :: bool
  hmm_HeaderMatchSpecifier :: "HeaderMatchSpecifier option"

datatype PathSpecifier = PathPrefix string | PathExact string

record RouteMatchMsg =
  rmm_PathSpecifier :: PathSpecifier
  rmm_RuntimeFraction :: "FractionalPercent option"
  rmm_Headers :: "HeaderMatcherMsg option list"

datatype PolicySpecifier = HashHeader string | HashFilterState string

record HashPolicyMsg =
  hpm_PolicySpecifier :: PolicySpecifier
  hpm_Terminal :: bool

record ClusterWeight =
  cw_Name :: string
  cw_Weight :: uint32
  cw_TypedPerFilterConfig :: "string \<Rightarrow> AnyMsg option"

record WeightedCluster =
  wc_TotalWeight :: uint32
  wc_Clusters :: "ClusterWeight option list"

record RouteMsg =
  rtm_Match :: RouteMatchMsg
  rtm_TypedPerFilterConfig :: "string \<Rightarrow> AnyMsg option"
  rtm_HashPolicy :: "HashPolicyMsg option list"
  rtm_RetryPolicy :: "RetryPolicyMsg option"
  rtm_MaxStreamDuration :: "PbDuration option"
  rtm_GrpcTimeoutHeaderMax :: "PbDuration option"
  rtm_WeightedClusters :: WeightedCluster

record VirtualHost =
  vh_Name :: string
  vh_Domains :: "string list"
  vh_Routes :: "RouteMsg option list"
  vh_RetryPolicy :: "RetryPolicyMsg option"

record RouteConfiguration =
  rc_Name :: string
  rc_ValidateClusters :: bool
  rc_VirtualHosts :: "VirtualHost list"

record HttpConnectionManager =
  hcm_MaxStreamDuration :: "PbDuration option"
  hcm_RouteConfig :: RouteConfiguration
  hcm_HttpFilters :: "HttpFilter option list"

record ListenerMsg =
  lm_Name :: string
  lm_ApiListener :: AnyMsg

datatype LbPolicy = ROUND_ROBIN | RING_HASH

datatype DiscoveryType = EDS

datatype HashFunction = XX_HASH

record RingHashLbConfig =
  rhl_MinimumRingSize :: uint64
  rhl_MaximumRingSize :: uint64
  rhl_HashFunction :: HashFunction

datatype ConfigSource = Ads

record EdsClusterConfig =
  ecc_EdsConfig :: ConfigSource
  ecc_ServiceName :: string

record ClusterMsg =
  cm_Name :: string
  cm_LbPolicy :: LbPolicy
  cm_ClusterDiscoveryType :: DiscoveryType
  cm_EdsClusterConfig :: EdsClusterConfig
  cm_MaxRequests :: "uint32 list"
  cm_RingHashLbConfig :: "RingHashLbConfig option"

datatype SocketProtocol = TCP

record LbEndpoint =
  lbe_Protocol :: SocketProtocol
  lbe_Address :: string
  lbe_PortValue :: uint32

record LocalityMsg =
  lcm_Zone :: string
  lcm_SubZone :: string

record LocalityLbEndpoints =
  lle_Locality :: LocalityMsg
  lle_LoadBalancingWeight :: uint32
  lle_Priority :: uint32
  lle_LbEndpoints :: "LbEndpoint list"

record ClusterLoadAssignment =
  cla_ClusterName :: string
  cla_Endpoints :: "LocalityLbEndpoints option list"

datatype ProtoMessage =
    PRouter
  | PHTTPFault HTTPFault
  | PHttpConnectionManager HttpConnectionManager
  | PListener ListenerMsg
  | PCluster ClusterMsg
  | PClusterLoadAssignment ClusterLoadAssignment

section \<open>Requests of the clients\<close>

record Node =
  nd_Id :: string
  nd_Locality :: "LocalityMsg option"

record DiscoveryRequest =
  dq_TypeUrl :: string
  dq_ResourceNames :: "string list"
  dq_Node :: "Node option"

record DiscoveryResponse =
  ds_TypeUrl :: string
  ds_Resources :: "AnyMsg option list"
  ds_VersionInfo :: string

section \<open>Kubernetes objects\<close>

record EndpointPort =
  ept_Name :: "string option"
  ept_Port :: "int32 option"

record Endpoint =
  ep_Addresses :: "string list"
  ep_Ready :: "bool option"
  ep_Hints :: "string list option"
  ep_Zone :: "string option"

record EndpointSlice =
  es_ObjectMeta :: ObjectMeta
  es_Endpoints :: "Endpoint list"
  es_Ports :: "EndpointPort list"

datatype Operator = Equals

record Requirement =
  rq_Key :: string
  rq_Operator :: Operator
  rq_Values :: "string list"

datatype Selector = Everything | Requirements "Requirement list"

section \<open>The libraries\<close>

text \<open>
  \<open>xdslib\<close> holds the third-party code: the type URLs and filter names of \<^verbatim>\<open>go-control-plane\<close>, the
  generated table of the enumeration \<^verbatim>\<open>FractionalPercent.DenominatorType\<close>, \<^verbatim>\<open>durationpb.New\<close>,
  \<^verbatim>\<open>anypb.New\<close>, \<^verbatim>\<open>proto.Marshal\<close> with the deterministic option, and \<^verbatim>\<open>labels.NewRequirement\<close>. An
  \<open>Indexer\<close> is a client-go cache as the generated lister sees it, and \<open>slice_lister\<close> the client-go
  lister of endpoint slices: the slices of a namespace that a selector matches.
\<close>

record xdslib =
  ListenerType :: string
  ClusterType :: string
  EndpointType :: string
  wellknown_Router :: string
  wellknown_Fault :: string
  DenominatorType_value :: "string \<Rightarrow> int32 option"
  durationpb_New :: "Duration \<Rightarrow> PbDuration"
  anypb_New :: "ProtoMessage \<Rightarrow> go_error + AnyMsg"
  proto_Marshal :: "ProtoMessage \<Rightarrow> go_error + string"
  labels_NewRequirement :: "string \<Rightarrow> Operator \<Rightarrow> string list \<Rightarrow> go_error + Requirement"

record 'a Indexer =
  GetByKey :: "string \<Rightarrow> go_error + 'a option"
  ListAll :: "Selector \<Rightarrow> go_error + 'a list"
  ListAllByNamespace :: "string \<Rightarrow> Selector \<Rightarrow> go_error + 'a list"

type_synonym slice_lister = "string \<Rightarrow> Selector \<Rightarrow> go_error + EndpointSlice list"

text \<open>
  What theorems assume of the libraries, each a documented behaviour: the serialization of a
  message succeeds (it does unless a string field is not valid UTF-8), the three type URLs differ,
  the denominators are the three of the Envoy protocol, and a requirement keeps its key and values.
\<close>

definition encodes :: "xdslib \<Rightarrow> ProtoMessage \<Rightarrow> bool" where
  "encodes lib m \<longleftrightarrow> (\<exists>a. anypb_New lib m = Inr a) \<and> (\<exists>b. proto_Marshal lib m = Inr b)"

definition type_urls_distinct :: "xdslib \<Rightarrow> bool" where
  "type_urls_distinct lib \<longleftrightarrow> distinct [ListenerType lib, ClusterType lib, EndpointType lib]"

definition denominators_ok :: "xdslib \<Rightarrow> bool" where
  "denominators_ok lib \<longleftrightarrow>
     DenominatorType_value lib = [''HUNDRED'' \<mapsto> 0, ''TEN_THOUSAND'' \<mapsto> 1, ''MILLION'' \<mapsto> 2]"

definition selects_by_label :: "xdslib \<Rightarrow> bool" where
  "selects_by_label lib \<longleftrightarrow>
     (\<forall>k vs r. labels_NewRequirement lib k Equals vs = Inr r \<longrightarrow>
        rq_Key r = k \<and> rq_Operator r = Equals \<and> rq_Values r = vs)"

text \<open>
  The libraries the witnesses run on: the real constants, a serialization that returns fixed
  bytes, and a selector constructor that accepts every value.
\<close>

definition sample_lib :: xdslib where
  "sample_lib =
     \<lparr>ListenerType = ''type.googleapis.com/envoy.config.listener.v3.Listener'',
      ClusterType = ''type.googleapis.com/envoy.config.cluster.v3.Cluster'',
      EndpointType = ''type.googleapis.com/envoy.config.endpoint.v3.ClusterLoadAssignment'',
      wellknown_Router = ''envoy.filters.http.router'',
      wellknown_Fault = ''envoy.filters.http.fault'',
      DenominatorType_value = [''HUNDRED'' \<mapsto> 0, ''TEN_THOUSAND'' \<mapsto> 1, ''MILLION'' \<mapsto> 2],
      durationpb_New = (\<lambda>d. \<lparr>pd_Seconds = d, pd_Nanos = 0\<rparr>),
      anypb_New = (\<lambda>m. Inr \<lparr>any_TypeUrl = ''type.googleapis.com/'', any_Value = ''x''\<rparr>),
      proto_Marshal = (\<lambda>m. Inr ''x''),
      labels_NewRequirement = (\<lambda>k opr vs. Inr \<lparr>rq_Key = k, rq_Operator = opr, rq_Values = vs\<rparr>)\<rparr>"

lemmas [go_defs] = sample_lib_def

lemma sample_lib_encodes: "encodes sample_lib m"
  by (simp add: encodes_def sample_lib_def)

lemma sample_lib_distinct: "type_urls_distinct sample_lib"
  by (simp add: type_urls_distinct_def sample_lib_def)

lemma sample_lib_denominators: "denominators_ok sample_lib"
  by (simp add: denominators_ok_def sample_lib_def)

lemma sample_lib_selects: "selects_by_label sample_lib"
  by (simp add: selects_by_label_def sample_lib_def)

lemmas sample_lib_ok =
  sample_lib_encodes sample_lib_distinct sample_lib_denominators sample_lib_selects

lemma encodes_anypb: "encodes lib m \<Longrightarrow> \<exists>a. anypb_New lib m = Inr a"
  by (simp add: encodes_def)

lemma encodes_marshal: "encodes lib m \<Longrightarrow> \<exists>b. proto_Marshal lib m = Inr b"
  by (simp add: encodes_def)

end
