(* ===== verification/Go_Hash.thy ===== *)
theory Go_Hash
  imports Gtc_Prelude
begin

text \<open>
  What \<^verbatim>\<open>gtc/resolver.go\<close> uses of Go's standard library to version its answers: the SHA-256 digest
  of \<^verbatim>\<open>crypto/sha256\<close> (FIPS 180-4) and the standard encoding of \<^verbatim>\<open>encoding/base64\<close> (RFC 4648).
\<close>

unbundle bit_operations_syntax

section \<open>SHA-256\<close>

type_synonym byte = "8 word"

definition sha_k :: "uint32 list" where
  "sha_k =
    [1116352408, 1899447441, 3049323471, 3921009573, 961987163, 1508970993, 2453635748, 2870763221,
     3624381080, 310598401, 607225278, 1426881987, 1925078388, 2162078206, 2614888103, 3248222580,
     3835390401, 4022224774, 264347078, 604807628, 770255983, 1249150122, 1555081692, 1996064986,
     2554220882, 2821834349, 2952996808, 3210313671, 3336571891, 3584528711, 113926993, 338241895,
     666307205, 773529912, 1294757372, 1396182291, 1695183700, 1986661051, 2177026350, 2456956037,
     2730485921, 2820302411, 3259730800, 3345764771, 3516065817, 3600352804, 4094571909, 275423344,
     430227734, 506948616, 659060556, 883997877, 958139571, 1322822218, 1537002063, 1747873779,
     1955562222, 2024104815, 2227730452, 2361852424, 2428436474, 2756734187, 3204031479, 3329325298]"

definition sha_init :: "uint32 list" where
  "sha_init =
    [1779033703, 3144134277, 1013904242, 2773480762, 1359893119, 2600822924, 528734635, 1541459225]"

definition small_sigma0 :: "uint32 \<Rightarrow> uint32" where
  "small_sigma0 x = word_rotr 7 x XOR word_rotr 18 x XOR drop_bit 3 x"

definition small_sigma1 :: "uint32 \<Rightarrow> uint32" where
  "small_sigma1 x = word_rotr 17 x XOR word_rotr 19 x XOR drop_bit 10 x"

definition big_sigma0 :: "uint32 \<Rightarrow> uint32" where
  "big_sigma0 x = word_rotr 2 x XOR word_rotr 13 x XOR word_rotr 22 x"

definition big_sigma1 :: "uint32 \<Rightarrow> uint32" where
  "big_sigma1 x = word_rotr 6 x XOR word_rotr 11 x XOR word_rotr 25 x"

definition sha_ch :: "uint32 \<Rightarrow> uint32 \<Rightarrow> uint32 \<Rightarrow> uint32" where
  "sha_ch x y z = (x AND y) XOR (NOT x AND z)"

definition sha_maj :: "uint32 \<Rightarrow> uint32 \<Rightarrow> uint32 \<Rightarrow> uint32" where
  "sha_maj x y z = (x AND y) XOR (x AND z) XOR (y AND z)"

text \<open>The message schedule grows from the sixteen words of a block to sixty-four.\<close>

primrec sha_schedule :: "nat \<Rightarrow> uint32 list \<Rightarrow> uint32 list" where
  "sha_schedule 0 w = w"
| "sha_schedule (Suc n) w =
     (let t = length w in
      sha_schedule n (w @ [small_sigma1 (w ! (t - 2)) + w ! (t - 7) + small_sigma0 (w ! (t - 15)) + w ! (t - 16)]))"

definition sha_round :: "uint32 \<times> uint32 \<Rightarrow> uint32 list \<Rightarrow> uint32 list" where
  "sha_round kw s =
     (let t1 = s ! 7 + big_sigma1 (s ! 4) + sha_ch (s ! 4) (s ! 5) (s ! 6) + fst kw + snd kw;
          t2 = big_sigma0 (s ! 0) + sha_maj (s ! 0) (s ! 1) (s ! 2)
      in [t1 + t2, s ! 0, s ! 1, s ! 2, s ! 3 + t1, s ! 4, s ! 5, s ! 6])"

definition sha_block :: "uint32 list \<Rightarrow> uint32 list \<Rightarrow> uint32 list" where
  "sha_block blk h = map2 (+) h (fold sha_round (zip sha_k (sha_schedule 48 blk)) h)"

text \<open>Big-endian words of a block, the padding, and the digest.\<close>

fun be_words :: "byte list \<Rightarrow> uint32 list" where
  "be_words (a # b # c # d # bs) =
     (push_bit 24 (ucast a) OR push_bit 16 (ucast b) OR push_bit 8 (ucast c) OR ucast d) # be_words bs"
| "be_words bs = []"

definition be_bytes :: "nat \<Rightarrow> 'w::len word \<Rightarrow> byte list" where
  "be_bytes n w = map (\<lambda>i. ucast (drop_bit (8 * (n - 1 - i)) w)) [0..<n]"

definition sha_pad :: "byte list \<Rightarrow> byte list" where
  "sha_pad m =
     m @ [0x80] @ replicate (nat ((55 - int (length m)) mod 64)) 0
       @ be_bytes 8 (of_nat (8 * length m) :: 64 word)"

fun sha_blocks :: "nat \<Rightarrow> byte list \<Rightarrow> uint32 list \<Rightarrow> uint32 list" where
  "sha_blocks 0 bs h = h"
| "sha_blocks (Suc n) bs h = sha_blocks n (drop 64 bs) (sha_block (be_words (take 64 bs)) h)"

definition sha256_Sum :: "byte list \<Rightarrow> byte list" where
  "sha256_Sum m =
     (let p = sha_pad m in concat (map (be_bytes 4) (sha_blocks (length p div 64) p sha_init)))"

section \<open>Base64\<close>

definition b64_char :: "nat \<Rightarrow> char" where
  "b64_char n =
     (if n < 26 then char_of (65 + n) else if n < 52 then char_of (71 + n)
      else if n < 62 then char_of (n - 4) else if n = 62 then CHR ''+'' else CHR ''/'')"

fun base64_EncodeToString :: "byte list \<Rightarrow> string" where
  "base64_EncodeToString [] = []"
| "base64_EncodeToString [a] =
     (let n = unat a * 65536 in [b64_char (n div 262144), b64_char (n div 4096 mod 64), CHR ''='', CHR ''=''])"
| "base64_EncodeToString [a, b] =
     (let n = unat a * 65536 + unat b * 256 in
      [b64_char (n div 262144), b64_char (n div 4096 mod 64), b64_char (n div 64 mod 64), CHR ''=''])"
| "base64_EncodeToString (a # b # c # bs) =
     (let n = unat a * 65536 + unat b * 256 + unat c in
      b64_char (n div 262144) # b64_char (n div 4096 mod 64) # b64_char (n div 64 mod 64)
        # b64_char (n mod 64) # base64_EncodeToString bs)"

definition bytes_of_string :: "string \<Rightarrow> byte list" where
  "bytes_of_string s = map (\<lambda>c. of_nat (of_char c)) s"

section \<open>Sizes\<close>

lemma sha_round_length [simp]: "length (sha_round kw h) = 8"
  by (simp add: sha_round_def Let_def)

lemma fold_sha_round_length: "length h = 8 \<Longrightarrow> length (fold sha_round kws h) = 8"
  by (induction kws arbitrary: h) auto

lemma sha_block_length: "length h = 8 \<Longrightarrow> length (sha_block blk h) = 8"
  by (simp add: sha_block_def fold_sha_round_length)

lemma sha_blocks_length: "length h = 8 \<Longrightarrow> length (sha_blocks n bs h) = 8"
  by (induction n bs h rule: sha_blocks.induct) (auto simp: sha_block_length)

lemma be_bytes_length [simp]: "length (be_bytes n w) = n"
  by (simp add: be_bytes_def)

lemma length_concat_const:
  "(\<And>x. x \<in> set xs \<Longrightarrow> length (f x) = n) \<Longrightarrow> length (concat (map f xs)) = n * length xs"
  by (induction xs) auto

lemma sha256_Sum_length [simp]: "length (sha256_Sum m) = 32"
  by (simp add: sha256_Sum_def Let_def length_concat_const [where n = 4] sha_blocks_length sha_init_def)

lemma sha_pad_blocks: "length (sha_pad m) mod 64 = 0"
proof -
  have "int (length (sha_pad m)) mod 64 = (int (length m) + 9 + (55 - int (length m)) mod 64) mod 64"
    by (simp add: sha_pad_def algebra_simps)
  also have "\<dots> = (int (length m) + 9 + (55 - int (length m))) mod 64" by (rule mod_add_right_eq)
  finally have "int (length (sha_pad m) mod 64) = 0" by (simp add: zmod_int)
  then show ?thesis by linarith
qed

lemma base64_length: "length (base64_EncodeToString bs) = 4 * ((length bs + 2) div 3)"
proof (induction bs rule: base64_EncodeToString.induct)
  case (4 a b c bs)
  have "length (base64_EncodeToString (a # b # c # bs)) = 4 + length (base64_EncodeToString bs)"
    by (simp add: Let_def)
  moreover have "(length (a # b # c # bs) + 2) div 3 = 1 + (length bs + 2) div 3"
    using div_add_self2 [of 3 "length bs + 2"] by (simp add: algebra_simps)
  ultimately show ?case using 4 by (metis add_mult_distrib2 mult.right_neutral)
qed (simp_all add: Let_def)

end
