(* ===== verification/Resolver.thy ===== *)
theory Resolver
  imports Xds_Types Go_Hash
begin

text \<open>
  The resolver of \<^verbatim>\<open>gtc/resolver.go\<close> and the helpers of \<^verbatim>\<open>gtc/xds.go\<close>. A handler answers a request
  for a list of names with one resource per name and a version, the digest of the Kubernetes
  resource versions it read. \<open>answer_loop\<close> is the loop every handler of the program is an instance
  of; the locale \<open>resource_resolver\<close> is the contract of the Go interface \<^verbatim>\<open>resourceResolver\<close>, and
  \<open>answer_resolver\<close> shows that the loop provides it.
\<close>

record resolveRequest =
  rq_resourceNames :: "string list"
  rq_typeUrl :: string
  rq_nodeInfo :: "Node option"

text \<open>The hasher of a response is the sequence of bytes written to it.\<close>

record resolveResponse =
  rr_typeURL :: string
  rr_resources :: "AnyMsg option list"
  rr_versionHasher :: string

definition newResolveResponse :: "string \<Rightarrow> nat \<Rightarrow> resolveResponse" where
  "newResolveResponse typeURL resourcesCount =
     \<lparr>rr_typeURL = typeURL, rr_resources = replicate resourcesCount None, rr_versionHasher = []\<rparr>"

definition useResourceVersion :: "string \<Rightarrow> resolveResponse \<Rightarrow> resolveResponse outcome" where
  "useResourceVersion v r = Ok (r\<lparr>rr_versionHasher := rr_versionHasher r @ v\<rparr>)"

definition versionInfo :: "resolveResponse \<Rightarrow> string" where
  "versionInfo r = base64_EncodeToString (sha256_Sum (bytes_of_string (rr_versionHasher r)))"

type_synonym resourceResolver = "resolveRequest \<Rightarrow> resolveResponse outcome"
type_synonym resourceTypeResolver = "string \<Rightarrow> resourceResolver option"

definition resourceTypeResolver_resolveResource :: "resourceTypeResolver \<Rightarrow> resourceResolver" where
  "resourceTypeResolver_resolveResource h req =
     (case h (rq_typeUrl req) of
        None \<Rightarrow> Err (UnsupportedResourceType (rq_typeUrl req))
      | Some hdl \<Rightarrow> hdl req)"

section \<open>xds.go\<close>

definition makeDuration :: "xdslib \<Rightarrow> Duration option \<Rightarrow> PbDuration option" where
  "makeDuration lib duration =
     (case duration of None \<Rightarrow> None | Some d \<Rightarrow> Some (durationpb_New lib d))"

definition mustAny :: "xdslib \<Rightarrow> ProtoMessage \<Rightarrow> AnyMsg outcome" where
  "mustAny lib msg =
     (case anypb_New lib msg of Inl err \<Rightarrow> Panic (PanicWith err) | Inr p \<Rightarrow> Ok p)"

definition makeFractionalPercent :: "xdslib \<Rightarrow> Fraction \<Rightarrow> FractionalPercent outcome" where
  "makeFractionalPercent lib p =
     (case DenominatorType_value lib (strings_ToUpper (fr_Denominator p)) of
        None \<Rightarrow> Err (ErrorsNew ''unsupported denominator for runtime fraction'')
      | Some denominator \<Rightarrow> Ok \<lparr>fp_Numerator = fr_Numerator p, fp_Denominator = denominator\<rparr>)"

definition encodeResource :: "xdslib \<Rightarrow> string \<Rightarrow> ProtoMessage \<Rightarrow> AnyMsg outcome" where
  "encodeResource lib turl r =
     and_then (of_lib (proto_Marshal lib r))
       (\<lambda>marshaled. Ok \<lparr>any_TypeUrl = turl, any_Value = marshaled\<rparr>)"

lemma mustAny_Ok [go_simps]: "mustAny lib m = Ok a \<longleftrightarrow> anypb_New lib m = Inr a"
  by (auto simp: mustAny_def split: sum.splits)

lemma mustAny_panics [go_simps]: "is_Panic (mustAny lib m) \<longleftrightarrow> \<not> (\<exists>a. anypb_New lib m = Inr a)"
  by (auto simp: mustAny_def split: sum.splits)

lemma encodeResource_Ok [go_simps]:
  "encodeResource lib turl m = Ok a \<longleftrightarrow> proto_Marshal lib m = Inr (any_Value a) \<and> any_TypeUrl a = turl"
  by (cases a) (auto simp: encodeResource_def go_simps)

lemma encodeResource_no_panic [simp]: "\<not> is_Panic (encodeResource lib turl m)"
  by (simp add: encodeResource_def go_simps)

lemma makeFractionalPercent_no_panic [simp]: "\<not> is_Panic (makeFractionalPercent lib p)"
  by (simp add: makeFractionalPercent_def split: option.splits)

lemma useResourceVersion_no_panic [simp]: "\<not> is_Panic (useResourceVersion v r)"
  by (simp add: useResourceVersion_def)

section \<open>The answer loop\<close>

text \<open>
  One iteration of a handler computes a resource and the resource versions it depends on, stores
  the resource at the index of its name and writes the versions to the hasher.
\<close>

type_synonym answer = "AnyMsg \<times> string list"

definition answer_body ::
    "(string \<Rightarrow> answer outcome) \<Rightarrow> nat \<Rightarrow> string \<Rightarrow> resolveResponse \<Rightarrow> resolveResponse outcome" where
  "answer_body one i nm resp =
     and_then (one nm) (\<lambda>(a, vs).
       Ok (resp\<lparr>rr_resources := (rr_resources resp)[i := Some a],
                rr_versionHasher := rr_versionHasher resp @ concat vs\<rparr>))"

definition answer_loop :: "(string \<Rightarrow> answer outcome) \<Rightarrow> string \<Rightarrow> string list \<Rightarrow> resolveResponse outcome" where
  "answer_loop one turl names =
     for_range (answer_body one) 0 names (newResolveResponse turl (length names))"

definition response_of :: "string \<Rightarrow> answer list \<Rightarrow> resolveResponse" where
  "response_of turl rs =
     \<lparr>rr_typeURL = turl, rr_resources = map (\<lambda>r. Some (fst r)) rs,
      rr_versionHasher = concat (map (\<lambda>r. concat (snd r)) rs)\<rparr>"

lemma answer_loop_traverse:
  "answer_loop one turl names =
     and_then (traverse (\<lambda>_. one) 0 names) (\<lambda>rs. Ok (response_of turl rs))"
proof -
  have "for_range (answer_body one) (length pre) names
      \<lparr>rr_typeURL = turl, rr_resources = map Some pre @ replicate (length names) None,
       rr_versionHasher = h\<rparr> =
      and_then (traverse (\<lambda>_. one) (length pre) names) (\<lambda>rs.
        Ok \<lparr>rr_typeURL = turl, rr_resources = map Some pre @ map (\<lambda>r. Some (fst r)) rs,
            rr_versionHasher = h @ concat (map (\<lambda>r. concat (snd r)) rs)\<rparr>)" for pre h
  proof (induction names arbitrary: pre h)
    case Nil
    then show ?case by simp
  next
    case (Cons nm names)
    show ?case
    proof (cases "one nm")
      case (Ok r)
      have upd: "(map Some pre @ None # replicate (length names) None)[length pre := Some (fst r)] =
          map Some (pre @ [fst r]) @ replicate (length names) None"
        by (simp add: list_update_append)
      show ?thesis
        using Cons.IH [of "pre @ [fst r]" "h @ concat (snd r)"]
        by (simp add: Ok answer_body_def [of one "length pre" nm] upd case_prod_beta and_then_assoc)
    qed (simp_all add: answer_body_def [of one "length pre" nm])
  qed
  from this [of "[]" "[]"] show ?thesis
    by (simp add: answer_loop_def newResolveResponse_def response_of_def)
qed

lemma answer_loop_Ok:
  "answer_loop one turl names = Ok resp \<longleftrightarrow>
     (\<exists>rs. traverse (\<lambda>_. one) 0 names = Ok rs \<and> resp = response_of turl rs)"
  by (auto simp: answer_loop_traverse go_simps)

lemma answer_loop_single: "answer_loop one turl [nm] = and_then (one nm) (\<lambda>r. Ok (response_of turl [r]))"
  by (simp add: answer_loop_traverse and_then_assoc)

section \<open>The contract of a resolver\<close>

locale resource_resolver =
  fixes resolve :: "string list \<Rightarrow> resolveResponse outcome"
    and turl :: string
  assumes complete: "resolve names = Ok resp \<Longrightarrow>
      rr_typeURL resp = turl \<and> length (rr_resources resp) = length names \<and> None \<notin> set (rr_resources resp)"
    and single: "resolve names = Ok resp \<Longrightarrow> i < length names \<Longrightarrow>
      \<exists>r. resolve [names ! i] = Ok r \<and> rr_resources r = [rr_resources resp ! i]"
    and total: "(\<And>nm. nm \<in> set names \<Longrightarrow> is_Ok (resolve [nm])) \<Longrightarrow> is_Ok (resolve names)"
    and versions: "resolve (xs @ ys) = Ok resp \<Longrightarrow> \<exists>r s. resolve xs = Ok r \<and> resolve ys = Ok s \<and>
      rr_versionHasher resp = rr_versionHasher r @ rr_versionHasher s"
begin

text \<open>A batch is answered when each of its names is, and it then agrees with the single answers.\<close>

lemma batch_iff: "is_Ok (resolve names) \<longleftrightarrow> (\<forall>nm \<in> set names. is_Ok (resolve [nm]))"
proof
  assume "is_Ok (resolve names)"
  then obtain resp where "resolve names = Ok resp" by (auto simp: is_Ok_iff)
  then show "\<forall>nm \<in> set names. is_Ok (resolve [nm])"
    by (metis in_set_conv_nth is_Ok_iff single)
qed (auto intro: total)

text \<open>A name asked twice is answered twice, with the same resource.\<close>

lemma same_name_same_resource:
  assumes "resolve names = Ok resp" and "i < length names" and "j < length names"
    and "names ! i = names ! j"
  shows "rr_resources resp ! i = rr_resources resp ! j"
  using single [OF assms(1,2)] single [OF assms(1,3)] assms(4) by auto

lemma answered: "resolve names = Ok resp \<Longrightarrow> i < length names \<Longrightarrow> \<exists>a. rr_resources resp ! i = Some a"
  using complete [of names resp] nth_mem [of i "rr_resources resp"]
  by (metis not_None_eq)

end

lemma answer_resolver: "resource_resolver (answer_loop one turl) turl"
proof
  show "rr_typeURL resp = turl \<and> length (rr_resources resp) = length names \<and> None \<notin> set (rr_resources resp)"
    if "answer_loop one turl names = Ok resp" for names resp
    using that by (auto simp: answer_loop_Ok response_of_def dest: traverse_Ok_length)
  show "\<exists>r. answer_loop one turl [names ! i] = Ok r \<and> rr_resources r = [rr_resources resp ! i]"
    if ans: "answer_loop one turl names = Ok resp" and i: "i < length names" for names resp i
  proof -
    obtain rs where rs: "traverse (\<lambda>_. one) 0 names = Ok rs" and resp: "resp = response_of turl rs"
      using ans by (auto simp: answer_loop_Ok)
    have "one (names ! i) = Ok (rs ! i)" using traverse_Ok_nth [OF rs i] by simp
    moreover have "i < length rs" using traverse_Ok_length [OF rs] i by simp
    ultimately show ?thesis by (auto simp: answer_loop_single response_of_def resp)
  qed
  show "is_Ok (answer_loop one turl names)"
    if "\<And>nm. nm \<in> set names \<Longrightarrow> is_Ok (answer_loop one turl [nm])" for names
  proof -
    have "is_Ok (one nm)" if "nm \<in> set names" for nm
      using \<open>\<And>nm. nm \<in> set names \<Longrightarrow> is_Ok (answer_loop one turl [nm])\<close> [OF that]
      by (auto simp: answer_loop_single is_Ok_iff go_simps)
    then have "is_Ok (traverse (\<lambda>_. one) 0 names)" by (auto intro: traverse_total)
    then show ?thesis by (auto simp: answer_loop_traverse is_Ok_iff)
  qed
  show "\<exists>r s. answer_loop one turl xs = Ok r \<and> answer_loop one turl ys = Ok s \<and>
      rr_versionHasher resp = rr_versionHasher r @ rr_versionHasher s"
    if "answer_loop one turl (xs @ ys) = Ok resp" for xs ys resp
    using that traverse_shift [of one "length xs" ys 0]
    by (auto simp: answer_loop_Ok traverse_append go_simps response_of_def)
qed

section \<open>Versions\<close>

lemma versionInfo_length: "length (versionInfo r) = 44"
  by (simp add: versionInfo_def base64_length)

end
