(* ===== verification/Interceptors.thy ===== *)
theory Interceptors
  imports Resolver
begin

text \<open>
  The interceptors of \<^verbatim>\<open>gtc/interceptor.go\<close>: an interceptor of the custom resource becomes an HTTP
  filter of the listener, or, on a route or a backend, an override of the filter's configuration.
  \<open>interceptor_ok\<close> says which interceptors the code accepts, independently of how it builds them.
\<close>

definition optPercent :: "xdslib \<Rightarrow> Fraction option \<Rightarrow> FractionalPercent option outcome" where
  "optPercent lib p =
     (case p of None \<Rightarrow> Ok None
      | Some f \<Rightarrow> and_then (makeFractionalPercent lib f) (\<lambda>q. Ok (Some q)))"

definition makeFaultDelay :: "xdslib \<Rightarrow> FaultDelay \<Rightarrow> FaultDelayMsg outcome" where
  "makeFaultDelay lib d =
     and_then
       (case fd_Fixed d of
          Some fixed \<Rightarrow> Ok (FixedDelay (durationpb_New lib fixed))
        | None \<Rightarrow>
            (case fd_Metadata d of
               Some _ \<Rightarrow> Ok HeaderDelay
             | None \<Rightarrow> Err (ErrorsNew ''malformed delay fault filter'')))
       (\<lambda>secifier. and_then (optPercent lib (fd_Percentage d))
         (\<lambda>pct. Ok \<lparr>fdm_FaultDelaySecifier = Some secifier, fdm_Percentage = pct\<rparr>))"

definition makeFaultAbort :: "xdslib \<Rightarrow> FaultAbort \<Rightarrow> FaultAbortMsg outcome" where
  "makeFaultAbort lib a =
     and_then
       (case fa_Code a of
          Some code \<Rightarrow> Ok (GrpcStatus code)
        | None \<Rightarrow>
            (case fa_Metadata a of
               Some _ \<Rightarrow> Ok HeaderAbort
             | None \<Rightarrow> Err (ErrorsNew ''malformed abort fault filter'')))
       (\<lambda>errType. and_then (optPercent lib (fa_Percentage a))
         (\<lambda>pct. Ok \<lparr>fam_ErrorType = Some errType, fam_Percentage = pct\<rparr>))"

definition makeFaultFilter :: "xdslib \<Rightarrow> FaultInterceptor \<Rightarrow> HTTPFault outcome" where
  "makeFaultFilter lib fault =
     and_then (case fi_Delay fault of None \<Rightarrow> Ok None
               | Some d \<Rightarrow> and_then (makeFaultDelay lib d) (\<lambda>m. Ok (Some m)))
       (\<lambda>delay.
         and_then (case fi_Abort fault of None \<Rightarrow> Ok None
                   | Some a \<Rightarrow> and_then (makeFaultAbort lib a) (\<lambda>m. Ok (Some m)))
           (\<lambda>abort.
             Ok \<lparr>hf_Delay = delay, hf_Abort = abort, hf_MaxActiveFaults = fi_MaxActiveFaults fault\<rparr>))"

definition makeFilter :: "xdslib \<Rightarrow> Interceptor \<Rightarrow> HttpFilter outcome" where
  "makeFilter lib interceptor =
     (case ic_Fault interceptor of
        Some fault \<Rightarrow>
          and_then (makeFaultFilter lib fault) (\<lambda>faultFilter.
            and_then (mustAny lib (PHTTPFault faultFilter)) (\<lambda>cfg.
              Ok \<lparr>flt_Name = wellknown_Fault lib, flt_TypedConfig = cfg\<rparr>))
      | None \<Rightarrow> Err (ErrorsNew ''malformed filter''))"

definition makeFilters :: "xdslib \<Rightarrow> Interceptor list \<Rightarrow> HttpFilter option list outcome" where
  "makeFilters lib interceptors =
     and_then (mustAny lib PRouter) (\<lambda>cfg.
       let routerFilter = \<lparr>flt_Name = wellknown_Router lib, flt_TypedConfig = cfg\<rparr> in
       if length interceptors = 0 then Ok [Some routerFilter]
       else
         and_then
           (for_range (fill_body (\<lambda>i interceptorSpec. makeFilter lib interceptorSpec)) 0 interceptors
             (replicate (length interceptors + 1) None))
           (\<lambda>hcmFilters. Ok (hcmFilters[length interceptors := Some routerFilter])))"

definition makeFilterOverride :: "xdslib \<Rightarrow> Interceptor \<Rightarrow> (string \<times> AnyMsg) outcome" where
  "makeFilterOverride lib interceptor =
     (case ic_Fault interceptor of
        Some fault \<Rightarrow>
          and_then (makeFaultFilter lib fault) (\<lambda>faultFilter.
            and_then (mustAny lib (PHTTPFault faultFilter)) (\<lambda>cfg. Ok (wellknown_Fault lib, cfg)))
      | None \<Rightarrow> Err (ErrorsNew ''malformed filter override''))"

definition makeFilterOverrides ::
    "xdslib \<Rightarrow> Interceptor list \<Rightarrow> (string \<Rightarrow> AnyMsg option) outcome" where
  "makeFilterOverrides lib interceptors =
     for_range
       (\<lambda>i spec overrides.
         and_then (makeFilterOverride lib spec) (\<lambda>(nm, cfg). Ok (overrides(nm \<mapsto> cfg))))
       0 interceptors Map.empty"

section \<open>Which interceptors are accepted\<close>

definition fraction_ok :: "xdslib \<Rightarrow> Fraction option \<Rightarrow> bool" where
  "fraction_ok lib p \<longleftrightarrow>
     (case p of None \<Rightarrow> True
      | Some f \<Rightarrow> DenominatorType_value lib (strings_ToUpper (fr_Denominator f)) \<noteq> None)"

definition fault_ok :: "xdslib \<Rightarrow> FaultInterceptor \<Rightarrow> bool" where
  "fault_ok lib f \<longleftrightarrow>
     (case fi_Delay f of None \<Rightarrow> True
      | Some d \<Rightarrow> (fd_Fixed d \<noteq> None \<or> fd_Metadata d \<noteq> None) \<and> fraction_ok lib (fd_Percentage d)) \<and>
     (case fi_Abort f of None \<Rightarrow> True
      | Some a \<Rightarrow> (fa_Code a \<noteq> None \<or> fa_Metadata a \<noteq> None) \<and> fraction_ok lib (fa_Percentage a))"

definition interceptor_ok :: "xdslib \<Rightarrow> Interceptor \<Rightarrow> bool" where
  "interceptor_ok lib i \<longleftrightarrow> (case ic_Fault i of None \<Rightarrow> False | Some f \<Rightarrow> fault_ok lib f)"

lemma optPercent_Ok: "is_Ok (optPercent lib p) \<longleftrightarrow> fraction_ok lib p"
  by (auto simp: optPercent_def fraction_ok_def makeFractionalPercent_def is_Ok_iff split: option.splits)

lemma optPercent_no_panic [simp]: "\<not> is_Panic (optPercent lib p)"
  by (auto simp: optPercent_def go_simps split: option.splits)

lemma makeFaultDelay_Ok:
  "is_Ok (makeFaultDelay lib d) \<longleftrightarrow>
     (fd_Fixed d \<noteq> None \<or> fd_Metadata d \<noteq> None) \<and> fraction_ok lib (fd_Percentage d)"
  by (auto simp: makeFaultDelay_def is_Ok_and_then1 optPercent_Ok split: option.splits)

lemma makeFaultAbort_Ok:
  "is_Ok (makeFaultAbort lib a) \<longleftrightarrow>
     (fa_Code a \<noteq> None \<or> fa_Metadata a \<noteq> None) \<and> fraction_ok lib (fa_Percentage a)"
  by (auto simp: makeFaultAbort_def is_Ok_and_then1 optPercent_Ok split: option.splits)

lemma makeFaultFilter_Ok: "is_Ok (makeFaultFilter lib f) \<longleftrightarrow> fault_ok lib f"
  by (auto simp: makeFaultFilter_def fault_ok_def is_Ok_and_then2 is_Ok_and_then1 makeFaultDelay_Ok
      makeFaultAbort_Ok split: option.splits)

lemma makeFaultFilter_no_panic [simp]: "\<not> is_Panic (makeFaultFilter lib f)"
  by (auto simp: makeFaultFilter_def makeFaultDelay_def makeFaultAbort_def go_simps split: option.splits)

text \<open>Serialization of the filter configurations, which the theorems on filters assume.\<close>

definition faults_encode :: "xdslib \<Rightarrow> bool" where
  "faults_encode lib \<longleftrightarrow> encodes lib PRouter \<and> (\<forall>f. encodes lib (PHTTPFault f))"

lemma sample_lib_faults: "faults_encode sample_lib"
  by (simp add: faults_encode_def sample_lib_encodes)

lemma mustAny_fault: "faults_encode lib \<Longrightarrow> is_Ok (mustAny lib (PHTTPFault m))"
  by (simp add: faults_encode_def encodes_anypb is_Ok_iff mustAny_Ok)

lemma mustAny_router: "faults_encode lib \<Longrightarrow> is_Ok (mustAny lib PRouter)"
  by (simp add: faults_encode_def encodes_anypb is_Ok_iff mustAny_Ok)

lemma makeFilter_Ok: "faults_encode lib \<Longrightarrow> is_Ok (makeFilter lib i) \<longleftrightarrow> interceptor_ok lib i"
  by (auto simp: makeFilter_def interceptor_ok_def is_Ok_and_then1 mustAny_fault makeFaultFilter_Ok
      split: option.splits)

lemma makeFilterOverride_Ok:
  "faults_encode lib \<Longrightarrow> is_Ok (makeFilterOverride lib i) \<longleftrightarrow> interceptor_ok lib i"
  by (auto simp: makeFilterOverride_def interceptor_ok_def is_Ok_and_then1 mustAny_fault
      makeFaultFilter_Ok split: option.splits)

section \<open>Filters\<close>

text \<open>The loop of \<^verbatim>\<open>makeFilters\<close> in one step: the filters in order, then the router.\<close>

lemma makeFilters_traverse:
  "makeFilters lib is =
     and_then (mustAny lib PRouter) (\<lambda>cfg.
       and_then (traverse (\<lambda>_. makeFilter lib) 0 is) (\<lambda>fs.
         Ok (map Some fs @ [Some \<lparr>flt_Name = wellknown_Router lib, flt_TypedConfig = cfg\<rparr>])))"
proof -
  have fill: "for_range (fill_body (\<lambda>i. makeFilter lib)) 0 is (None # replicate (length is) None) =
      and_then (traverse (\<lambda>_. makeFilter lib) 0 is) (\<lambda>fs. Ok (map Some fs @ [None]))"
    using for_range_fill0 [of "\<lambda>i. makeFilter lib" "is" "[None]"]
    by (simp add: replicate_append_same)
  have last: "(map Some fs @ [None])[length is := Some r] = map Some fs @ [Some r]"
    if "length fs = length is" for fs :: "HttpFilter list" and r
    using that by (metis length_map list_update_length)
  show ?thesis
    by (cases "is = []")
      (auto simp: makeFilters_def fill and_then_assoc Let_def last traverse_Ok_length intro!: and_then_cong)
qed

text \<open>
  Every override is stored under the name of the fault filter, so of several interceptors the last
  one counts.
\<close>

lemma makeFilterOverride_name:
  "makeFilterOverride lib i = Ok r \<Longrightarrow> fst r = wellknown_Fault lib"
  by (auto simp: makeFilterOverride_def go_simps split: option.splits)

lemma makeFilterOverrides_last:
  assumes "makeFilterOverrides lib is = Ok m"
  shows "if is = [] then m = Map.empty
    else \<exists>cfg. makeFilterOverride lib (last is) = Ok (wellknown_Fault lib, cfg) \<and>
      m = [wellknown_Fault lib \<mapsto> cfg]"
proof -
  let ?P = "\<lambda>k m. if k = 0 then m = Map.empty
    else \<exists>cfg. makeFilterOverride lib (is ! (k - 1)) = Ok (wellknown_Fault lib, cfg) \<and>
      m = [wellknown_Fault lib \<mapsto> cfg]"
  have "?P (0 + length is) m"
  proof (rule for_range_invariant [OF assms [unfolded makeFilterOverrides_def], where P = ?P])
    fix j s s'
    assume P: "?P j s"
      and body: "and_then (makeFilterOverride lib (is ! (j - 0))) (\<lambda>(nm, cfg). Ok (s(nm \<mapsto> cfg))) = Ok s'"
    from body obtain cfg where r: "makeFilterOverride lib (is ! j) = Ok (wellknown_Fault lib, cfg)"
      and "s' = s(wellknown_Fault lib \<mapsto> cfg)"
      using makeFilterOverride_name by (fastforce simp: go_simps)
    then show "?P (Suc j) s'" using P by (auto split: if_splits)
  qed simp
  then show ?thesis by (cases "is = []") (auto simp: last_conv_nth)
qed

section \<open>Properties\<close>

text \<open>C32:
  The HTTP filters of a listener are built exactly when every interceptor is well formed: a fault with,
  for each of delay and abort it has, a value or metadata source and a known denominator. The filters
  then are one fault filter per interceptor, in order, with the router filter last, which terminates
  the chain, and no filter is nil.
\<close>

theorem filters_are_faults_then_router:
  assumes "faults_encode lib"
  shows "(is_Ok (makeFilters lib is) \<longleftrightarrow> (\<forall>i \<in> set is. interceptor_ok lib i)) \<and>
    (\<forall>fs. makeFilters lib is = Ok fs \<longrightarrow> length fs = length is + 1 \<and>
      (\<forall>k < length is. \<exists>f. fs ! k = Some f \<and> flt_Name f = wellknown_Fault lib \<and> makeFilter lib (is ! k) = Ok f) \<and>
      (\<exists>f. fs ! length is = Some f \<and> flt_Name f = wellknown_Router lib))"
proof (intro conjI allI impI)
  obtain cfg where cfg: "mustAny lib PRouter = Ok cfg" using mustAny_router [OF assms] by (auto simp: is_Ok_iff)
  note eq = makeFilters_traverse [of lib "is", unfolded cfg and_then.simps(1)]
  show "is_Ok (makeFilters lib is) \<longleftrightarrow> (\<forall>i \<in> set is. interceptor_ok lib i)"
    unfolding eq by (subst is_Ok_and_then1) (auto simp: is_Ok_traverse makeFilter_Ok [OF assms] all_set_conv_all_nth)
  fix fs
  assume "makeFilters lib is = Ok fs"
  then obtain gs where gs: "traverse (\<lambda>_. makeFilter lib) 0 is = Ok gs"
    and fs: "fs = map Some gs @ [Some \<lparr>flt_Name = wellknown_Router lib, flt_TypedConfig = cfg\<rparr>]"
    unfolding eq by (auto simp: and_then_Ok)
  have len: "length gs = length is" using traverse_Ok_length [OF gs] .
  show "length fs = length is + 1" by (simp add: fs len)
  show "\<exists>f. fs ! k = Some f \<and> flt_Name f = wellknown_Fault lib \<and> makeFilter lib (is ! k) = Ok f"
    if k: "k < length is" for k
  proof -
    have ok: "makeFilter lib (is ! k) = Ok (gs ! k)" using traverse_Ok_nth [OF gs k] by simp
    then have "flt_Name (gs ! k) = wellknown_Fault lib"
      by (auto simp: makeFilter_def go_simps split: option.splits dest!: sym [of _ "gs ! k"])
    then show ?thesis using ok k len by (simp add: fs nth_append)
  qed
  show "\<exists>f. fs ! length is = Some f \<and> flt_Name f = wellknown_Router lib"
    by (simp add: fs nth_append len)
qed

theorem filters_are_faults_then_router_witness:
  "is_Ok (makeFilters sample_lib [\<lparr>ic_Fault = Some \<lparr>fi_Delay = None,
      fi_Abort = Some \<lparr>fa_Code = Some 14, fa_Metadata = None, fa_Percentage = None\<rparr>,
      fi_MaxActiveFaults = None, fi_Headers = []\<rparr>\<rparr>]) \<and>
   \<not> is_Ok (makeFilters sample_lib [\<lparr>ic_Fault = None\<rparr>])"
  using filters_are_faults_then_router [OF sample_lib_faults, THEN conjunct1]
  by (simp add: interceptor_ok_def fault_ok_def fraction_ok_def)

text \<open>
  Of several interceptors on a route or on a backend only the last one counts: every override is stored
  under the name of the fault filter, so the map has one entry at most, made from the last interceptor.
\<close>

lemma overrides_keep_the_last_interceptor:
  assumes "makeFilterOverrides lib is = Ok m"
  shows "m = (if is = [] then Map.empty else
    (case makeFilterOverride lib (last is) of Ok (nm, cfg) \<Rightarrow> [wellknown_Fault lib \<mapsto> cfg] | _ \<Rightarrow> Map.empty))"
  using makeFilterOverrides_last [OF assms] by (auto split: if_splits)

end
