(* ===== verification/Resource_Names.thy ===== *)
theory Resource_Names
  imports Go_Strings
begin

text \<open>
  The names of the xDS resources (\<^verbatim>\<open>gtc/resource.go\<close> and the name functions of
  \<^verbatim>\<open>gtc/listener.go\<close>). A listener is named \<^verbatim>\<open>namespace/name\<close>; a backend, which is both a cluster
  and its load assignment, \<^verbatim>\<open>namespace/name/route/i/backend/j\<close>. The client learns a backend's name
  from the route configuration and sends it back in its next request, and the change handlers
  rebuild it to address notifications, so that everything rests on parsing being the inverse of
  rendering; the locale \<open>resource_naming\<close> states that contract.
\<close>

definition routeConfigName :: "string \<Rightarrow> string \<Rightarrow> string" where
  "routeConfigName namespace nm = path_Join [namespace, nm, ''routeconfig'']"

definition vHostName :: "string \<Rightarrow> string \<Rightarrow> string" where
  "vHostName namespace nm = path_Join [namespace, nm, ''vhost'']"

definition backendName :: "string \<Rightarrow> string \<Rightarrow> int \<Rightarrow> int \<Rightarrow> string" where
  "backendName namespace nm routeID backendID =
     path_Join [namespace, nm, ''route'', Itoa routeID, ''backend'', Itoa backendID]"

record parsedBackendName =
  pb_Namespace :: string
  pb_ListenerName :: string
  pb_RouteID :: int
  pb_BackendID :: int

definition parsedBackendName_String :: "parsedBackendName \<Rightarrow> string" where
  "parsedBackendName_String p =
     backendName (pb_Namespace p) (pb_ListenerName p) (pb_RouteID p) (pb_BackendID p)"

definition parseBackendName :: "string \<Rightarrow> parsedBackendName outcome" where
  "parseBackendName resourceName =
     (let sp = strings_Split resourceName CHR ''/'' in
      if length sp \<noteq> 6 then Err (MalformedResourceName resourceName)
      else case Atoi (sp ! 3) of
        None \<Rightarrow> Err (MalformedResourceName resourceName)
      | Some routeID \<Rightarrow>
          (case Atoi (sp ! 5) of
             None \<Rightarrow> Err (MalformedResourceName resourceName)
           | Some backendID \<Rightarrow>
               Ok \<lparr>pb_Namespace = sp ! 0, pb_ListenerName = sp ! 1,
                   pb_RouteID = routeID, pb_BackendID = backendID\<rparr>))"

definition parseListenerName :: "string \<Rightarrow> (string \<times> string) outcome" where
  "parseListenerName resourceName =
     (let sp = strings_SplitN2 resourceName CHR ''/'' in
      if length sp \<noteq> 2 then Err (MalformedListenerResourceName resourceName)
      else Ok (sp ! 0, sp ! 1))"

definition listenerName :: "string \<Rightarrow> string \<Rightarrow> string" where
  "listenerName namespace nm = namespace @ ''/'' @ nm"

text \<open>
  The names the Kubernetes API server accepts for a namespace or an object (RFC 1123): lower case
  letters, digits, \<^verbatim>\<open>-\<close> and \<^verbatim>\<open>.\<close>, with a letter or digit at both ends.
\<close>

definition alnum_lower :: "char \<Rightarrow> bool" where
  "alnum_lower c \<longleftrightarrow> is_digit c \<or> ((97::nat) \<le> of_char c \<and> of_char c \<le> (122::nat))"

definition k8s_name :: "string \<Rightarrow> bool" where
  "k8s_name s \<longleftrightarrow>
     s \<noteq> [] \<and> alnum_lower (hd s) \<and> alnum_lower (last s) \<and>
     list_all (\<lambda>c. alnum_lower c \<or> c = CHR ''-'' \<or> c = CHR ''.'') s"

definition backend_key_ok :: "parsedBackendName \<Rightarrow> bool" where
  "backend_key_ok p \<longleftrightarrow>
     plain_elem (pb_Namespace p) \<and> plain_elem (pb_ListenerName p) \<and>
     go_int (pb_RouteID p) \<and> go_int (pb_BackendID p)"

section \<open>The contract of a naming scheme\<close>

locale resource_naming =
  fixes render :: "'k \<Rightarrow> string"
    and parse :: "string \<Rightarrow> 'k outcome"
    and ok :: "'k \<Rightarrow> bool"
  assumes parse_render: "ok k \<Longrightarrow> parse (render k) = Ok k"
begin

text \<open>Two keys never share a name, so a name addresses one resource.\<close>

lemma render_inj: "ok k \<Longrightarrow> ok k' \<Longrightarrow> render k = render k' \<longleftrightarrow> k = k'"
proof -
  assume "ok k" and "ok k'"
  then have "parse (render k) = Ok k" and "parse (render k') = Ok k'" by (auto intro: parse_render)
  then show ?thesis by (metis outcome.inject(1))
qed

text \<open>A text that parses to a key is that key's name, or no key's name at all.\<close>

lemma canonical_iff: "parse s = Ok k \<Longrightarrow> ok k \<Longrightarrow> render k = s \<longleftrightarrow> (\<exists>k'. ok k' \<and> s = render k')"
  by (metis outcome.inject(1) parse_render)

end

section \<open>The two schemes keep it\<close>

lemma alnum_lower_not_sep: "alnum_lower c \<Longrightarrow> c \<noteq> CHR ''/'' \<and> c \<noteq> CHR ''.''"
  by (auto simp: alnum_lower_def dest: is_digit_not)

lemma k8s_name_plain: "k8s_name s \<Longrightarrow> plain_elem s"
proof -
  assume "k8s_name s"
  then have "CHR ''/'' \<notin> set s" and "hd s \<noteq> CHR ''.''" and "s \<noteq> []"
    by (auto simp: k8s_name_def list_all_iff dest: alnum_lower_not_sep)
  then show ?thesis by (auto simp: plain_elem_def)
qed

lemma backend_elems_plain:
  assumes "plain_elem ns" and "plain_elem nm"
  shows "\<forall>e \<in> set [ns, nm, ''route'', Itoa r, ''backend'', Itoa b]. plain_elem e"
  using assms Itoa_plain [of r] Itoa_plain [of b] by (simp add: plain_elem_def)

lemma backendName_Split:
  assumes "plain_elem ns" and "plain_elem nm"
  shows "strings_Split (backendName ns nm r b) CHR ''/'' =
    [ns, nm, ''route'', Itoa r, ''backend'', Itoa b]"
proof -
  note plain = backend_elems_plain [OF assms, of r b]
  then have "backendName ns nm r b =
      strings_Join [ns, nm, ''route'', Itoa r, ''backend'', Itoa b] ''/''"
    unfolding backendName_def by (intro path_Join_plain) auto
  moreover have "CHR ''/'' \<notin> set w"
    if "w \<in> set [ns, nm, ''route'', Itoa r, ''backend'', Itoa b]" for w
    using bspec [OF plain that] by (simp add: plain_elem_def)
  ultimately show ?thesis using strings_Split_Join by (metis list.discI)
qed

lemma parse_backendName:
  "backend_key_ok p \<Longrightarrow> parseBackendName (parsedBackendName_String p) = Ok p"
  by (simp add: backend_key_ok_def parsedBackendName_String_def parseBackendName_def
      backendName_Split Atoi_Itoa)

lemma parse_listenerName:
  "CHR ''/'' \<notin> set ns \<Longrightarrow> parseListenerName (listenerName ns nm) = Ok (ns, nm)"
  by (simp add: parseListenerName_def listenerName_def strings_SplitN2_append)

interpretation backend_names:
  resource_naming parsedBackendName_String parseBackendName backend_key_ok
  by unfold_locales (rule parse_backendName)

interpretation listener_names:
  resource_naming "\<lambda>(ns, nm). listenerName ns nm" parseListenerName "\<lambda>(ns, nm). CHR ''/'' \<notin> set ns"
  by unfold_locales (auto simp: parse_listenerName)

lemma parseBackendName_no_panic [simp]: "\<not> is_Panic (parseBackendName s)"
  by (auto simp: parseBackendName_def Let_def split: option.splits)

lemma parseListenerName_no_panic [simp]: "\<not> is_Panic (parseListenerName s)"
  by (auto simp: parseListenerName_def Let_def)

text \<open>What a parsed name says about the text: six elements, two of them numbers.\<close>

lemma parseBackendName_Ok:
  assumes "parseBackendName s = Ok p"
  obtains r b where "strings_Split s CHR ''/'' =
      [pb_Namespace p, pb_ListenerName p, strings_Split s CHR ''/'' ! 2, r,
       strings_Split s CHR ''/'' ! 4, b]"
    and "Atoi r = Some (pb_RouteID p)" and "Atoi b = Some (pb_BackendID p)"
proof -
  let ?sp = "strings_Split s CHR ''/''"
  have len: "length ?sp = 6" and r: "Atoi (?sp ! 3) = Some (pb_RouteID p)"
    and b: "Atoi (?sp ! 5) = Some (pb_BackendID p)"
    and ns: "pb_Namespace p = ?sp ! 0" and nm: "pb_ListenerName p = ?sp ! 1"
    using assms by (auto simp: parseBackendName_def Let_def split: option.splits if_splits)
  have "?sp = [?sp ! 0, ?sp ! 1, ?sp ! 2, ?sp ! 3, ?sp ! 4, ?sp ! 5]"
    by (rule nth_equalityI) (auto simp: len less_Suc_eq numeral_eq_Suc)
  then show thesis using that r b ns nm by metis
qed

lemma parseBackendName_key_ok:
  assumes "parseBackendName s = Ok p"
  shows "go_int (pb_RouteID p) \<and> go_int (pb_BackendID p) \<and>
    CHR ''/'' \<notin> set (pb_Namespace p) \<and> CHR ''/'' \<notin> set (pb_ListenerName p)"
proof -
  obtain r b where sp: "strings_Split s CHR ''/'' =
      [pb_Namespace p, pb_ListenerName p, strings_Split s CHR ''/'' ! 2, r,
       strings_Split s CHR ''/'' ! 4, b]"
    and "Atoi r = Some (pb_RouteID p)" "Atoi b = Some (pb_BackendID p)"
    using parseBackendName_Ok [OF assms] by metis
  then have "pb_Namespace p \<in> set (strings_Split s CHR ''/'')"
    and "pb_ListenerName p \<in> set (strings_Split s CHR ''/'')"
    by (metis list.set_intros)+
  then show ?thesis
    using Atoi_go_int \<open>Atoi r = _\<close> \<open>Atoi b = _\<close> strings_Split_elem_no_sep by blast
qed

section \<open>Properties\<close>

text \<open>C28:
  The name of a backend is parsed back to the reference it was rendered from: for every namespace and
  listener name the Kubernetes API accepts and every pair of indices a Go \<^verbatim>\<open>int\<close> holds,
  \<^verbatim>\<open>parseBackendName\<close> inverts \<^verbatim>\<open>backendName\<close>; so two backends never share a name. The same holds of
  listener names.
\<close>

theorem resource_names_round_trip:
  assumes "k8s_name ns" and "k8s_name nm" and "go_int r" and "go_int b"
  shows "parseBackendName (backendName ns nm r b) =
      Ok \<lparr>pb_Namespace = ns, pb_ListenerName = nm, pb_RouteID = r, pb_BackendID = b\<rparr> \<and>
    (\<forall>ns' nm' r' b'. k8s_name ns' \<and> k8s_name nm' \<and> go_int r' \<and> go_int b' \<longrightarrow>
      backendName ns' nm' r' b' = backendName ns nm r b \<longrightarrow> ns' = ns \<and> nm' = nm \<and> r' = r \<and> b' = b) \<and>
    parseListenerName (listenerName ns nm) = Ok (ns, nm)"
proof -
  have parse: "parseBackendName (backendName ns nm r b) =
      Ok \<lparr>pb_Namespace = ns, pb_ListenerName = nm, pb_RouteID = r, pb_BackendID = b\<rparr>"
    if "k8s_name ns" "k8s_name nm" "go_int r" "go_int b" for ns nm r b
    using that backend_names.parse_render
      [of "\<lparr>pb_Namespace = ns, pb_ListenerName = nm, pb_RouteID = r, pb_BackendID = b\<rparr>"]
    by (simp add: backend_key_ok_def k8s_name_plain parsedBackendName_String_def)
  have "ns' = ns \<and> nm' = nm \<and> r' = r \<and> b' = b"
    if "k8s_name ns' \<and> k8s_name nm' \<and> go_int r' \<and> go_int b'"
      and "backendName ns' nm' r' b' = backendName ns nm r b" for ns' nm' r' b'
    using parse [OF assms] parse [of ns' nm' r' b'] that by simp
  moreover have "CHR ''/'' \<notin> set ns" using k8s_name_plain [OF assms(1)] by (simp add: plain_elem_def)
  ultimately show ?thesis using parse [OF assms] parse_listenerName by blast
qed

theorem resource_names_round_trip_witness:
  "parseBackendName (backendName ''default'' ''test-xds'' 0 1) =
     Ok \<lparr>pb_Namespace = ''default'', pb_ListenerName = ''test-xds'', pb_RouteID = 0, pb_BackendID = 1\<rparr>"
proof -
  have "k8s_name ''default''" and "k8s_name ''test-xds''" and "go_int 0" and "go_int 1"
    by (simp_all add: k8s_name_def alnum_lower_def is_digit_def go_int_def)
  from resource_names_round_trip [OF this] show ?thesis by blast
qed

text \<open>
  The parser accepts names that no backend is rendered to: the third and fifth element are not
  compared with \<^verbatim>\<open>route\<close> and \<^verbatim>\<open>backend\<close>, and the indices may carry a sign and leading zeros. A client that
  asks for such a name is answered, but subscribes to a name that no notification uses.
\<close>

lemma parser_accepts_other_spellings:
  "parseBackendName ''default/test-xds/foo/+0/bar/00'' =
     parseBackendName (backendName ''default'' ''test-xds'' 0 0) \<and>
   parseBackendName ''default/test-xds/foo/+0/bar/00'' =
     Ok \<lparr>pb_Namespace = ''default'', pb_ListenerName = ''test-xds'', pb_RouteID = 0, pb_BackendID = 0\<rparr> \<and>
   backendName ''default'' ''test-xds'' 0 0 \<noteq> ''default/test-xds/foo/+0/bar/00''"
proof -
  let ?odd = "[''default'', ''test-xds'', ''foo'', ''+0'', ''bar'', ''00'']"
  have "strings_Split (strings_Join ?odd ''/'') CHR ''/'' = ?odd"
    by (rule strings_Split_Join) auto
  moreover have "strings_Join ?odd ''/'' = ''default/test-xds/foo/+0/bar/00''" by simp
  ultimately have split: "strings_Split ''default/test-xds/foo/+0/bar/00'' CHR ''/'' = ?odd"
    by (simp only:)
  have "Atoi ''+0'' = Some 0" and "Atoi ''00'' = Some 0"
    by (simp_all add: Atoi_def atoi_sign_def decimal_val_def is_digit_def digit_val_def)
  then have odd: "parseBackendName ''default/test-xds/foo/+0/bar/00'' =
      Ok \<lparr>pb_Namespace = ''default'', pb_ListenerName = ''test-xds'', pb_RouteID = 0, pb_BackendID = 0\<rparr>"
    unfolding parseBackendName_def split by simp
  have plain: "plain_elem ''default''" "plain_elem ''test-xds''" by (simp_all add: plain_elem_def)
  have ne: "backendName ''default'' ''test-xds'' 0 0 \<noteq> ''default/test-xds/foo/+0/bar/00''"
  proof
    assume "backendName ''default'' ''test-xds'' 0 0 = ''default/test-xds/foo/+0/bar/00''"
    from backendName_Split [OF plain, of 0 0, unfolded this split] show False by simp
  qed
  have "parseBackendName (backendName ''default'' ''test-xds'' 0 0) =
      Ok \<lparr>pb_Namespace = ''default'', pb_ListenerName = ''test-xds'', pb_RouteID = 0, pb_BackendID = 0\<rparr>"
    using parse_backendName [of "\<lparr>pb_Namespace = ''default'', pb_ListenerName = ''test-xds'',
        pb_RouteID = 0, pb_BackendID = 0\<rparr>"] plain
    by (simp add: backend_key_ok_def go_int_def parsedBackendName_String_def)
  then show ?thesis unfolding odd using ne by simp
qed

end
