(* ===== verification/Routes.thy ===== *)
theory Routes
  imports Interceptors Resource_Names
begin

text \<open>
  The route configuration of \<^verbatim>\<open>gtc/route.go\<close>: matchers, weighted clusters, retry and hash policies.
  \<open>path_matches\<close> gives the path specifiers the meaning the Envoy documentation gives them, so that
  the matchers can be compared with what the custom resource documents.
\<close>

definition matchAll :: RouteMatchMsg where
  "matchAll = \<lparr>rmm_PathSpecifier = PathPrefix ''/'', rmm_RuntimeFraction = None, rmm_Headers = []\<rparr>"

definition makeRegexMatcher :: "RegexMatcher \<Rightarrow> string outcome" where
  "makeRegexMatcher spec =
     (if rx_Engine spec \<noteq> ''re2'' then Err (ErrorsNew ''unsupported engine'')
      else if rx_Regex spec = [] then Err (ErrorsNew ''blank regex'')
      else Ok (rx_Regex spec))"

definition metadata_specifier :: "MetadataMatcher \<Rightarrow> HeaderMatchSpecifier outcome" where
  "metadata_specifier spec =
     (case mm_Exact spec of Some exact \<Rightarrow> Ok (ExactMatch exact) | None \<Rightarrow>
      case mm_Regex spec of
        Some regex \<Rightarrow> and_then (makeRegexMatcher regex) (\<lambda>r. Ok (SafeRegexMatch r)) | None \<Rightarrow>
      case mm_Range spec of Some rng \<Rightarrow> Ok (RangeMatch (rg_Start rng) (rg_End rng)) | None \<Rightarrow>
      case mm_Present spec of Some present \<Rightarrow> Ok (PresentMatch present) | None \<Rightarrow>
      case mm_Prefix spec of Some prefix \<Rightarrow> Ok (PrefixMatch prefix) | None \<Rightarrow>
      case mm_Suffix spec of Some suffix \<Rightarrow> Ok (SuffixMatch suffix) | None \<Rightarrow>
      Err (ErrorsNew ''invalid header matcher''))"

definition makeMetadataMatcher :: "MetadataMatcher \<Rightarrow> HeaderMatcherMsg outcome" where
  "makeMetadataMatcher spec =
     and_then (metadata_specifier spec) (\<lambda>specifier.
       Ok \<lparr>hmm_Name = mm_Name spec, hmm_InvertMatch = mm_Invert spec,
           hmm_HeaderMatchSpecifier = Some specifier\<rparr>)"

definition path_specifier :: "RouteMatcher \<Rightarrow> PathSpecifier" where
  "path_specifier m =
     (case rm_Method m of Some mm \<Rightarrow> PathExact (MethodMatcher_Path mm) | None \<Rightarrow>
      case rm_Service m of Some sm \<Rightarrow> PathPrefix (ServiceMatcher_Prefix sm) | None \<Rightarrow>
      case rm_Namespace m of Some ns \<Rightarrow> PathPrefix (''/'' @ ns) | None \<Rightarrow>
      rmm_PathSpecifier matchAll)"

definition makeRouteMatch :: "xdslib \<Rightarrow> Route \<Rightarrow> RouteMatchMsg outcome" where
  "makeRouteMatch lib spec =
     (case rt_Matcher spec of
        None \<Rightarrow> Ok matchAll
      | Some m \<Rightarrow>
          and_then (optPercent lib (rm_Fraction m)) (\<lambda>fraction.
            and_then
              (for_range (fill_body (\<lambda>i. makeMetadataMatcher)) 0 (rm_Metadata m)
                (replicate (length (rm_Metadata m)) None))
              (\<lambda>headers.
                Ok \<lparr>rmm_PathSpecifier = path_specifier m, rmm_RuntimeFraction = fraction,
                    rmm_Headers = headers\<rparr>)))"

definition makeWeightedClusters :: "xdslib \<Rightarrow> string \<Rightarrow> string \<Rightarrow> nat \<Rightarrow> Route \<Rightarrow> WeightedCluster outcome" where
  "makeWeightedClusters lib namespace nm routeID routeSpec =
     and_then
       (for_range
         (\<lambda>backendID backend (totalWeight, weighedClusters).
           and_then (makeFilterOverrides lib (bk_Interceptors backend)) (\<lambda>filterOverrides.
             Ok (totalWeight + bk_Weight backend,
                 weighedClusters[backendID := Some
                   \<lparr>cw_Name = backendName namespace nm (int routeID) (int backendID),
                    cw_Weight = bk_Weight backend, cw_TypedPerFilterConfig = filterOverrides\<rparr>])))
         0 (rt_Backends routeSpec) (0, replicate (length (rt_Backends routeSpec)) None))
       (\<lambda>(totalWeight, weighedClusters).
         Ok \<lparr>wc_TotalWeight = totalWeight, wc_Clusters = weighedClusters\<rparr>)"

definition makeRetryPolicy :: "xdslib \<Rightarrow> RetryPolicy \<Rightarrow> RetryPolicyMsg" where
  "makeRetryPolicy lib spec =
     \<lparr>rpm_RetryOn = strings_Join (rp_RetryOn spec) '','',
      rpm_NumRetries = (case rp_NumRetries spec of Some n \<Rightarrow> n | None \<Rightarrow> 1),
      rpm_RetryBackOff =
        (case rp_Backoff spec of None \<Rightarrow> None
         | Some b \<Rightarrow> Some \<lparr>rbm_BaseInterval = durationpb_New lib (rb_BaseInterval b),
                           rbm_MaxInterval = (case rb_MaxInterval b of None \<Rightarrow> None
                             | Some d \<Rightarrow> Some (durationpb_New lib d))\<rparr>)\<rparr>"

definition makeHashPolicy1 :: "HashPolicy \<Rightarrow> HashPolicyMsg outcome" where
  "makeHashPolicy1 policy =
     (if hp_Metadata policy \<noteq> [] then
        Ok \<lparr>hpm_PolicySpecifier = HashHeader (hp_Metadata policy), hpm_Terminal = hp_Terminal policy\<rparr>
      else if hp_Channel policy = Some True then
        Ok \<lparr>hpm_PolicySpecifier = HashFilterState ''io.grpc.channel_id'', hpm_Terminal = hp_Terminal policy\<rparr>
      else Err (ErrorsNew ''malformed hash policy''))"

definition makeHashPolicy :: "HashPolicy list \<Rightarrow> HashPolicyMsg option list outcome" where
  "makeHashPolicy policies =
     (if length policies = 0 then Ok []
      else for_range (fill_body (\<lambda>i. makeHashPolicy1)) 0 policies (replicate (length policies) None))"

definition makeRoute :: "xdslib \<Rightarrow> GRPCListener \<Rightarrow> nat \<Rightarrow> Route \<Rightarrow> RouteMsg outcome" where
  "makeRoute lib listener routeID routeSpec =
     and_then (makeRouteMatch lib routeSpec) (\<lambda>mtch.
     and_then (makeFilterOverrides lib (rt_Interceptors routeSpec)) (\<lambda>filterOverrides.
     and_then (makeWeightedClusters lib (lis_Namespace listener) (lis_Name listener) routeID routeSpec)
       (\<lambda>weighedClusters.
     and_then (makeHashPolicy (rt_HashPolicy routeSpec)) (\<lambda>hashPolicy.
       Ok \<lparr>rtm_Match = mtch, rtm_TypedPerFilterConfig = filterOverrides, rtm_HashPolicy = hashPolicy,
           rtm_RetryPolicy = map_option (makeRetryPolicy lib) (rt_Retry routeSpec),
           rtm_MaxStreamDuration = makeDuration lib (rt_MaxStreamDuration routeSpec),
           rtm_GrpcTimeoutHeaderMax = makeDuration lib (rt_GrpcTimeoutHeaderMax routeSpec),
           rtm_WeightedClusters = weighedClusters\<rparr>))))"

definition makeRouteConfig :: "xdslib \<Rightarrow> string \<Rightarrow> GRPCListener \<Rightarrow> RouteConfiguration outcome" where
  "makeRouteConfig lib listenerNm listener =
     and_then
       (for_range (fill_body (makeRoute lib listener)) 0 (lis_Routes listener)
         (replicate (length (lis_Routes listener)) None))
       (\<lambda>routes.
         Ok \<lparr>rc_Name = routeConfigName (lis_Namespace listener) (lis_Name listener),
             rc_ValidateClusters = True,
             rc_VirtualHosts =
               [\<lparr>vh_Name = vHostName (lis_Namespace listener) (lis_Name listener),
                 vh_Domains = [listenerNm], vh_Routes = routes,
                 vh_RetryPolicy = map_option (makeRetryPolicy lib) (ls_Retry (gl_Spec listener))\<rparr>]\<rparr>)"

text \<open>The path specifiers as Envoy documents them.\<close>

definition path_matches :: "PathSpecifier \<Rightarrow> string \<Rightarrow> bool" where
  "path_matches ps path =
     (case ps of PathPrefix p \<Rightarrow> take (length p) path = p | PathExact p \<Rightarrow> path = p)"

text \<open>The path of a gRPC call to a method of a service in a protobuf package.\<close>

definition grpc_path :: "string \<Rightarrow> string \<Rightarrow> string \<Rightarrow> string" where
  "grpc_path pkg svc meth = ''/'' @ pkg @ ''.'' @ svc @ ''/'' @ meth"

section \<open>Weighted clusters\<close>

lemma weighted_loop:
  "for_range
     (\<lambda>backendID backend (totalWeight, weighedClusters).
       and_then (makeFilterOverrides lib (bk_Interceptors backend)) (\<lambda>filterOverrides.
         Ok (totalWeight + bk_Weight backend, weighedClusters[backendID := Some (mk backendID backend filterOverrides)])))
     (length pre) bs (w, map Some pre @ replicate (length bs) None) =
   and_then (traverse (\<lambda>j b. and_then (makeFilterOverrides lib (bk_Interceptors b)) (\<lambda>ov. Ok (mk j b ov))) (length pre) bs)
     (\<lambda>cs. Ok (w + sum_list (map bk_Weight bs), map Some pre @ map Some cs))"
proof (induction bs arbitrary: pre w)
  case Nil
  then show ?case by simp
next
  case (Cons b bs)
  have upd: "(map Some pre @ None # replicate (length bs) None)[length pre := Some c] =
      map Some (pre @ [c]) @ replicate (length bs) None" for c
    by (simp add: list_update_append)
  show ?case
  proof (cases "makeFilterOverrides lib (bk_Interceptors b)")
    case (Ok ov)
    show ?thesis
      using Cons.IH [of "pre @ [mk (length pre) b ov]" "w + bk_Weight b"]
      by (simp add: Ok upd and_then_assoc add.assoc)
  qed simp_all
qed

lemma makeWeightedClusters_traverse:
  "makeWeightedClusters lib ns nm i r =
     and_then (traverse (\<lambda>j b. and_then (makeFilterOverrides lib (bk_Interceptors b)) (\<lambda>ov.
         Ok \<lparr>cw_Name = backendName ns nm (int i) (int j), cw_Weight = bk_Weight b,
             cw_TypedPerFilterConfig = ov\<rparr>)) 0 (rt_Backends r))
       (\<lambda>cs. Ok \<lparr>wc_TotalWeight = sum_list (map bk_Weight (rt_Backends r)), wc_Clusters = map Some cs\<rparr>)"
  using weighted_loop [where pre = "[]" and w = 0 and bs = "rt_Backends r" and lib = lib and
      mk = "\<lambda>j b ov. \<lparr>cw_Name = backendName ns nm (int i) (int j), cw_Weight = bk_Weight b,
             cw_TypedPerFilterConfig = ov\<rparr>"]
  by (simp add: makeWeightedClusters_def and_then_assoc)

lemma unat_sum_list:
  "unat (sum_list (ws :: 'w::len word list)) = (\<Sum>w\<leftarrow>ws. unat w) mod 2 ^ LENGTH('w)"
  by (induction ws) (simp_all add: unat_word_ariths mod_simps)

lemma makeWeightedClusters_Ok:
  assumes "makeWeightedClusters lib ns nm i r = Ok wc"
  shows "unat (wc_TotalWeight wc) = (\<Sum>b\<leftarrow>rt_Backends r. unat (bk_Weight b)) mod 2 ^ 32"
    and "length (wc_Clusters wc) = length (rt_Backends r)"
    and "j < length (rt_Backends r) \<Longrightarrow> \<exists>c. wc_Clusters wc ! j = Some c \<and>
      cw_Name c = backendName ns nm (int i) (int j) \<and> cw_Weight c = bk_Weight (rt_Backends r ! j)"
proof -
  obtain cs where cs: "traverse (\<lambda>j b. and_then (makeFilterOverrides lib (bk_Interceptors b)) (\<lambda>ov.
         Ok \<lparr>cw_Name = backendName ns nm (int i) (int j), cw_Weight = bk_Weight b,
             cw_TypedPerFilterConfig = ov\<rparr>)) 0 (rt_Backends r) = Ok cs"
    and wc: "wc = \<lparr>wc_TotalWeight = sum_list (map bk_Weight (rt_Backends r)), wc_Clusters = map Some cs\<rparr>"
    using assms by (auto simp: makeWeightedClusters_traverse go_simps)
  show "unat (wc_TotalWeight wc) = (\<Sum>b\<leftarrow>rt_Backends r. unat (bk_Weight b)) mod 2 ^ 32"
    by (simp add: wc unat_sum_list o_def)
  show "length (wc_Clusters wc) = length (rt_Backends r)"
    by (simp add: wc traverse_Ok_length [OF cs])
  show "\<exists>c. wc_Clusters wc ! j = Some c \<and> cw_Name c = backendName ns nm (int i) (int j) \<and>
      cw_Weight c = bk_Weight (rt_Backends r ! j)" if "j < length (rt_Backends r)"
    using traverse_Ok_nth [OF cs that] traverse_Ok_length [OF cs] that
    by (auto simp: wc go_simps dest!: sym [of _ "cs ! j"])
qed

section \<open>Route configurations\<close>

lemma makeHashPolicy_traverse:
  "makeHashPolicy ps = and_then (traverse (\<lambda>_. makeHashPolicy1) 0 ps) (\<lambda>hs. Ok (map Some hs))"
  by (simp add: makeHashPolicy_def for_range_fill_all)

lemma makeRouteMatch_traverse:
  "makeRouteMatch lib spec =
     (case rt_Matcher spec of None \<Rightarrow> Ok matchAll
      | Some m \<Rightarrow> and_then (optPercent lib (rm_Fraction m)) (\<lambda>fraction.
          and_then (traverse (\<lambda>_. makeMetadataMatcher) 0 (rm_Metadata m)) (\<lambda>hs.
            Ok \<lparr>rmm_PathSpecifier = path_specifier m, rmm_RuntimeFraction = fraction,
                rmm_Headers = map Some hs\<rparr>)))"
  by (simp add: makeRouteMatch_def for_range_fill_all and_then_assoc split: option.splits)

lemma makeRouteConfig_traverse:
  "makeRouteConfig lib nm lis =
     and_then (traverse (makeRoute lib lis) 0 (lis_Routes lis)) (\<lambda>rs.
       Ok \<lparr>rc_Name = routeConfigName (lis_Namespace lis) (lis_Name lis), rc_ValidateClusters = True,
           rc_VirtualHosts = [\<lparr>vh_Name = vHostName (lis_Namespace lis) (lis_Name lis),
             vh_Domains = [nm], vh_Routes = map Some rs,
             vh_RetryPolicy = map_option (makeRetryPolicy lib) (ls_Retry (gl_Spec lis))\<rparr>]\<rparr>)"
  by (simp add: makeRouteConfig_def for_range_fill_all and_then_assoc)

text \<open>The cluster at index \<open>j\<close> of the route at index \<open>i\<close> of a configuration.\<close>

definition cluster_at :: "RouteConfiguration \<Rightarrow> nat \<Rightarrow> nat \<Rightarrow> ClusterWeight option" where
  "cluster_at rc i j =
     (case rc_VirtualHosts rc of
        [vh] \<Rightarrow> if i < length (vh_Routes vh) then
            (case vh_Routes vh ! i of None \<Rightarrow> None
             | Some r \<Rightarrow> if j < length (wc_Clusters (rtm_WeightedClusters r))
                         then wc_Clusters (rtm_WeightedClusters r) ! j else None)
          else None
      | _ \<Rightarrow> None)"

lemma makeRouteConfig_cluster_at:
  assumes "makeRouteConfig lib nm lis = Ok rc" and i: "i < length (lis_Routes lis)"
    and j: "j < length (rt_Backends (lis_Routes lis ! i))"
  shows "\<exists>c. cluster_at rc i j = Some c \<and>
    cw_Name c = backendName (lis_Namespace lis) (lis_Name lis) (int i) (int j) \<and>
    cw_Weight c = bk_Weight (rt_Backends (lis_Routes lis ! i) ! j)"
proof -
  obtain rs where rs: "traverse (makeRoute lib lis) 0 (lis_Routes lis) = Ok rs"
    and rc: "rc_VirtualHosts rc = [\<lparr>vh_Name = vHostName (lis_Namespace lis) (lis_Name lis),
             vh_Domains = [nm], vh_Routes = map Some rs,
             vh_RetryPolicy = map_option (makeRetryPolicy lib) (ls_Retry (gl_Spec lis))\<rparr>]"
    using assms(1) by (auto simp: makeRouteConfig_traverse go_simps)
  have "makeRoute lib lis i (lis_Routes lis ! i) = Ok (rs ! i)"
    using traverse_Ok_nth [OF rs i] by simp
  then have "makeWeightedClusters lib (lis_Namespace lis) (lis_Name lis) i (lis_Routes lis ! i) =
      Ok (rtm_WeightedClusters (rs ! i))"
    by (auto simp: makeRoute_def go_simps dest!: sym [of _ "rs ! i"])
  from makeWeightedClusters_Ok(2,3) [OF this] show ?thesis
    using i j traverse_Ok_length [OF rs] by (simp add: cluster_at_def rc)
qed

section \<open>Panics\<close>

lemma makeRegexMatcher_no_panic [simp]: "\<not> is_Panic (makeRegexMatcher s)"
  by (simp add: makeRegexMatcher_def)

lemma makeMetadataMatcher_no_panic [simp]: "\<not> is_Panic (makeMetadataMatcher s)"
  by (auto simp: makeMetadataMatcher_def metadata_specifier_def go_simps split: option.splits)

lemma makeHashPolicy1_no_panic [simp]: "\<not> is_Panic (makeHashPolicy1 p)"
  by (simp add: makeHashPolicy1_def)

lemma makeHashPolicy_no_panic [simp]: "\<not> is_Panic (makeHashPolicy ps)"
  by (simp add: makeHashPolicy_traverse go_simps traverse_no_panic)

lemma makeRouteMatch_no_panic [simp]: "\<not> is_Panic (makeRouteMatch lib r)"
  by (auto simp: makeRouteMatch_traverse go_simps traverse_no_panic split: option.splits)

lemma makeFilterOverrides_no_panic:
  assumes "faults_encode lib"
  shows "\<not> is_Panic (makeFilterOverrides lib is)"
proof -
  have "\<exists>a. anypb_New lib (PHTTPFault m) = Inr a" for m
    using assms by (simp add: faults_encode_def encodes_anypb)
  then show ?thesis
    unfolding makeFilterOverrides_def
    by (intro for_range_no_panic)
      (auto simp: makeFilterOverride_def go_simps case_prod_beta split: option.splits)
qed

lemma makeRouteConfig_no_panic:
  assumes "faults_encode lib"
  shows "\<not> is_Panic (makeRouteConfig lib nm lis)"
proof -
  have "\<not> is_Panic (makeWeightedClusters lib ns nm i r)" for ns nm i r
    by (auto simp: makeWeightedClusters_traverse go_simps makeFilterOverrides_no_panic [OF assms]
        intro!: traverse_no_panic)
  then have "\<not> is_Panic (makeRoute lib lis i r)" for i r
    by (simp add: makeRoute_def go_simps makeFilterOverrides_no_panic [OF assms])
  then show ?thesis by (simp add: makeRouteConfig_traverse go_simps traverse_no_panic)
qed

section \<open>Properties\<close>

text \<open>C33:
  The weighted clusters of a route list its backends in order, each under the name of its position and
  with its own weight; the total is the sum of the weights modulo 2 to the 32, so it is the true sum
  exactly when the sum fits a \<^verbatim>\<open>uint32\<close>.
\<close>

theorem weighted_clusters_follow_backends:
  assumes "makeWeightedClusters lib ns nm i r = Ok wc"
  shows "length (wc_Clusters wc) = length (rt_Backends r) \<and>
    (\<forall>j < length (rt_Backends r). \<exists>c. wc_Clusters wc ! j = Some c \<and>
       cw_Name c = backendName ns nm (int i) (int j) \<and> cw_Weight c = bk_Weight (rt_Backends r ! j)) \<and>
    unat (wc_TotalWeight wc) = (\<Sum>b\<leftarrow>rt_Backends r. unat (bk_Weight b)) mod 2 ^ 32 \<and>
    (unat (wc_TotalWeight wc) = (\<Sum>b\<leftarrow>rt_Backends r. unat (bk_Weight b)) \<longleftrightarrow>
      (\<Sum>b\<leftarrow>rt_Backends r. unat (bk_Weight b)) < 2 ^ 32)"
proof -
  have "(S mod 2 ^ 32 = S) = (S < 2 ^ 32)" for S :: nat by (metis mod_less mod_less_divisor zero_less_numeral zero_less_power)
  then show ?thesis using makeWeightedClusters_Ok [OF assms] by simp
qed

theorem weighted_clusters_follow_backends_witness:
  "\<exists>wc. makeWeightedClusters sample_lib ''default'' ''test-xds'' 0 sample_route = Ok wc \<and>
     length (wc_Clusters wc) = 1"
proof -
  obtain wc where wc: "makeWeightedClusters sample_lib ''default'' ''test-xds'' 0 sample_route = Ok wc"
    by (simp add: makeWeightedClusters_def makeFilterOverrides_def go_defs)
  from weighted_clusters_follow_backends [OF wc] wc show ?thesis by (auto simp: sample_route_def)
qed

text \<open>
  A method matcher selects exactly the calls of its method: for a namespace and a service without a
  slash and a method that is a plain name, the path specifier matches a path if and only if it is the
  path of the gRPC call \<^verbatim>\<open>/namespace.service/method\<close>.
\<close>

lemma method_matcher_is_exact:
  assumes "rm_Method m = Some mm" and "CHR ''/'' \<notin> set (me_Namespace mm)" and "CHR ''/'' \<notin> set (me_Service mm)"
    and "me_Service mm \<noteq> []" and "hd (me_Service mm) \<noteq> CHR ''.''" and "plain_elem (me_Method mm)"
  shows "path_matches (path_specifier m) path \<longleftrightarrow>
    path = grpc_path (me_Namespace mm) (me_Service mm) (me_Method mm)"
  using MethodMatcher_Path_grpc [OF assms(2-6)]
  by (simp add: path_specifier_def assms(1) path_matches_def grpc_path_def)

text \<open>
  A service matcher, documented to match a specific service, is a prefix without a final separator: it
  matches every method of its service, and also those of every service whose name extends it.
\<close>

lemma service_matcher_matches_longer_services:
  assumes "rm_Method m = None" and "rm_Service m = Some sm"
  shows "path_matches (path_specifier m) (grpc_path (sm_Namespace sm) (sm_Service sm @ suffix) meth)"
  using assms by (simp add: path_specifier_def path_matches_def grpc_path_def ServiceMatcher_Prefix_def)

end
