(* ===== verification/Listers.thy ===== *)
theory Listers
  imports Xds_Types Resource_Names
begin

text \<open>
  The generated lister of \<^verbatim>\<open>client/listers/gtc/v1alpha1/grpclistener.go\<close>, through which the resolvers
  and the change handlers read the cached \<^verbatim>\<open>GRPCListener\<close> objects. The cache itself (\<^verbatim>\<open>cache.Indexer\<close>)
  is client-go code; \<open>caches ix ls\<close> says that it behaves as documented with content \<open>ls\<close>: objects
  are found by the key \<^verbatim>\<open>namespace/name\<close>, listing returns all of them (in some order), and keys are
  unique. The locale \<open>listener_lookup\<close> is what the resolvers rely on.
\<close>

type_synonym listener_cache = "GRPCListener Indexer"

definition GRPCListenerLister_List :: "listener_cache \<Rightarrow> Selector \<Rightarrow> GRPCListener list outcome" where
  "GRPCListenerLister_List ix selector = of_lib (ListAll ix selector)"

definition GRPCListenerNamespaceLister_List ::
    "listener_cache \<Rightarrow> string \<Rightarrow> Selector \<Rightarrow> GRPCListener list outcome" where
  "GRPCListenerNamespaceLister_List ix namespace selector =
     of_lib (ListAllByNamespace ix namespace selector)"

definition GRPCListenerNamespaceLister_Get ::
    "listener_cache \<Rightarrow> string \<Rightarrow> string \<Rightarrow> GRPCListener outcome" where
  "GRPCListenerNamespaceLister_Get ix namespace nm =
     and_then (of_lib (GetByKey ix (namespace @ ''/'' @ nm)))
       (\<lambda>obj. case obj of None \<Rightarrow> Err (NotFound ''grpclistener'' nm) | Some lis \<Rightarrow> Ok lis)"

text \<open>The documented behaviour of the cache.\<close>

definition meta_key :: "GRPCListener \<Rightarrow> string" where
  "meta_key lis = lis_Namespace lis @ ''/'' @ lis_Name lis"

definition k8s_listener :: "GRPCListener \<Rightarrow> bool" where
  "k8s_listener lis \<longleftrightarrow> k8s_name (lis_Namespace lis) \<and> k8s_name (lis_Name lis)"

definition caches :: "listener_cache \<Rightarrow> GRPCListener list \<Rightarrow> bool" where
  "caches ix ls \<longleftrightarrow>
     (\<forall>k. GetByKey ix k = Inr (find (\<lambda>l. meta_key l = k) ls)) \<and>
     ListAll ix Everything = Inr ls \<and>
     (\<forall>ns. ListAllByNamespace ix ns Everything = Inr (filter (\<lambda>l. lis_Namespace l = ns) ls)) \<and>
     distinct (map meta_key ls) \<and> (\<forall>l \<in> set ls. k8s_listener l)"

text \<open>
  A cache with a given content, and the content an informer stores when the API server delivers
  the objects \<open>ls\<close> one after the other: a later object replaces an earlier one with its key.
\<close>

definition cache_of :: "GRPCListener list \<Rightarrow> listener_cache" where
  "cache_of ls =
     \<lparr>GetByKey = (\<lambda>k. Inr (find (\<lambda>l. meta_key l = k) ls)),
      ListAll = (\<lambda>sel. Inr ls),
      ListAllByNamespace = (\<lambda>ns sel. Inr (filter (\<lambda>l. lis_Namespace l = ns) ls))\<rparr>"

definition store_object :: "GRPCListener \<Rightarrow> GRPCListener list \<Rightarrow> GRPCListener list" where
  "store_object l acc = l # filter (\<lambda>x. meta_key x \<noteq> meta_key l) acc"

definition stored :: "GRPCListener list \<Rightarrow> GRPCListener list" where
  "stored ls = fold store_object (filter k8s_listener ls) []"

lemma cache_of_caches:
  "distinct (map meta_key ls) \<Longrightarrow> (\<forall>l \<in> set ls. k8s_listener l) \<Longrightarrow> caches (cache_of ls) ls"
  by (simp add: caches_def cache_of_def)

lemma fold_store_object:
  assumes "distinct (map meta_key acc)" and "\<forall>l \<in> set acc. k8s_listener l"
    and "\<forall>l \<in> set ls. k8s_listener l"
  shows "distinct (map meta_key (fold store_object ls acc)) \<and>
    (\<forall>l \<in> set (fold store_object ls acc). k8s_listener l)"
  using assms
proof (induction ls arbitrary: acc)
  case Nil
  then show ?case by simp
next
  case (Cons l ls)
  have "distinct (map meta_key (store_object l acc))"
    using Cons.prems(1) by (auto simp: store_object_def distinct_map inj_on_def)
  moreover have "\<forall>x \<in> set (store_object l acc). k8s_listener x"
    using Cons.prems(2,3) by (simp add: store_object_def)
  ultimately show ?case using Cons.IH [of "store_object l acc"] Cons.prems(3) by simp
qed

lemma stored_caches: "caches (cache_of (stored ls)) (stored ls)"
proof (rule cache_of_caches)
  have "distinct (map meta_key (stored ls)) \<and> (\<forall>l \<in> set (stored ls). k8s_listener l)"
    unfolding stored_def by (rule fold_store_object) auto
  then show "distinct (map meta_key (stored ls))" and "\<forall>l \<in> set (stored ls). k8s_listener l"
    by blast+
qed

lemma sample_listener_k8s: "k8s_listener sample_listener"
  by (simp add: k8s_listener_def k8s_name_def sample_listener_def alnum_lower_def is_digit_def)

lemma sample_cache: "caches (cache_of [sample_listener]) [sample_listener]"
  by (rule cache_of_caches) (simp_all add: sample_listener_k8s)

section \<open>Looking a listener up\<close>

lemma find_by_key:
  assumes "distinct (map f ls)" and "l \<in> set ls"
  shows "find (\<lambda>x. f x = f l) ls = Some l"
  using assms by (induction ls) (auto simp: image_iff)

lemma meta_key_inj:
  assumes "CHR ''/'' \<notin> set ns" and "CHR ''/'' \<notin> set (lis_Namespace lis)"
  shows "meta_key lis = ns @ ''/'' @ nm \<longleftrightarrow> lis_Namespace lis = ns \<and> lis_Name lis = nm"
  using assms listener_names.render_inj [of "(lis_Namespace lis, lis_Name lis)" "(ns, nm)"]
  by (simp add: meta_key_def listenerName_def)

lemma k8s_name_no_slash: "k8s_name s \<Longrightarrow> CHR ''/'' \<notin> set s"
  using k8s_name_plain by (auto simp: plain_elem_def)

locale listener_lookup =
  fixes get :: "string \<Rightarrow> string \<Rightarrow> GRPCListener outcome"
    and content :: "GRPCListener list"
  assumes get_stored: "lis \<in> set content \<Longrightarrow> get (lis_Namespace lis) (lis_Name lis) = Ok lis"
    and get_Ok: "get ns nm = Ok lis \<Longrightarrow> CHR ''/'' \<notin> set ns \<Longrightarrow>
      lis \<in> set content \<and> lis_Namespace lis = ns \<and> lis_Name lis = nm"
    and get_missing: "CHR ''/'' \<notin> set ns \<Longrightarrow>
      \<not> (\<exists>lis \<in> set content. lis_Namespace lis = ns \<and> lis_Name lis = nm) \<Longrightarrow>
      get ns nm = Err (NotFound ''grpclistener'' nm)"
begin

lemma get_iff:
  assumes "CHR ''/'' \<notin> set ns"
  shows "get ns nm = Ok lis \<longleftrightarrow> lis \<in> set content \<and> lis_Namespace lis = ns \<and> lis_Name lis = nm"
  using get_Ok [OF _ assms, of nm lis] get_stored [of lis] by auto

lemma get_unique:
  assumes "lis \<in> set content" and "lis' \<in> set content"
    and "lis_Namespace lis = lis_Namespace lis'" and "lis_Name lis = lis_Name lis'"
  shows "lis = lis'"
  by (metis assms get_stored outcome.inject(1))

end

text \<open>The lister over a documented cache provides the lookup.\<close>

lemma lister_lookup:
  assumes "caches ix ls"
  shows "listener_lookup (GRPCListenerNamespaceLister_Get ix) ls"
proof
  have get: "GetByKey ix k = Inr (find (\<lambda>l. meta_key l = k) ls)" for k
    using assms by (simp add: caches_def)
  have dist: "distinct (map meta_key ls)" and names: "\<forall>l \<in> set ls. k8s_listener l"
    using assms by (simp_all add: caches_def)
  have ns_ok: "CHR ''/'' \<notin> set (lis_Namespace l)" if "l \<in> set ls" for l
    using names that by (auto simp: k8s_listener_def dest: k8s_name_no_slash)
  show "GRPCListenerNamespaceLister_Get ix (lis_Namespace lis) (lis_Name lis) = Ok lis"
    if "lis \<in> set ls" for lis
    using find_by_key [OF dist that]
    by (simp add: GRPCListenerNamespaceLister_Get_def get meta_key_def [of lis])
  show "lis \<in> set ls \<and> lis_Namespace lis = ns \<and> lis_Name lis = nm"
    if "GRPCListenerNamespaceLister_Get ix ns nm = Ok lis" and "CHR ''/'' \<notin> set ns" for ns nm lis
  proof -
    have "find (\<lambda>l. meta_key l = ns @ ''/'' @ nm) ls = Some lis"
      using that(1) by (auto simp: GRPCListenerNamespaceLister_Get_def get split: option.splits)
    then have "lis \<in> set ls" and "meta_key lis = ns @ ''/'' @ nm"
      by (auto simp: find_Some_iff)
    then show ?thesis using meta_key_inj [OF that(2) ns_ok] by blast
  qed
  show "GRPCListenerNamespaceLister_Get ix ns nm = Err (NotFound ''grpclistener'' nm)"
    if "CHR ''/'' \<notin> set ns"
      and "\<not> (\<exists>lis \<in> set ls. lis_Namespace lis = ns \<and> lis_Name lis = nm)" for ns nm
  proof -
    have "find (\<lambda>l. meta_key l = ns @ ''/'' @ nm) ls = None"
      using that meta_key_inj [OF that(1) ns_ok] by (auto simp: find_None_iff)
    then show ?thesis by (simp add: GRPCListenerNamespaceLister_Get_def get)
  qed
qed

interpretation stored_lookup:
  listener_lookup "GRPCListenerNamespaceLister_Get (cache_of (stored ls))" "stored ls" for ls
  by (rule lister_lookup [OF stored_caches])

lemma GRPCListenerNamespaceLister_Get_no_panic [simp]:
  "\<not> is_Panic (GRPCListenerNamespaceLister_Get ix ns nm)"
  by (auto simp: GRPCListenerNamespaceLister_Get_def go_simps split: option.splits)

end
