(* ===== verification/Listeners.thy ===== *)
theory Listeners
  imports Routes Listers
begin

text \<open>
  The listener handler of \<^verbatim>\<open>gtc/listener.go\<close>: an API listener that carries the HTTP connection
  manager with its filters and the whole route configuration inline.
\<close>

definition makeListener ::
    "xdslib \<Rightarrow> listener_cache \<Rightarrow> string \<Rightarrow> (ListenerMsg \<times> string) outcome" where
  "makeListener lib ix resourceName =
     and_then (parseListenerName resourceName) (\<lambda>(namespace, nm).
     and_then (GRPCListenerNamespaceLister_Get ix namespace nm) (\<lambda>listener.
     and_then (makeFilters lib (ls_Interceptors (gl_Spec listener))) (\<lambda>filters.
     and_then (makeRouteConfig lib resourceName listener) (\<lambda>routeConfig.
     and_then (mustAny lib (PHttpConnectionManager
         \<lparr>hcm_MaxStreamDuration = makeDuration lib (ls_MaxStreamDuration (gl_Spec listener)),
          hcm_RouteConfig = routeConfig, hcm_HttpFilters = filters\<rparr>)) (\<lambda>httpConnManager.
       Ok (\<lparr>lm_Name = resourceName, lm_ApiListener = httpConnManager\<rparr>, lis_ResourceVersion listener))))))"

definition listenerHandler_resolveResource ::
    "xdslib \<Rightarrow> listener_cache \<Rightarrow> resolveRequest \<Rightarrow> resolveResponse outcome" where
  "listenerHandler_resolveResource lib ix req =
     for_range
       (\<lambda>i resourceName response.
         and_then (makeListener lib ix resourceName) (\<lambda>(resource, version).
         and_then (encodeResource lib (rq_typeUrl req) (PListener resource)) (\<lambda>a.
           useResourceVersion version
             (response\<lparr>rr_resources := (rr_resources response)[i := Some a]\<rparr>))))
       0 (rq_resourceNames req)
       (newResolveResponse (ListenerType lib) (length (rq_resourceNames req)))"

definition malformedListenerResourceNameError_Error :: "string \<Rightarrow> string" where
  "malformedListenerResourceNameError_Error m = ''could not parse listener resource name '' @ m"

section \<open>The handler as an answer loop\<close>

definition listener_answer :: "xdslib \<Rightarrow> listener_cache \<Rightarrow> string \<Rightarrow> string \<Rightarrow> answer outcome" where
  "listener_answer lib ix url nm =
     and_then (makeListener lib ix nm) (\<lambda>(resource, version).
     and_then (encodeResource lib url (PListener resource)) (\<lambda>a. Ok (a, [version])))"

lemma listenerHandler_answer_loop:
  "listenerHandler_resolveResource lib ix req =
     answer_loop (listener_answer lib ix (rq_typeUrl req)) (ListenerType lib) (rq_resourceNames req)"
proof -
  have "(\<lambda>i nm resp. and_then (makeListener lib ix nm) (\<lambda>(resource, version).
      and_then (encodeResource lib (rq_typeUrl req) (PListener resource)) (\<lambda>a.
        useResourceVersion version (resp\<lparr>rr_resources := (rr_resources resp)[i := Some a]\<rparr>)))) =
      answer_body (listener_answer lib ix (rq_typeUrl req))"
  proof (intro ext)
    fix i nm resp
    show "and_then (makeListener lib ix nm) (\<lambda>(resource, version).
      and_then (encodeResource lib (rq_typeUrl req) (PListener resource)) (\<lambda>a.
        useResourceVersion version (resp\<lparr>rr_resources := (rr_resources resp)[i := Some a]\<rparr>))) =
      answer_body (listener_answer lib ix (rq_typeUrl req)) i nm resp"
      by (cases "makeListener lib ix nm")
        (auto simp: answer_body_def listener_answer_def and_then_assoc useResourceVersion_def)
  qed
  then show ?thesis by (simp add: listenerHandler_resolveResource_def answer_loop_def)
qed

interpretation listener_resolver:
  resource_resolver
    "\<lambda>names. listenerHandler_resolveResource lib ix
       \<lparr>rq_resourceNames = names, rq_typeUrl = url, rq_nodeInfo = node\<rparr>"
    "ListenerType lib" for lib ix url node
  using answer_resolver [of "listener_answer lib ix url" "ListenerType lib"]
  by (simp add: listenerHandler_answer_loop)

section \<open>Panics\<close>

text \<open>
  The configurations of the filters have no string of the listener in them and serialize. The
  connection manager has, and \<^verbatim>\<open>mustAny\<close> panics when it does not serialize: nothing else makes the
  listener handler panic, whatever the name a client sends and whatever the listener it names
  contains.
\<close>

lemma makeFilters_no_panic: "faults_encode lib \<Longrightarrow> \<not> is_Panic (makeFilters lib is)"
proof -
  assume enc: "faults_encode lib"
  then have "\<exists>a. anypb_New lib (PHTTPFault m) = Inr a" "\<exists>a. anypb_New lib PRouter = Inr a" for m
    by (simp_all add: faults_encode_def encodes_anypb)
  then have "\<not> is_Panic (makeFilter lib i)" for i
    by (auto simp: makeFilter_def go_simps split: option.splits)
  then show ?thesis
    using \<open>\<exists>a. anypb_New lib PRouter = Inr a\<close>
    by (auto simp: makeFilters_traverse go_simps traverse_no_panic)
qed

definition unencodable_listener :: "xdslib \<Rightarrow> listener_cache \<Rightarrow> string \<Rightarrow> go_error \<Rightarrow> bool" where
  "unencodable_listener lib ix nm err \<longleftrightarrow>
     (\<exists>key lis filters rc. parseListenerName nm = Ok key \<and> GRPCListenerNamespaceLister_Get ix (fst key) (snd key) = Ok lis \<and>
        makeFilters lib (ls_Interceptors (gl_Spec lis)) = Ok filters \<and> makeRouteConfig lib nm lis = Ok rc \<and>
        anypb_New lib (PHttpConnectionManager
          \<lparr>hcm_MaxStreamDuration = makeDuration lib (ls_MaxStreamDuration (gl_Spec lis)),
           hcm_RouteConfig = rc, hcm_HttpFilters = filters\<rparr>) = Inl err)"

lemma makeListener_panics:
  assumes "faults_encode lib"
  shows "makeListener lib ix nm = Panic p \<longleftrightarrow> (\<exists>err. p = PanicWith err \<and> unencodable_listener lib ix nm err)"
proof -
  have "makeFilters lib is \<noteq> Panic p" "makeRouteConfig lib nm lis \<noteq> Panic p" for "is" lis p
    using makeFilters_no_panic [OF assms, of "is"] makeRouteConfig_no_panic [OF assms, of nm lis] by auto
  moreover have "parseListenerName nm \<noteq> Panic p" "GRPCListenerNamespaceLister_Get ix a b \<noteq> Panic p" for a b p
    by (auto simp: parseListenerName_def GRPCListenerNamespaceLister_Get_def Let_def and_then_Panic
        split: option.splits) (cases "GetByKey ix (a @ CHR ''/'' # b)"; simp)+
  moreover have "mustAny lib m = Panic p \<longleftrightarrow> (\<exists>err. p = PanicWith err \<and> anypb_New lib m = Inl err)" for m p
    by (auto simp: mustAny_def split: sum.splits)
  ultimately show ?thesis
    by (auto simp: makeListener_def unencodable_listener_def and_then_Panic split_beta)
qed

lemma listener_answer_panics:
  assumes "faults_encode lib"
  shows "listener_answer lib ix url nm = Panic p \<longleftrightarrow> (\<exists>err. p = PanicWith err \<and> unencodable_listener lib ix nm err)"
proof -
  have "encodeResource lib url m \<noteq> Panic p" for m by (cases "proto_Marshal lib m") (simp_all add: encodeResource_def)
  then show ?thesis by (auto simp: listener_answer_def and_then_Panic split_beta makeListener_panics [OF assms])
qed

end
