(* ===== verification/Clusters.thy ===== *)
theory Clusters
  imports Resolver Resource_Names Listers
begin

text \<open>
  The cluster handler of \<^verbatim>\<open>gtc/cluster.go\<close>: a cluster name is parsed, its listener looked up, its
  backend found by position, and the backend turned into an EDS cluster.
\<close>

definition makeLBPolicy :: "string \<Rightarrow> LbPolicy" where
  "makeLBPolicy p =
     (let l = strings_ToLower p in
      if l = ''ringhash'' \<or> l = ''ring_hash'' then RING_HASH else ROUND_ROBIN)"

definition makeCluster :: "string \<Rightarrow> Backend \<Rightarrow> ClusterMsg" where
  "makeCluster clusterName spec =
     \<lparr>cm_Name = clusterName,
      cm_LbPolicy = makeLBPolicy (bk_LBPolicy spec),
      cm_ClusterDiscoveryType = EDS,
      cm_EdsClusterConfig = \<lparr>ecc_EdsConfig = Ads, ecc_ServiceName = clusterName\<rparr>,
      cm_MaxRequests = (case bk_MaxRequests spec of None \<Rightarrow> [] | Some n \<Rightarrow> [n]),
      cm_RingHashLbConfig =
        (case bk_RingHashConfig spec of None \<Rightarrow> None
         | Some c \<Rightarrow> Some \<lparr>rhl_MinimumRingSize = rh_MinRingSize c, rhl_MaximumRingSize = rh_MaxRingSize c,
                           rhl_HashFunction = XX_HASH\<rparr>)\<rparr>"

definition findBackendSpec :: "parsedBackendName \<Rightarrow> GRPCListener \<Rightarrow> Backend outcome" where
  "findBackendSpec backendRef listener =
     (if pb_RouteID backendRef > int (length (lis_Routes listener)) - 1 then
        Err (RouteNotFound (pb_RouteID backendRef) (lis_Namespace listener) (lis_Name listener))
      else and_then (index (lis_Routes listener) (pb_RouteID backendRef)) (\<lambda>route.
        if pb_BackendID backendRef > int (length (rt_Backends route)) - 1 then
          Err (BackendNotFound (pb_RouteID backendRef) (pb_BackendID backendRef)
                 (lis_Namespace listener) (lis_Name listener))
        else index (rt_Backends route) (pb_BackendID backendRef)))"

definition clusterHandler_resolveResource ::
    "xdslib \<Rightarrow> listener_cache \<Rightarrow> resolveRequest \<Rightarrow> resolveResponse outcome" where
  "clusterHandler_resolveResource lib ix req =
     for_range
       (\<lambda>i resourceName response.
         and_then (parseBackendName resourceName) (\<lambda>backendRef.
         and_then (GRPCListenerNamespaceLister_Get ix (pb_Namespace backendRef) (pb_ListenerName backendRef))
           (\<lambda>listener.
         and_then (findBackendSpec backendRef listener) (\<lambda>backend.
         and_then (encodeResource lib (rq_typeUrl req) (PCluster (makeCluster resourceName backend)))
           (\<lambda>a. useResourceVersion (lis_ResourceVersion listener)
                  (response\<lparr>rr_resources := (rr_resources response)[i := Some a]\<rparr>))))))
       0 (rq_resourceNames req)
       (newResolveResponse (ClusterType lib) (length (rq_resourceNames req)))"

text \<open>The texts of the two lookup errors.\<close>

definition routeNotFoundError_Error :: "int \<Rightarrow> string \<Rightarrow> string \<Rightarrow> string" where
  "routeNotFoundError_Error wantRouteID namespace nm =
     ''route '' @ Itoa wantRouteID @ '' does not exist on GRPCListener '' @ namespace @ ''/'' @ nm"

definition backendNotFoundError_Error :: "int \<Rightarrow> int \<Rightarrow> string \<Rightarrow> string \<Rightarrow> string" where
  "backendNotFoundError_Error routeID wantBackendID namespace nm =
     ''backend with ID '' @ Itoa wantBackendID @ '' does not exist under the route '' @ Itoa routeID
       @ '' of the GRPCListener '' @ namespace @ ''/'' @ nm"

section \<open>The handler as an answer loop\<close>

definition cluster_answer :: "xdslib \<Rightarrow> listener_cache \<Rightarrow> string \<Rightarrow> string \<Rightarrow> answer outcome" where
  "cluster_answer lib ix url nm =
     and_then (parseBackendName nm) (\<lambda>ref.
     and_then (GRPCListenerNamespaceLister_Get ix (pb_Namespace ref) (pb_ListenerName ref)) (\<lambda>lis.
     and_then (findBackendSpec ref lis) (\<lambda>backend.
     and_then (encodeResource lib url (PCluster (makeCluster nm backend))) (\<lambda>a.
       Ok (a, [lis_ResourceVersion lis])))))"

lemma clusterHandler_answer_loop:
  "clusterHandler_resolveResource lib ix req =
     answer_loop (cluster_answer lib ix (rq_typeUrl req)) (ClusterType lib) (rq_resourceNames req)"
proof -
  have "(\<lambda>i nm resp. and_then (parseBackendName nm) (\<lambda>ref.
      and_then (GRPCListenerNamespaceLister_Get ix (pb_Namespace ref) (pb_ListenerName ref)) (\<lambda>lis.
      and_then (findBackendSpec ref lis) (\<lambda>backend.
      and_then (encodeResource lib (rq_typeUrl req) (PCluster (makeCluster nm backend)))
        (\<lambda>a. useResourceVersion (lis_ResourceVersion lis)
               (resp\<lparr>rr_resources := (rr_resources resp)[i := Some a]\<rparr>)))))) =
      answer_body (cluster_answer lib ix (rq_typeUrl req))"
    by (intro ext) (simp add: answer_body_def cluster_answer_def and_then_assoc useResourceVersion_def)
  then show ?thesis by (simp add: clusterHandler_resolveResource_def answer_loop_def)
qed

interpretation cluster_resolver:
  resource_resolver
    "\<lambda>names. clusterHandler_resolveResource lib ix
       \<lparr>rq_resourceNames = names, rq_typeUrl = url, rq_nodeInfo = node\<rparr>"
    "ClusterType lib" for lib ix url node
  using answer_resolver [of "cluster_answer lib ix url" "ClusterType lib"]
  by (simp add: clusterHandler_answer_loop)

section \<open>Finding a backend\<close>

lemma findBackendSpec_Ok [go_simps]:
  "findBackendSpec ref lis = Ok b \<longleftrightarrow>
     0 \<le> pb_RouteID ref \<and> pb_RouteID ref < int (length (lis_Routes lis)) \<and>
     0 \<le> pb_BackendID ref \<and>
     pb_BackendID ref < int (length (rt_Backends (lis_Routes lis ! nat (pb_RouteID ref)))) \<and>
     b = rt_Backends (lis_Routes lis ! nat (pb_RouteID ref)) ! nat (pb_BackendID ref)"
  by (auto simp: findBackendSpec_def go_simps)

lemma findBackendSpec_panics [go_simps]:
  "is_Panic (findBackendSpec ref lis) \<longleftrightarrow>
     pb_RouteID ref < 0 \<or>
     pb_RouteID ref < int (length (lis_Routes lis)) \<and> pb_BackendID ref < 0"
  by (auto simp: findBackendSpec_def go_simps index_def)

text \<open>A backend of a listener and its reference.\<close>

definition backend_ref :: "GRPCListener \<Rightarrow> nat \<Rightarrow> nat \<Rightarrow> parsedBackendName" where
  "backend_ref lis i j =
     \<lparr>pb_Namespace = lis_Namespace lis, pb_ListenerName = lis_Name lis,
      pb_RouteID = int i, pb_BackendID = int j\<rparr>"

definition small_listener :: "GRPCListener \<Rightarrow> bool" where
  "small_listener lis \<longleftrightarrow>
     length (lis_Routes lis) < 2 ^ 63 \<and> (\<forall>r \<in> set (lis_Routes lis). length (rt_Backends r) < 2 ^ 63)"

lemma backend_ref_key_ok:
  assumes "k8s_listener lis" and "small_listener lis"
    and "i < length (lis_Routes lis)" and "j < length (rt_Backends (lis_Routes lis ! i))"
  shows "backend_key_ok (backend_ref lis i j)"
proof -
  have "length (rt_Backends (lis_Routes lis ! i)) < 2 ^ 63" and "length (lis_Routes lis) < 2 ^ 63"
    using assms(2,3) by (auto simp: small_listener_def)
  then have "int i < 2 ^ 63" and "int j < 2 ^ 63" using assms(3,4) by auto
  then show ?thesis
    using assms(1) by (auto simp: backend_key_ok_def backend_ref_def k8s_listener_def k8s_name_plain go_int_def)
qed

lemma cluster_answer_found:
  assumes "caches ix ls" and "lis \<in> set ls" and "small_listener lis"
    and i: "i < length (lis_Routes lis)" and j: "j < length (rt_Backends (lis_Routes lis ! i))"
  shows "cluster_answer lib ix url (parsedBackendName_String (backend_ref lis i j)) =
    and_then (encodeResource lib url (PCluster (makeCluster (parsedBackendName_String (backend_ref lis i j))
        (rt_Backends (lis_Routes lis ! i) ! j))))
      (\<lambda>a. Ok (a, [lis_ResourceVersion lis]))"
proof -
  have "k8s_listener lis" using assms(1,2) by (simp add: caches_def)
  then have parse: "parseBackendName (parsedBackendName_String (backend_ref lis i j)) = Ok (backend_ref lis i j)"
    using backend_names.parse_render backend_ref_key_ok assms(3) i j by blast
  have get: "GRPCListenerNamespaceLister_Get ix (lis_Namespace lis) (lis_Name lis) = Ok lis"
    using listener_lookup.get_stored [OF lister_lookup [OF assms(1)] assms(2)] .
  have "findBackendSpec (backend_ref lis i j) lis = Ok (rt_Backends (lis_Routes lis ! i) ! j)"
    using i j by (simp add: findBackendSpec_Ok backend_ref_def)
  then show ?thesis
    by (simp add: cluster_answer_def parse get backend_ref_def [of lis i j, THEN arg_cong, of pb_Namespace]
        backend_ref_def [of lis i j, THEN arg_cong, of pb_ListenerName])
qed

end
