(* ===== verification/Endpoints.thy ===== *)
theory Endpoints
  imports Clusters "HOL-Library.Multiset"
begin

text \<open>
  The endpoint handler of \<^verbatim>\<open>gtc/endpoint.go\<close>: a backend name is resolved to a load assignment, built
  from the endpoint slices of the backend's service, or of the service of each of its localities.
  For a single service the ready endpoints are split in two groups, those hinted for the client's
  zone and the others; \<open>zone_split\<close> specifies the outcome of the grouping loops, and
  \<open>makeServiceEndpoints_refines\<close> shows that the loops compute it.
\<close>

definition derefBool :: "bool option \<Rightarrow> bool" where
  "derefBool v = (case v of None \<Rightarrow> False | Some b \<Rightarrow> b)"

primrec containsZone :: "string list \<Rightarrow> string \<Rightarrow> bool" where
  "containsZone [] currZone = False"
| "containsZone (z # zones) currZone =
     (if strings_EqualFold z currZone then True else containsZone zones currZone)"

text \<open>
  The port of a slice that a service reference selects. The \<^verbatim>\<open>uint32, bool\<close> pair the code returns is
  an option; the conversion of the \<^verbatim>\<open>int32\<close> port to \<^verbatim>\<open>uint32\<close> keeps its bits.
\<close>

primrec portByName :: "string \<Rightarrow> EndpointPort list \<Rightarrow> uint32 option" where
  "portByName nm [] = None"
| "portByName nm (p # epPorts) =
     (case (ept_Name p, ept_Port p) of
        (Some n, Some port) \<Rightarrow> if n = nm then Some port else portByName nm epPorts
      | _ \<Rightarrow> portByName nm epPorts)"

primrec portByNumber :: "int32 \<Rightarrow> EndpointPort list \<Rightarrow> uint32 option" where
  "portByNumber number [] = None"
| "portByNumber number (p # epPorts) =
     (case (ept_Name p, ept_Port p) of
        (Some n, Some port) \<Rightarrow> if port = number then Some port else portByNumber number epPorts
      | _ \<Rightarrow> portByNumber number epPorts)"

definition lookupK8sPort :: "PortRef \<Rightarrow> EndpointPort list \<Rightarrow> uint32 option" where
  "lookupK8sPort k8sSvc epPorts =
     (if pr_Name k8sSvc \<noteq> [] then portByName (pr_Name k8sSvc) epPorts
      else portByNumber (pr_Number k8sSvc) epPorts)"

definition makeLbEndpoint :: "Endpoint \<Rightarrow> string \<Rightarrow> uint32 \<Rightarrow> LbEndpoint" where
  "makeLbEndpoint ep addr port = \<lparr>lbe_Protocol = TCP, lbe_Address = addr, lbe_PortValue = port\<rparr>"

definition makeLbEndpoints :: "Endpoint \<Rightarrow> uint32 \<Rightarrow> LbEndpoint list" where
  "makeLbEndpoints ep port = fold (\<lambda>addr eps. eps @ [makeLbEndpoint ep addr port]) (ep_Addresses ep) []"

abbreviation no_port :: go_error where
  "no_port \<equiv> ErrorsNew ''no desired port found on the k8s endpoint slice''"

definition makeFlatLocalityLbEndpoints ::
    "ServiceRef \<Rightarrow> EndpointSlice list \<Rightarrow> uint32 \<Rightarrow> uint32 \<Rightarrow> LocalityLbEndpoints outcome" where
  "makeFlatLocalityLbEndpoints serviceRef epSlices weight priority =
     and_then
       (for_range
         (\<lambda>_ epSlice xdsEndpoints.
           case lookupK8sPort (sr_Port serviceRef) (es_Ports epSlice) of
             None \<Rightarrow> Err no_port
           | Some port \<Rightarrow>
               Ok (fold
                 (\<lambda>ep eps. if \<not> derefBool (ep_Ready ep) then eps else eps @ makeLbEndpoints ep port)
                 (es_Endpoints epSlice) xdsEndpoints))
         0 epSlices [])
       (\<lambda>xdsEndpoints.
         Ok \<lparr>lle_Locality = \<lparr>lcm_Zone = [], lcm_SubZone = sr_Name serviceRef\<rparr>,
             lle_LoadBalancingWeight = weight, lle_Priority = priority,
             lle_LbEndpoints = xdsEndpoints\<rparr>)"

record endpointData =
  ed_port :: uint32
  ed_endpoint :: Endpoint

record endpointGroup =
  eg_zone :: string
  eg_endpoints :: "endpointData list"

text \<open>
  The body of the inner loop of \<^verbatim>\<open>makeServiceEndpoints\<close>, over the array \<^verbatim>\<open>localityEndpointsByPrio\<close> of two
  group pointers.
\<close>

definition groupEndpoint ::
    "string \<Rightarrow> uint32 \<Rightarrow> Endpoint \<Rightarrow> endpointGroup option list \<Rightarrow> endpointGroup option list" where
  "groupEndpoint currentZone port ep byPrio =
     (if \<not> derefBool (ep_Ready ep) then byPrio
      else
        let priority = (case ep_Hints ep of
                          Some forZones \<Rightarrow> if containsZone forZones currentZone then 0 else 1
                        | None \<Rightarrow> 1);
            prioGroup = (case byPrio ! priority of
                           None \<Rightarrow> \<lparr>eg_zone = [], eg_endpoints = []\<rparr> | Some g \<Rightarrow> g);
            prioGroup = (case ep_Zone ep of
                           Some z \<Rightarrow> if eg_zone prioGroup = [] then prioGroup\<lparr>eg_zone := z\<rparr> else prioGroup
                         | None \<Rightarrow> prioGroup);
            prioGroup = prioGroup\<lparr>eg_endpoints := eg_endpoints prioGroup
                                    @ [\<lparr>ed_port = port, ed_endpoint = ep\<rparr>]\<rparr>
        in byPrio[priority := Some prioGroup])"

text \<open>The body of its last loop: a group becomes a locality, an empty group none.\<close>

definition groupLocality ::
    "string \<Rightarrow> bool \<Rightarrow> nat \<Rightarrow> endpointGroup option \<Rightarrow> LocalityLbEndpoints list \<Rightarrow> LocalityLbEndpoints list" where
  "groupLocality serviceName enableZonePrio prio prioGroup res =
     (case prioGroup of
        None \<Rightarrow> res
      | Some g \<Rightarrow>
          if eg_endpoints g = [] then res
          else let appliedPrio = (if enableZonePrio then of_nat prio else 0 :: uint32) in
            res @ [\<lparr>lle_Locality = \<lparr>lcm_Zone = eg_zone g,
                                    lcm_SubZone = serviceName @ ''-'' @ Itoa (uint appliedPrio)\<rparr>,
                    lle_LoadBalancingWeight = 1, lle_Priority = appliedPrio,
                    lle_LbEndpoints =
                      fold (\<lambda>d eps. eps @ makeLbEndpoints (ed_endpoint d) (ed_port d)) (eg_endpoints g) []\<rparr>])"

definition makeServiceEndpoints ::
    "Node option \<Rightarrow> ServiceRef \<Rightarrow> EndpointSlice list \<Rightarrow> LocalityLbEndpoints list outcome" where
  "makeServiceEndpoints node serviceRef epSlices =
     and_then (deref node) (\<lambda>n.
     let currentZone = (case nd_Locality n of None \<Rightarrow> [] | Some l \<Rightarrow> lcm_Zone l) in
     and_then
       (for_range
         (\<lambda>_ epSlice byPrio.
           case lookupK8sPort (sr_Port serviceRef) (es_Ports epSlice) of
             None \<Rightarrow> Err no_port
           | Some port \<Rightarrow> Ok (fold (groupEndpoint currentZone port) (es_Endpoints epSlice) byPrio))
         0 epSlices [None, None])
       (\<lambda>byPrio.
         let enableZonePrio = (case byPrio ! 0 of None \<Rightarrow> False | Some g \<Rightarrow> eg_endpoints g \<noteq> []) in
         for_range (\<lambda>prio g res. Ok (groupLocality (sr_Name serviceRef) enableZonePrio prio g res))
           0 byPrio []))"

definition serviceNamespace :: "ServiceRef \<Rightarrow> GRPCListener \<Rightarrow> string" where
  "serviceNamespace svc listener =
     (if sr_Namespace svc = [] then lis_Namespace listener else sr_Namespace svc)"

definition makeServiceLoadAssignment ::
    "xdslib \<Rightarrow> slice_lister \<Rightarrow> Node option \<Rightarrow> parsedBackendName \<Rightarrow> GRPCListener \<Rightarrow> Backend \<Rightarrow>
      (ClusterLoadAssignment \<times> string list) outcome" where
  "makeServiceLoadAssignment lib endpointSlices node backendRef listener clusterSpec =
     and_then (deref (bk_Service clusterSpec)) (\<lambda>svc.
     and_then (of_lib (labels_NewRequirement lib ''kubernetes.io/service-name'' Equals [sr_Name svc])) (\<lambda>req.
     and_then (of_lib (endpointSlices (serviceNamespace svc listener) (Requirements [req]))) (\<lambda>slices.
     and_then (makeServiceEndpoints node svc slices) (\<lambda>eps.
       Ok (\<lparr>cla_ClusterName = parsedBackendName_String backendRef, cla_Endpoints = map Some eps\<rparr>,
           map (\<lambda>s. om_ResourceVersion (es_ObjectMeta s)) slices)))))"

definition makeLocalitiesLoadAssignment ::
    "xdslib \<Rightarrow> slice_lister \<Rightarrow> parsedBackendName \<Rightarrow> GRPCListener \<Rightarrow> Backend \<Rightarrow>
      (ClusterLoadAssignment \<times> string list) outcome" where
  "makeLocalitiesLoadAssignment lib endpointSlices backendRef listener clusterSpec =
     and_then
       (for_range
         (\<lambda>i loc (eps, versions).
           and_then (deref (lo_Service loc)) (\<lambda>svc.
           and_then (of_lib (labels_NewRequirement lib ''kubernetes.io/service-name'' Equals [sr_Name svc]))
             (\<lambda>req.
           and_then (of_lib (endpointSlices (serviceNamespace svc listener) (Requirements [req]))) (\<lambda>slices.
           and_then (makeFlatLocalityLbEndpoints svc slices (lo_Weight loc) (lo_Priority loc)) (\<lambda>e.
             Ok (eps[i := Some e],
                 versions @ map (\<lambda>s. om_ResourceVersion (es_ObjectMeta s)) slices))))))
         0 (bk_Localities clusterSpec) (replicate (length (bk_Localities clusterSpec)) None, []))
       (\<lambda>(eps, versions).
         Ok (\<lparr>cla_ClusterName = parsedBackendName_String backendRef, cla_Endpoints = eps\<rparr>, versions))"

definition makeLoadAssignment ::
    "xdslib \<Rightarrow> slice_lister \<Rightarrow> Node option \<Rightarrow> parsedBackendName \<Rightarrow> GRPCListener \<Rightarrow> Backend \<Rightarrow>
      (ClusterLoadAssignment \<times> string list) outcome" where
  "makeLoadAssignment lib endpointSlices node backendRef listener backendSpec =
     (if bk_Service backendSpec \<noteq> None then
        makeServiceLoadAssignment lib endpointSlices node backendRef listener backendSpec
      else if length (bk_Localities backendSpec) > 0 then
        makeLocalitiesLoadAssignment lib endpointSlices backendRef listener backendSpec
      else Err (ErrorsNew ''unsupported non k8s service locality''))"

definition endpointHandler_resolveResource ::
    "xdslib \<Rightarrow> listener_cache \<Rightarrow> slice_lister \<Rightarrow> resolveRequest \<Rightarrow> resolveResponse outcome" where
  "endpointHandler_resolveResource lib ix endpointSlices req =
     for_range
       (\<lambda>i resourceName response.
         and_then (parseBackendName resourceName) (\<lambda>backendRef.
         and_then (GRPCListenerNamespaceLister_Get ix (pb_Namespace backendRef) (pb_ListenerName backendRef))
           (\<lambda>listener.
         and_then (useResourceVersion (lis_ResourceVersion listener) response) (\<lambda>response.
         and_then (findBackendSpec backendRef listener) (\<lambda>backend.
         and_then (makeLoadAssignment lib endpointSlices (rq_nodeInfo req) backendRef listener backend)
           (\<lambda>(eps, slicesVersions).
         and_then (encodeResource lib (rq_typeUrl req) (PClusterLoadAssignment eps)) (\<lambda>a.
           for_range (\<lambda>_. useResourceVersion) 0 slicesVersions
             (response\<lparr>rr_resources := (rr_resources response)[i := Some a]\<rparr>))))))))
       0 (rq_resourceNames req)
       (newResolveResponse (EndpointType lib) (length (rq_resourceNames req)))"

section \<open>Loops that append\<close>

lemma fold_append_concat: "fold (\<lambda>x acc. acc @ f x) xs acc = acc @ concat (map f xs)"
  by (induction xs arbitrary: acc) auto

lemma fold_append_filter:
  "fold (\<lambda>x acc. if \<not> P x then acc else acc @ f x) xs acc = acc @ concat (map f (filter P xs))"
  by (induction xs arbitrary: acc) auto

lemma makeLbEndpoints_map: "makeLbEndpoints ep port = map (\<lambda>addr. makeLbEndpoint ep addr port) (ep_Addresses ep)"
  using fold_append_concat [of "\<lambda>addr. [makeLbEndpoint ep addr port]" "ep_Addresses ep" "[]"]
  by (simp add: makeLbEndpoints_def)

section \<open>The ready endpoints of the slices of a service\<close>

text \<open>
  The pairs of a port and a ready endpoint, in the order of the slices; an error when a slice does
  not expose the port of the reference.
\<close>

definition ready_of :: "ServiceRef \<Rightarrow> EndpointSlice \<Rightarrow> endpointData list outcome" where
  "ready_of svc s =
     (case lookupK8sPort (sr_Port svc) (es_Ports s) of
        None \<Rightarrow> Err no_port
      | Some port \<Rightarrow> Ok (map (\<lambda>e. \<lparr>ed_port = port, ed_endpoint = e\<rparr>)
                         (filter (\<lambda>e. derefBool (ep_Ready e)) (es_Endpoints s))))"

definition ready_endpoints :: "ServiceRef \<Rightarrow> EndpointSlice list \<Rightarrow> endpointData list outcome" where
  "ready_endpoints svc slices = and_then (traverse (\<lambda>_. ready_of svc) 0 slices) (\<lambda>ds. Ok (concat ds))"

definition lb_of :: "endpointData list \<Rightarrow> LbEndpoint list" where
  "lb_of ds = concat (map (\<lambda>d. makeLbEndpoints (ed_endpoint d) (ed_port d)) ds)"

lemma lb_of_append [simp]: "lb_of (xs @ ys) = lb_of xs @ lb_of ys"
  by (simp add: lb_of_def)

lemma ready_endpoints_Nil [simp]: "ready_endpoints svc [] = Ok []"
  by (simp add: ready_endpoints_def)

lemma ready_endpoints_Cons:
  "ready_endpoints svc (s # ss) =
     and_then (ready_of svc s) (\<lambda>ds. and_then (ready_endpoints svc ss) (\<lambda>es. Ok (ds @ es)))"
  using traverse_shift [of "ready_of svc" "Suc 0" ss 0]
  by (simp add: ready_endpoints_def and_then_assoc)

lemma ready_endpoints_is_Ok:
  "is_Ok (ready_endpoints svc slices) \<longleftrightarrow>
     (\<forall>s \<in> set slices. lookupK8sPort (sr_Port svc) (es_Ports s) \<noteq> None)"
  by (induction slices) (auto simp: ready_endpoints_Cons is_Ok_and_then2 ready_of_def split: option.splits)

lemma ready_endpoints_no_panic: "\<not> is_Panic (ready_endpoints svc slices)"
  by (auto simp: ready_endpoints_def go_simps ready_of_def split: option.splits intro!: traverse_no_panic)

lemma ready_of_fold:
  assumes "\<And>port. fold (f port) (es_Endpoints s) acc =
    fold g (map (\<lambda>e. \<lparr>ed_port = port, ed_endpoint = e\<rparr>)
              (filter (\<lambda>e. derefBool (ep_Ready e)) (es_Endpoints s))) acc"
  shows "(case lookupK8sPort (sr_Port svc) (es_Ports s) of None \<Rightarrow> Err no_port
       | Some port \<Rightarrow> Ok (fold (f port) (es_Endpoints s) acc)) =
     and_then (ready_of svc s) (\<lambda>ds. Ok (fold g ds acc))"
  by (simp add: ready_of_def assms split: option.splits)

text \<open>Both endpoint loops visit the ready endpoints, slice after slice.\<close>

lemma slices_loop:
  assumes "\<And>port es acc. fold (f port) es acc =
    fold g (map (\<lambda>e. \<lparr>ed_port = port, ed_endpoint = e\<rparr>) (filter (\<lambda>e. derefBool (ep_Ready e)) es)) acc"
  shows "for_range (\<lambda>_ s acc. case lookupK8sPort (sr_Port svc) (es_Ports s) of None \<Rightarrow> Err no_port
       | Some port \<Rightarrow> Ok (fold (f port) (es_Endpoints s) acc)) i slices acc =
     and_then (ready_endpoints svc slices) (\<lambda>ds. Ok (fold g ds acc))"
  unfolding ready_of_fold [OF assms]
proof (induction slices arbitrary: i acc)
  case Nil
  then show ?case by simp
next
  case (Cons s slices)
  show ?case
    by (cases "ready_of svc s"; cases "ready_endpoints svc slices")
      (simp_all add: Cons.IH ready_endpoints_Cons)
qed

lemma makeFlatLocalityLbEndpoints_eq:
  "makeFlatLocalityLbEndpoints svc slices w p =
     and_then (ready_endpoints svc slices) (\<lambda>ds.
       Ok \<lparr>lle_Locality = \<lparr>lcm_Zone = [], lcm_SubZone = sr_Name svc\<rparr>,
           lle_LoadBalancingWeight = w, lle_Priority = p, lle_LbEndpoints = lb_of ds\<rparr>)"
proof -
  have "fold (\<lambda>ep eps. if \<not> derefBool (ep_Ready ep) then eps else eps @ makeLbEndpoints ep port) es acc =
      fold (\<lambda>d eps. eps @ makeLbEndpoints (ed_endpoint d) (ed_port d))
        (map (\<lambda>e. \<lparr>ed_port = port, ed_endpoint = e\<rparr>) (filter (\<lambda>e. derefBool (ep_Ready e)) es)) acc"
    for port es acc
    unfolding fold_append_filter fold_append_concat by (simp add: comp_def)
  note loop = slices_loop [of "\<lambda>port ep eps. if \<not> derefBool (ep_Ready ep) then eps else eps @ makeLbEndpoints ep port", OF this]
  show ?thesis
    unfolding makeFlatLocalityLbEndpoints_def loop and_then_assoc
    by (simp add: fold_append_concat lb_of_def)
qed

section \<open>The zone split\<close>

text \<open>
  The specification of \<^verbatim>\<open>makeServiceEndpoints\<close>: the endpoints hinted for the zone come first, at
  priority 0, the others at priority 1; when one of the groups is empty the other one is alone, at
  priority 0. A group carries the first zone name its endpoints give.
\<close>

definition hinted :: "string \<Rightarrow> endpointData \<Rightarrow> bool" where
  "hinted zone d =
     (case ep_Hints (ed_endpoint d) of None \<Rightarrow> False | Some forZones \<Rightarrow> containsZone forZones zone)"

definition first_zone :: "endpointData list \<Rightarrow> string" where
  "first_zone ds =
     (case find (\<lambda>d. ep_Zone (ed_endpoint d) \<noteq> None \<and> ep_Zone (ed_endpoint d) \<noteq> Some []) ds of
        None \<Rightarrow> [] | Some d \<Rightarrow> the (ep_Zone (ed_endpoint d)))"

definition zone_locality :: "string \<Rightarrow> nat \<Rightarrow> endpointData list \<Rightarrow> LocalityLbEndpoints list" where
  "zone_locality nm prio ds =
     (if ds = [] then []
      else [\<lparr>lle_Locality = \<lparr>lcm_Zone = first_zone ds, lcm_SubZone = nm @ ''-'' @ Itoa (int prio)\<rparr>,
             lle_LoadBalancingWeight = 1, lle_Priority = of_nat prio, lle_LbEndpoints = lb_of ds\<rparr>])"

definition zone_split :: "string \<Rightarrow> string \<Rightarrow> endpointData list \<Rightarrow> LocalityLbEndpoints list" where
  "zone_split nm zone ds =
     (let near = filter (hinted zone) ds; far = filter (\<lambda>d. \<not> hinted zone d) ds in
      zone_locality nm 0 near @ zone_locality nm (if near = [] then 0 else 1) far)"

definition node_zone :: "Node \<Rightarrow> string" where
  "node_zone n = (case nd_Locality n of None \<Rightarrow> [] | Some l \<Rightarrow> lcm_Zone l)"

lemma zone_locality_lb: "concat (map lle_LbEndpoints (zone_locality nm p ds)) = lb_of ds"
  by (simp add: zone_locality_def lb_of_def)

lemma lb_of_zone_split:
  "mset (concat (map lle_LbEndpoints (zone_split nm zone ds))) = mset (lb_of ds)"
proof -
  have "mset (lb_of (filter P ds)) + mset (lb_of (filter (\<lambda>d. \<not> P d) ds)) = mset (lb_of ds)" for P
    by (induction ds) (auto simp: lb_of_def)
  then show ?thesis by (simp add: zone_split_def Let_def zone_locality_lb)
qed

text \<open>What the array of groups holds after the ready endpoints \<open>ds\<close> have been visited.\<close>

definition group_of :: "endpointData list \<Rightarrow> endpointGroup option" where
  "group_of ds = (if ds = [] then None else Some \<lparr>eg_zone = first_zone ds, eg_endpoints = ds\<rparr>)"

definition groups_of :: "string \<Rightarrow> endpointData list \<Rightarrow> endpointGroup option list" where
  "groups_of zone ds = [group_of (filter (hinted zone) ds), group_of (filter (\<lambda>d. \<not> hinted zone d) ds)]"

lemma first_zone_Nil [simp]: "first_zone [] = []"
  by (simp add: first_zone_def)

lemma first_zone_snoc:
  "first_zone (ds @ [d]) =
     (if first_zone ds = [] then (case ep_Zone (ed_endpoint d) of None \<Rightarrow> [] | Some z \<Rightarrow> z)
      else first_zone ds)"
  by (induction ds) (auto simp: first_zone_def split: option.splits)

lemma groupEndpoint_groups_of:
  assumes "derefBool (ep_Ready e)"
  shows "groupEndpoint zone port e (groups_of zone ds) =
    groups_of zone (ds @ [\<lparr>ed_port = port, ed_endpoint = e\<rparr>])"
  using assms
  by (auto simp: groupEndpoint_def groups_of_def group_of_def hinted_def first_zone_snoc Let_def
      split: option.splits)

lemma groupEndpoint_skip: "\<not> derefBool (ep_Ready e) \<Longrightarrow> groupEndpoint zone port e gs = gs"
  by (simp add: groupEndpoint_def)

lemma fold_groupEndpoint:
  "fold (groupEndpoint zone port) es gs =
     fold (\<lambda>d. groupEndpoint zone (ed_port d) (ed_endpoint d))
       (map (\<lambda>e. \<lparr>ed_port = port, ed_endpoint = e\<rparr>) (filter (\<lambda>e. derefBool (ep_Ready e)) es)) gs"
  by (induction es arbitrary: gs) (auto simp: groupEndpoint_skip)

lemma fold_ready_groups:
  assumes "\<forall>d \<in> set ds. derefBool (ep_Ready (ed_endpoint d))"
  shows "fold (\<lambda>d. groupEndpoint zone (ed_port d) (ed_endpoint d)) ds (groups_of zone pre) =
    groups_of zone (pre @ ds)"
  using assms
proof (induction ds arbitrary: pre)
  case (Cons d ds)
  then show ?case using groupEndpoint_groups_of [of "ed_endpoint d" zone "ed_port d" pre]
    by (cases d) simp
qed simp

lemma ready_endpoints_ready:
  "ready_endpoints svc slices = Ok ds \<Longrightarrow> \<forall>d \<in> set ds. derefBool (ep_Ready (ed_endpoint d))"
  by (induction slices arbitrary: ds)
    (fastforce simp: ready_endpoints_Cons go_simps ready_of_def split: option.splits)+

lemma groupLocality_group_of:
  "groupLocality nm en prio (group_of ds) res =
     res @ zone_locality nm (if en then prio else 0) ds"
  if "prio < 2 ^ 32"
  using that by (simp add: groupLocality_def group_of_def zone_locality_def fold_append_concat lb_of_def unsigned_of_nat
      take_bit_nat_eq_self)

text \<open>The grouping loops compute the zone split of the ready endpoints.\<close>

lemma makeServiceEndpoints_refines:
  "makeServiceEndpoints (Some n) svc slices =
     and_then (ready_endpoints svc slices) (\<lambda>ds. Ok (zone_split (sr_Name svc) (node_zone n) ds))"
proof -
  let ?z = "node_zone n"
  have start: "[None, None] = groups_of ?z []" by (simp add: groups_of_def group_of_def)
  show ?thesis
  proof (cases "ready_endpoints svc slices")
    case (Ok ds)
    have "fold (\<lambda>d. groupEndpoint ?z (ed_port d) (ed_endpoint d)) ds (groups_of ?z []) = groups_of ?z ds"
      using fold_ready_groups [OF ready_endpoints_ready [OF Ok], of ?z "[]"] by simp
    then show ?thesis
      using groupLocality_group_of [of 0] groupLocality_group_of [of 1]
      by (simp add: makeServiceEndpoints_def start node_zone_def [symmetric] Ok
          slices_loop [of "groupEndpoint ?z", OF fold_groupEndpoint] zone_split_def)
        (auto simp: groups_of_def zone_locality_def group_of_def Let_def)
  qed (simp_all add: makeServiceEndpoints_def start node_zone_def [symmetric]
      slices_loop [of "groupEndpoint ?z", OF fold_groupEndpoint])
qed

section \<open>The handler as an answer loop\<close>

definition endpoint_answer ::
    "xdslib \<Rightarrow> listener_cache \<Rightarrow> slice_lister \<Rightarrow> string \<Rightarrow> Node option \<Rightarrow> string \<Rightarrow> answer outcome" where
  "endpoint_answer lib ix endpointSlices url node nm =
     and_then (parseBackendName nm) (\<lambda>ref.
     and_then (GRPCListenerNamespaceLister_Get ix (pb_Namespace ref) (pb_ListenerName ref)) (\<lambda>lis.
     and_then (findBackendSpec ref lis) (\<lambda>backend.
     and_then (makeLoadAssignment lib endpointSlices node ref lis backend) (\<lambda>la.
     and_then (encodeResource lib url (PClusterLoadAssignment (fst la))) (\<lambda>a.
       Ok (a, lis_ResourceVersion lis # snd la))))))"

lemma use_versions:
  "for_range (\<lambda>_. useResourceVersion) i vs r = Ok (r\<lparr>rr_versionHasher := rr_versionHasher r @ concat vs\<rparr>)"
  by (induction vs arbitrary: i r) (simp_all add: useResourceVersion_def)

lemma endpointHandler_answer_loop:
  "endpointHandler_resolveResource lib ix slices req =
     answer_loop (endpoint_answer lib ix slices (rq_typeUrl req) (rq_nodeInfo req))
       (EndpointType lib) (rq_resourceNames req)"
proof -
  have "(\<lambda>i nm resp. and_then (parseBackendName nm) (\<lambda>ref.
      and_then (GRPCListenerNamespaceLister_Get ix (pb_Namespace ref) (pb_ListenerName ref)) (\<lambda>lis.
      and_then (useResourceVersion (lis_ResourceVersion lis) resp) (\<lambda>resp.
      and_then (findBackendSpec ref lis) (\<lambda>backend.
      and_then (makeLoadAssignment lib slices (rq_nodeInfo req) ref lis backend) (\<lambda>(eps, vs).
      and_then (encodeResource lib (rq_typeUrl req) (PClusterLoadAssignment eps)) (\<lambda>a.
        for_range (\<lambda>_. useResourceVersion) 0 vs
          (resp\<lparr>rr_resources := (rr_resources resp)[i := Some a]\<rparr>)))))))) =
      answer_body (endpoint_answer lib ix slices (rq_typeUrl req) (rq_nodeInfo req))"
    by (intro ext) (auto simp: answer_body_def endpoint_answer_def and_then_assoc useResourceVersion_def
        use_versions intro!: and_then_cong)
  then show ?thesis by (simp add: endpointHandler_resolveResource_def answer_loop_def)
qed

interpretation endpoint_resolver:
  resource_resolver
    "\<lambda>names. endpointHandler_resolveResource lib ix slices
       \<lparr>rq_resourceNames = names, rq_typeUrl = url, rq_nodeInfo = node\<rparr>"
    "EndpointType lib" for lib ix slices url node
  using answer_resolver [of "endpoint_answer lib ix slices url node" "EndpointType lib"]
  by (simp add: endpointHandler_answer_loop)

section \<open>Localities\<close>

definition locality_of ::
    "xdslib \<Rightarrow> slice_lister \<Rightarrow> GRPCListener \<Rightarrow> Locality \<Rightarrow> (LocalityLbEndpoints \<times> string list) outcome" where
  "locality_of lib endpointSlices listener loc =
     and_then (deref (lo_Service loc)) (\<lambda>svc.
     and_then (of_lib (labels_NewRequirement lib ''kubernetes.io/service-name'' Equals [sr_Name svc])) (\<lambda>req.
     and_then (of_lib (endpointSlices (serviceNamespace svc listener) (Requirements [req]))) (\<lambda>slices.
     and_then (makeFlatLocalityLbEndpoints svc slices (lo_Weight loc) (lo_Priority loc)) (\<lambda>e.
       Ok (e, map (\<lambda>s. om_ResourceVersion (es_ObjectMeta s)) slices)))))"

lemma localities_loop:
  "for_range
     (\<lambda>i loc (eps, versions). and_then (f loc) (\<lambda>r. Ok (eps[i := Some (fst r)], versions @ snd r)))
     (length pre) locs (map Some pre @ replicate (length locs) None, vs) =
   and_then (traverse (\<lambda>_. f) (length pre) locs)
     (\<lambda>rs. Ok (map Some pre @ map (Some \<circ> fst) rs, vs @ concat (map snd rs)))"
proof (induction locs arbitrary: pre vs)
  case Nil
  then show ?case by simp
next
  case (Cons l locs)
  have upd: "(map Some pre @ None # replicate (length locs) None)[length pre := Some y] =
      map Some (pre @ [y]) @ replicate (length locs) None" for y
    by (simp add: list_update_append)
  show ?case
  proof (cases "f l")
    case (Ok r)
    then show ?thesis using Cons.IH [of "pre @ [fst r]" "vs @ snd r"] by (simp add: upd and_then_assoc comp_def)
  qed simp_all
qed

lemma makeLocalitiesLoadAssignment_traverse:
  "makeLocalitiesLoadAssignment lib slices ref lis b =
     and_then (traverse (\<lambda>_. locality_of lib slices lis) 0 (bk_Localities b)) (\<lambda>rs.
       Ok (\<lparr>cla_ClusterName = parsedBackendName_String ref, cla_Endpoints = map (Some \<circ> fst) rs\<rparr>,
           concat (map snd rs)))"
  using localities_loop [of "locality_of lib slices lis" "[]" "bk_Localities b" "[]"]
  by (simp add: makeLocalitiesLoadAssignment_def locality_of_def and_then_assoc)

section \<open>Panics\<close>

lemma makeLocalitiesLoadAssignment_panics:
  "is_Panic (makeLocalitiesLoadAssignment lib slices ref lis b) \<Longrightarrow>
     \<exists>loc \<in> set (bk_Localities b). lo_Service loc = None"
proof (rule ccontr)
  assume pan: "is_Panic (makeLocalitiesLoadAssignment lib slices ref lis b)"
    and "\<not> (\<exists>loc \<in> set (bk_Localities b). lo_Service loc = None)"
  then have "\<not> is_Panic (locality_of lib slices lis loc)" if "loc \<in> set (bk_Localities b)" for loc
    using that ready_endpoints_no_panic
    by (auto simp: locality_of_def go_simps makeFlatLocalityLbEndpoints_eq)
  then have "\<not> is_Panic (traverse (\<lambda>_. locality_of lib slices lis) 0 (bk_Localities b))"
    by (rule traverse_no_panic)
  then show False using pan by (simp add: makeLocalitiesLoadAssignment_traverse go_simps)
qed

text \<open>
  A load assignment panics in two cases only: a backend with localities one of which names no
  service, and a request without a node for a backend with a service.
\<close>

definition localities_have_services :: "Backend \<Rightarrow> bool" where
  "localities_have_services b \<longleftrightarrow>
     bk_Service b \<noteq> None \<or> (\<forall>loc \<in> set (bk_Localities b). lo_Service loc \<noteq> None)"

lemma makeLoadAssignment_no_panic:
  assumes "node \<noteq> None" and "localities_have_services b"
  shows "\<not> is_Panic (makeLoadAssignment lib slices node ref lis b)"
proof -
  obtain n where node: "node = Some n" using assms(1) by blast
  have "\<not> is_Panic (makeServiceLoadAssignment lib slices node ref lis b)" if "bk_Service b \<noteq> None"
    using that ready_endpoints_no_panic
    by (auto simp: makeServiceLoadAssignment_def go_simps node makeServiceEndpoints_refines)
  moreover have "\<not> is_Panic (makeLocalitiesLoadAssignment lib slices ref lis b)" if "bk_Service b = None"
    using makeLocalitiesLoadAssignment_panics [of lib slices ref lis b] assms(2) that
    unfolding localities_have_services_def by blast
  ultimately show ?thesis by (simp add: makeLoadAssignment_def)
qed

section \<open>A cached backend and its slices\<close>

text \<open>
  \<open>slices_cached sl content\<close> is the documented behaviour of the client-go lister of endpoint slices
  over a cache holding \<open>content\<close>: the slices of the namespace that carry the label, with the value
  the requirement asks for. The lister promises no order: \<open>content\<close> is in the order in which it happens to
  enumerate them, and what is proved for one state of the cache holds for each such order. Where two
  states of the cache are compared, slices that did not change keep their order among themselves.
\<close>

definition slice_of_service :: "string \<Rightarrow> string \<Rightarrow> EndpointSlice \<Rightarrow> bool" where
  "slice_of_service ns svc s \<longleftrightarrow>
     om_Namespace (es_ObjectMeta s) = ns \<and>
     om_Labels (es_ObjectMeta s) ''kubernetes.io/service-name'' = Some svc"

definition slices_cached :: "slice_lister \<Rightarrow> EndpointSlice list \<Rightarrow> bool" where
  "slices_cached sl content \<longleftrightarrow>
     (\<forall>ns svc. sl ns (Requirements [\<lparr>rq_Key = ''kubernetes.io/service-name'', rq_Operator = Equals,
                                      rq_Values = [svc]\<rparr>]) =
        Inr (filter (slice_of_service ns svc) content))"

definition lister_of :: "EndpointSlice list \<Rightarrow> slice_lister" where
  "lister_of content ns sel =
     (case sel of
        Everything \<Rightarrow> Inr (filter (\<lambda>s. om_Namespace (es_ObjectMeta s) = ns) content)
      | Requirements rs \<Rightarrow> Inr (filter (\<lambda>s. om_Namespace (es_ObjectMeta s) = ns \<and>
          list_all (\<lambda>r. \<exists>v \<in> set (rq_Values r). om_Labels (es_ObjectMeta s) (rq_Key r) = Some v) rs) content))"

lemma lister_of_cached: "slices_cached (lister_of content) content"
  by (simp add: slices_cached_def lister_of_def slice_of_service_def [abs_def])

text \<open>The requirement on a service's name exists when the name is a valid label value.\<close>

definition label_value_ok :: "xdslib \<Rightarrow> string \<Rightarrow> bool" where
  "label_value_ok lib svc \<longleftrightarrow>
     (\<exists>r. labels_NewRequirement lib ''kubernetes.io/service-name'' Equals [svc] = Inr r)"

lemma service_slices:
  assumes "selects_by_label lib" and "label_value_ok lib (sr_Name svc)" and "slices_cached sl content"
  shows "and_then (of_lib (labels_NewRequirement lib ''kubernetes.io/service-name'' Equals [sr_Name svc]))
      (\<lambda>req. and_then (of_lib (sl ns (Requirements [req]))) f) =
    f (filter (slice_of_service ns (sr_Name svc)) content)"
proof -
  obtain r where r: "labels_NewRequirement lib ''kubernetes.io/service-name'' Equals [sr_Name svc] = Inr r"
    using assms(2) by (auto simp: label_value_ok_def)
  then have "rq_Key r = ''kubernetes.io/service-name'' \<and> rq_Operator r = Equals \<and> rq_Values r = [sr_Name svc]"
    using assms(1) unfolding selects_by_label_def by blast
  then have "r = \<lparr>rq_Key = ''kubernetes.io/service-name'', rq_Operator = Equals, rq_Values = [sr_Name svc]\<rparr>"
    by (cases r) simp
  then show ?thesis using assms(3) r by (simp add: slices_cached_def)
qed

lemma makeServiceLoadAssignment_eq:
  assumes "selects_by_label lib" and "slices_cached sl content"
    and "bk_Service b = Some svc" and "label_value_ok lib (sr_Name svc)"
  shows "makeServiceLoadAssignment lib sl (Some n) ref lis b =
    and_then (ready_endpoints svc (filter (slice_of_service (serviceNamespace svc lis) (sr_Name svc)) content))
      (\<lambda>ds. Ok (\<lparr>cla_ClusterName = parsedBackendName_String ref,
                 cla_Endpoints = map Some (zone_split (sr_Name svc) (node_zone n) ds)\<rparr>,
         map (\<lambda>s. om_ResourceVersion (es_ObjectMeta s))
           (filter (slice_of_service (serviceNamespace svc lis) (sr_Name svc)) content)))"
  unfolding makeServiceLoadAssignment_def assms(3) deref.simps and_then.simps(1)
    service_slices [OF assms(1,4,2)] makeServiceEndpoints_refines and_then_assoc ..

text \<open>
  The two objects of a slice, and the slices of the sample service: a slice with a ready endpoint in
  zone \<^verbatim>\<open>a\<close> hinted for that zone, one that is not ready, and a ready one in zone \<^verbatim>\<open>b\<close>.
\<close>

definition sample_endpoint :: "string \<Rightarrow> bool \<Rightarrow> string \<Rightarrow> Endpoint" where
  "sample_endpoint addr ready zone =
     \<lparr>ep_Addresses = [addr], ep_Ready = Some ready, ep_Hints = Some [zone], ep_Zone = Some zone\<rparr>"

definition sample_slice :: EndpointSlice where
  "sample_slice =
     \<lparr>es_ObjectMeta = \<lparr>om_Name = ''test-service-x'', om_Namespace = ''default'', om_ResourceVersion = ''7'',
        om_Labels = [''kubernetes.io/service-name'' \<mapsto> ''test-service'']\<rparr>,
      es_Endpoints = [sample_endpoint ''10.0.0.1'' True ''b'', sample_endpoint ''10.0.0.2'' False ''a'',
        sample_endpoint ''10.0.0.3'' True ''a''],
      es_Ports = [\<lparr>ept_Name = Some ''grpc'', ept_Port = Some 3333\<rparr>]\<rparr>"

definition sample_node :: Node where
  "sample_node = \<lparr>nd_Id = ''client'', nd_Locality = Some \<lparr>lcm_Zone = ''A'', lcm_SubZone = []\<rparr>\<rparr>"

lemmas sample_slice_defs [go_defs] = sample_endpoint_def sample_slice_def sample_node_def

lemma sample_ready:
  "ready_endpoints sample_service [sample_slice] =
    Ok [\<lparr>ed_port = 3333, ed_endpoint = sample_endpoint ''10.0.0.1'' True ''b''\<rparr>,
        \<lparr>ed_port = 3333, ed_endpoint = sample_endpoint ''10.0.0.3'' True ''a''\<rparr>]"
  by (simp add: ready_endpoints_def ready_of_def lookupK8sPort_def derefBool_def go_defs)

section \<open>Properties\<close>

text \<open>C6:
  The grouping loops of \<^verbatim>\<open>makeServiceEndpoints\<close> refine the zone split: for every node, service reference
  and list of slices, the code returns exactly the error of the first slice without the port, or
  the ready endpoints hinted for the node's zone in a locality of priority 0 followed by the other
  ready endpoints in a locality of the next priority, an empty group giving no locality; a request
  without a node panics.
\<close>

theorem service_endpoints_refine_zone_split:
  "makeServiceEndpoints (Some n) svc slices =
     and_then (ready_endpoints svc slices) (\<lambda>ds. Ok (zone_split (sr_Name svc) (node_zone n) ds)) \<and>
   makeServiceEndpoints None svc slices = Panic NilDereference"
  by (simp add: makeServiceEndpoints_refines) (simp add: makeServiceEndpoints_def)

text \<open>C7:
  No endpoint is lost, invented or sent twice: the addresses of the localities that
  \<^verbatim>\<open>makeServiceEndpoints\<close> returns are, as a multiset, those of the ready endpoints, each with the port
  of its slice; there are at most two localities, their priorities are 0, 1, ... without a gap (which
  the xDS protocol requires of a client), and each has the weight 1.
\<close>

theorem service_endpoints_exact:
  assumes "makeServiceEndpoints (Some n) svc slices = Ok res"
  shows "\<exists>ds. ready_endpoints svc slices = Ok ds \<and>
    mset (concat (map lle_LbEndpoints res)) = mset (lb_of ds) \<and>
    length res \<le> 2 \<and> (\<forall>i < length res. lle_Priority (res ! i) = of_nat i) \<and>
    (\<forall>l \<in> set res. lle_LoadBalancingWeight l = 1)"
proof -
  obtain ds where ds: "ready_endpoints svc slices = Ok ds"
    and res: "res = zone_split (sr_Name svc) (node_zone n) ds"
    using assms by (auto simp: makeServiceEndpoints_refines go_simps)
  have "mset (concat (map lle_LbEndpoints res)) = mset (lb_of ds)"
    using lb_of_zone_split by (simp add: res)
  moreover have "length res \<le> 2 \<and> (\<forall>i < length res. lle_Priority (res ! i) = of_nat i) \<and>
      (\<forall>l \<in> set res. lle_LoadBalancingWeight l = 1)"
    by (auto simp: res zone_split_def zone_locality_def Let_def less_Suc_eq)
  ultimately show ?thesis using ds by blast
qed

theorem service_endpoints_exact_witness:
  "makeServiceEndpoints (Some sample_node) sample_service [sample_slice] =
     Ok (zone_split ''test-service'' ''A''
       [\<lparr>ed_port = 3333, ed_endpoint = sample_endpoint ''10.0.0.1'' True ''b''\<rparr>,
        \<lparr>ed_port = 3333, ed_endpoint = sample_endpoint ''10.0.0.3'' True ''a''\<rparr>]) \<and>
   length (zone_split ''test-service'' ''A''
       [\<lparr>ed_port = 3333, ed_endpoint = sample_endpoint ''10.0.0.1'' True ''b''\<rparr>,
        \<lparr>ed_port = 3333, ed_endpoint = sample_endpoint ''10.0.0.3'' True ''a''\<rparr>]) \<le> 2"
proof -
  have "makeServiceEndpoints (Some sample_node) sample_service [sample_slice] =
     Ok (zone_split ''test-service'' ''A''
       [\<lparr>ed_port = 3333, ed_endpoint = sample_endpoint ''10.0.0.1'' True ''b''\<rparr>,
        \<lparr>ed_port = 3333, ed_endpoint = sample_endpoint ''10.0.0.3'' True ''a''\<rparr>])"
    by (simp add: makeServiceEndpoints_refines sample_ready) (simp add: go_defs node_zone_def)
  then show ?thesis using service_endpoints_exact by blast
qed

end
