(* ===== verification/Watchers.thy ===== *)
theory Watchers
  imports Gtc_Prelude "HOL-Library.Multiset"
begin

text \<open>
  The watch registry of \<^verbatim>\<open>gtc/watcher.go\<close>, on an explicit store, because several goroutines share the
  objects by pointer: \<open>ws_watchers\<close> is the map of \<^verbatim>\<open>watches\<close> from a resource to the address of its
  \<^verbatim>\<open>resourceWatchers\<close>, \<open>ws_rw\<close> the content of each \<^verbatim>\<open>resourceWatchers\<close>, \<open>ws_watcher\<close> each \<^verbatim>\<open>watcher\<close>. A
  Go map used as a set is the list of its keys in the order \<^verbatim>\<open>range\<close> visits them, which the language
  leaves open; no theorem depends on it. \<open>ws_goroutines\<close> collects the goroutines that
  \<^verbatim>\<open>go w.notifyChanged(ctx, ref)\<close> starts and that have not returned. The locale \<open>watch_registry\<close> is
  what the notifiers and the config watcher rely on. The calls are sequential here; the theory of
  interleavings runs their critical sections in any order.
\<close>

record resourceRef =
  ref_typeURL :: string
  ref_resourceName :: string

record watcher =
  wa_done :: bool
  wa_watchedResources :: "resourceRef list"

type_synonym watcher_ptr = nat
type_synonym rw_ptr = nat

record watches =
  ws_watchers :: "resourceRef \<Rightarrow> rw_ptr option"
  ws_rw :: "rw_ptr \<Rightarrow> watcher_ptr list"
  ws_nextRw :: rw_ptr
  ws_watcher :: "watcher_ptr \<Rightarrow> watcher"
  ws_nextWatcher :: watcher_ptr
  ws_goroutines :: "(watcher_ptr \<times> resourceRef) list"

definition newWatches :: watches where
  "newWatches =
     \<lparr>ws_watchers = (\<lambda>_. None), ws_rw = (\<lambda>_. []), ws_nextRw = 0,
      ws_watcher = (\<lambda>_. \<lparr>wa_done = False, wa_watchedResources = []\<rparr>), ws_nextWatcher = 0,
      ws_goroutines = []\<rparr>"

section \<open>Critical sections\<close>

text \<open>The code under \<^verbatim>\<open>w.mu\<close>: the lookup with the read lock, the creation with the write lock.\<close>

definition getResourceWatchers :: "resourceRef \<Rightarrow> watches \<Rightarrow> rw_ptr option" where
  "getResourceWatchers ref w = ws_watchers w ref"

definition createResourceWatchers :: "resourceRef \<Rightarrow> watches \<Rightarrow> rw_ptr \<times> watches" where
  "createResourceWatchers ref w =
     (case ws_watchers w ref of
        Some rw \<Rightarrow> (rw, w)
      | None \<Rightarrow> (ws_nextRw w,
          w\<lparr>ws_rw := (ws_rw w)(ws_nextRw w := []), ws_nextRw := Suc (ws_nextRw w),
            ws_watchers := (ws_watchers w)(ref \<mapsto> ws_nextRw w)\<rparr>))"

text \<open>The code under \<^verbatim>\<open>rw.mu\<close>.\<close>

definition rw_contains :: "rw_ptr \<Rightarrow> watcher_ptr \<Rightarrow> watches \<Rightarrow> bool" where
  "rw_contains rw wa w \<longleftrightarrow> wa \<in> set (ws_rw w rw)"

definition rw_insert :: "rw_ptr \<Rightarrow> watcher_ptr \<Rightarrow> watches \<Rightarrow> watches" where
  "rw_insert rw wa w = w\<lparr>ws_rw := (ws_rw w)(rw := List.insert wa (ws_rw w rw))\<rparr>"

definition rw_delete :: "rw_ptr \<Rightarrow> watcher_ptr \<Rightarrow> watches \<Rightarrow> watches" where
  "rw_delete rw wa w = w\<lparr>ws_rw := (ws_rw w)(rw := removeAll wa (ws_rw w rw))\<rparr>"

definition resourceWatchers_notifyChanged :: "rw_ptr \<Rightarrow> resourceRef \<Rightarrow> watches \<Rightarrow> watches" where
  "resourceWatchers_notifyChanged rw ref w =
     w\<lparr>ws_goroutines := ws_goroutines w @ map (\<lambda>wa. (wa, ref)) (ws_rw w rw)\<rparr>"

definition watched_insert :: "watcher_ptr \<Rightarrow> resourceRef \<Rightarrow> watches \<Rightarrow> watches" where
  "watched_insert wa ref w =
     w\<lparr>ws_watcher := (ws_watcher w)(wa := (ws_watcher w wa)
         \<lparr>wa_watchedResources := List.insert ref (wa_watchedResources (ws_watcher w wa))\<rparr>)\<rparr>"

definition close_done :: "watcher_ptr \<Rightarrow> watches \<Rightarrow> watches outcome" where
  "close_done wa w =
     (if wa_done (ws_watcher w wa) then Panic CloseOfClosedChannel
      else Ok (w\<lparr>ws_watcher := (ws_watcher w)(wa := (ws_watcher w wa)\<lparr>wa_done := True\<rparr>)\<rparr>))"

section \<open>The methods\<close>

definition getOrCreateResourceWatchers :: "resourceRef \<Rightarrow> watches \<Rightarrow> rw_ptr \<times> watches" where
  "getOrCreateResourceWatchers ref w =
     (case getResourceWatchers ref w of
        Some rw \<Rightarrow> (rw, w)
      | None \<Rightarrow> createResourceWatchers ref w)"

definition resourceWatchers_watch :: "rw_ptr \<Rightarrow> watcher_ptr \<Rightarrow> watches \<Rightarrow> watches" where
  "resourceWatchers_watch rw wa w = (if rw_contains rw wa w then w else rw_insert rw wa w)"

definition resourceWatchers_stopWatch :: "rw_ptr \<Rightarrow> watcher_ptr \<Rightarrow> watches \<Rightarrow> watches" where
  "resourceWatchers_stopWatch rw wa w = (if \<not> rw_contains rw wa w then w else rw_delete rw wa w)"

definition watcher_watch :: "watcher_ptr \<Rightarrow> resourceRef \<Rightarrow> watches \<Rightarrow> watches" where
  "watcher_watch wa ref w =
     (case getOrCreateResourceWatchers ref w of
        (rw, w) \<Rightarrow> watched_insert wa ref (resourceWatchers_watch rw wa w))"

definition buildWatch :: "watches \<Rightarrow> watcher_ptr \<times> watches" where
  "buildWatch w =
     (ws_nextWatcher w,
      w\<lparr>ws_watcher := (ws_watcher w)(ws_nextWatcher w := \<lparr>wa_done = False, wa_watchedResources = []\<rparr>),
        ws_nextWatcher := Suc (ws_nextWatcher w)\<rparr>)"

definition stopAllWatches :: "watcher_ptr \<Rightarrow> watches \<Rightarrow> watches" where
  "stopAllWatches wa w =
     fold (\<lambda>ref w. case getResourceWatchers ref w of
                     None \<Rightarrow> w
                   | Some rw \<Rightarrow> resourceWatchers_stopWatch rw wa w)
       (wa_watchedResources (ws_watcher w wa)) w"

text \<open>The cleanup function that \<^verbatim>\<open>buildWatch\<close> returns.\<close>

definition releaseWatch :: "watcher_ptr \<Rightarrow> watches \<Rightarrow> watches outcome" where
  "releaseWatch wa w = close_done wa (stopAllWatches wa w)"

definition watches_notifyChanged :: "resourceRef \<Rightarrow> watches \<Rightarrow> watches" where
  "watches_notifyChanged ref w =
     (case getResourceWatchers ref w of
        None \<Rightarrow> w
      | Some rw \<Rightarrow> resourceWatchers_notifyChanged rw ref w)"

text \<open>
  The select of \<^verbatim>\<open>watcher.notifyChanged\<close>: the cases that can proceed, given whether the context is
  cancelled, whether \<open>done\<close> is closed and whether the owner is receiving on the unbuffered channel
  \<^verbatim>\<open>changes\<close>. The goroutine blocks while the list is empty, and runs any case of it otherwise.
\<close>

datatype notify_case = ContextDone | WatcherDone | Delivered

definition watcher_notifyChanged :: "bool \<Rightarrow> bool \<Rightarrow> bool \<Rightarrow> notify_case list" where
  "watcher_notifyChanged ctxDone isDone receiving =
     (if ctxDone then [ContextDone] else []) @ (if isDone then [WatcherDone] else [])
       @ (if receiving then [Delivered] else [])"

section \<open>The invariant\<close>

definition subscribers :: "watches \<Rightarrow> resourceRef \<Rightarrow> watcher_ptr set" where
  "subscribers w ref = (case ws_watchers w ref of None \<Rightarrow> {} | Some rw \<Rightarrow> set (ws_rw w rw))"

definition watched :: "watches \<Rightarrow> watcher_ptr \<Rightarrow> resourceRef set" where
  "watched w wa = set (wa_watchedResources (ws_watcher w wa))"

text \<open>The watchers that were built and not released.\<close>

definition live_watchers :: "watches \<Rightarrow> watcher_ptr set" where
  "live_watchers w = {wa. wa < ws_nextWatcher w \<and> \<not> wa_done (ws_watcher w wa)}"

text \<open>
  Two resources never share a \<^verbatim>\<open>resourceWatchers\<close>, its addresses are allocated, a watcher is in it at
  most once, and a subscription belongs to a live watcher and is recorded in it, which is what its
  cleanup goes through.
\<close>

definition watches_inv :: "watches \<Rightarrow> bool" where
  "watches_inv w \<longleftrightarrow>
     (\<forall>r r' a. ws_watchers w r = Some a \<longrightarrow> ws_watchers w r' = Some a \<longrightarrow> r = r') \<and>
     (\<forall>r a. ws_watchers w r = Some a \<longrightarrow> a < ws_nextRw w \<and> distinct (ws_rw w a)) \<and>
     (\<forall>r wa. wa \<in> subscribers w r \<longrightarrow> r \<in> watched w wa \<and> wa \<in> live_watchers w)"

lemma watches_inv_newWatches: "watches_inv newWatches"
  by (simp add: watches_inv_def newWatches_def subscribers_def)

lemma watches_invD:
  assumes "watches_inv w"
  shows "ws_watchers w r = Some a \<Longrightarrow> ws_watchers w r' = Some a \<Longrightarrow> r = r'"
    and "ws_watchers w r = Some a \<Longrightarrow> a < ws_nextRw w"
    and "ws_watchers w r = Some a \<Longrightarrow> distinct (ws_rw w a)"
    and "wa \<in> subscribers w r \<Longrightarrow> r \<in> watched w wa"
    and "wa \<in> subscribers w r \<Longrightarrow> wa \<in> live_watchers w"
  using assms unfolding watches_inv_def by blast+

lemmas section_defs =
  createResourceWatchers_def rw_contains_def rw_insert_def rw_delete_def watched_insert_def
  resourceWatchers_notifyChanged_def getResourceWatchers_def

text \<open>What each critical section does to the subscribers and to the watched resources.\<close>

lemma create_registers:
  "createResourceWatchers ref w = (a, w') \<Longrightarrow> ws_watchers w' ref = Some a"
  by (auto simp: section_defs split: option.splits)

lemma create_cases:
  assumes "createResourceWatchers ref w = (a, w')"
  obtains "ws_watchers w ref = Some a" and "w' = w"
  | "ws_watchers w ref = None" and "a = ws_nextRw w"
    and "w' = w\<lparr>ws_rw := (ws_rw w)(a := []), ws_nextRw := Suc a, ws_watchers := (ws_watchers w)(ref \<mapsto> a)\<rparr>"
  using assms by (auto simp: createResourceWatchers_def split: option.splits)

lemma create_keeps:
  assumes "createResourceWatchers ref w = (a, w')"
  shows "ws_watcher w' = ws_watcher w" and "ws_goroutines w' = ws_goroutines w"
    and "live_watchers w' = live_watchers w"
  by (rule create_cases [OF assms]; simp add: live_watchers_def)+

lemma create_monotone:
  assumes "createResourceWatchers ref w = (a, w')" and "ws_watchers w r = Some b"
  shows "ws_watchers w' r = Some b"
  using assms(2) by (rule_tac create_cases [OF assms(1)]) auto

lemma create_subscribers:
  assumes "createResourceWatchers ref w = (a, w')" and "watches_inv w"
  shows "subscribers w' = subscribers w"
proof (rule create_cases [OF assms(1)])
  assume none: "ws_watchers w ref = None" and a: "a = ws_nextRw w"
    and w': "w' = w\<lparr>ws_rw := (ws_rw w)(a := []), ws_nextRw := Suc a, ws_watchers := (ws_watchers w)(ref \<mapsto> a)\<rparr>"
  have "ws_watchers w r \<noteq> Some (ws_nextRw w)" for r
    using watches_invD(2) [OF assms(2), of r "ws_nextRw w"] by auto
  then show ?thesis using none by (auto simp: w' a subscribers_def fun_eq_iff split: option.splits)
qed simp

lemma create_inv:
  assumes "createResourceWatchers ref w = (a, w')" and "watches_inv w"
  shows "watches_inv w'"
proof -
  have subs: "wa \<in> subscribers w' r \<longrightarrow> r \<in> watched w' wa \<and> wa \<in> live_watchers w'" for r wa
    using watches_invD(4,5) [OF assms(2)] create_subscribers [OF assms] create_keeps [OF assms(1)]
    by (simp add: watched_def)
  show ?thesis
  proof (rule create_cases [OF assms(1)])
    assume a: "a = ws_nextRw w"
      and w': "w' = w\<lparr>ws_rw := (ws_rw w)(a := []), ws_nextRw := Suc a, ws_watchers := (ws_watchers w)(ref \<mapsto> a)\<rparr>"
    have old: "ws_watchers w r \<noteq> Some (ws_nextRw w)" for r
      using watches_invD(2) [OF assms(2), of r "ws_nextRw w"] by auto
    have "r = r'" if "ws_watchers w' r = Some b" "ws_watchers w' r' = Some b" for r r' b
      using that watches_invD(1) [OF assms(2), of r b r'] old [of r] old [of r']
      by (auto simp: w' a split: if_splits)
    moreover have "b < ws_nextRw w' \<and> distinct (ws_rw w' b)" if "ws_watchers w' r = Some b" for r b
      using that watches_invD(2,3) [OF assms(2), of r b] by (auto simp: w' a split: if_splits)
    ultimately show ?thesis unfolding watches_inv_def using subs by blast
  qed (use assms(2) in simp)
qed

text \<open>
  Inserting a watcher that records the resource, and deleting one, change the subscribers of the one
  resource the \<^verbatim>\<open>resourceWatchers\<close> belongs to.
\<close>

lemma insert_subscribers:
  assumes "watches_inv w" and "ws_watchers w ref = Some a"
  shows "subscribers (rw_insert a wa w) r = (if r = ref then insert wa (subscribers w r) else subscribers w r)"
proof (cases "r = ref")
  case False
  then have "ws_watchers w r \<noteq> Some a" using watches_invD(1) [OF assms(1)] assms(2) by blast
  then show ?thesis using False by (auto simp: rw_insert_def subscribers_def split: option.splits)
qed (auto simp: rw_insert_def subscribers_def assms(2))

lemma delete_subscribers:
  assumes "watches_inv w" and "ws_watchers w ref = Some a"
  shows "subscribers (rw_delete a wa w) r = (if r = ref then subscribers w r - {wa} else subscribers w r)"
proof (cases "r = ref")
  case False
  then have "ws_watchers w r \<noteq> Some a" using watches_invD(1) [OF assms(1)] assms(2) by blast
  then show ?thesis using False by (auto simp: rw_delete_def subscribers_def split: option.splits)
qed (auto simp: rw_delete_def subscribers_def assms(2))

lemma watched_insert_simps [simp]:
  "subscribers (watched_insert wa ref w) = subscribers w"
  "ws_watchers (watched_insert wa ref w) = ws_watchers w"
  "ws_goroutines (watched_insert wa ref w) = ws_goroutines w"
  "watched (watched_insert wa ref w) wb = (if wb = wa then insert ref (watched w wb) else watched w wb)"
  by (auto simp: watched_insert_def subscribers_def watched_def fun_eq_iff split: option.splits)

lemma inv_of_subscribers:
  assumes "watches_inv w" and "ws_watchers w' = ws_watchers w" and "ws_nextRw w' = ws_nextRw w"
    and "\<And>a. distinct (ws_rw w a) \<Longrightarrow> distinct (ws_rw w' a)"
    and "\<And>r wa. wa \<in> subscribers w' r \<Longrightarrow> r \<in> watched w' wa \<and> wa \<in> live_watchers w'"
  shows "watches_inv w'"
  using assms unfolding watches_inv_def by metis

lemma delete_inv:
  assumes "watches_inv w"
  shows "watches_inv (rw_delete a wa w)"
proof (rule inv_of_subscribers [OF assms])
  show "r \<in> watched (rw_delete a wa w) x \<and> x \<in> live_watchers (rw_delete a wa w)"
    if "x \<in> subscribers (rw_delete a wa w) r" for r x
    using that watches_invD(4,5) [OF assms, of x r]
    by (auto simp: rw_delete_def subscribers_def watched_def live_watchers_def split: option.splits if_splits)
qed (auto simp: rw_delete_def distinct_removeAll)

text \<open>
  A registration ends with the watcher recording the resource it was added to.
\<close>

lemma insert_watched_inv:
  assumes "watches_inv w" and "ws_watchers w ref = Some a" and "wa \<in> live_watchers w"
  shows "watches_inv (watched_insert wa ref (rw_insert a wa w))"
proof (rule inv_of_subscribers [OF assms(1)])
  show "r \<in> watched (watched_insert wa ref (rw_insert a wa w)) x \<and>
      x \<in> live_watchers (watched_insert wa ref (rw_insert a wa w))"
    if "x \<in> subscribers (watched_insert wa ref (rw_insert a wa w)) r" for r x
    using that watches_invD(4,5) [OF assms(1), of x r] assms(3)
    by (auto simp: insert_subscribers [OF assms(1,2)] split: if_splits)
      (auto simp: watched_insert_def rw_insert_def watched_def live_watchers_def)
qed (auto simp: watched_insert_def rw_insert_def)

section \<open>The methods on subscribers\<close>

lemma getOrCreate_create: "getOrCreateResourceWatchers ref w = createResourceWatchers ref w"
  by (auto simp: getOrCreateResourceWatchers_def section_defs split: option.splits)

lemma resourceWatchers_watch_insert: "resourceWatchers_watch a wa w = rw_insert a wa w"
  by (auto simp: resourceWatchers_watch_def section_defs List.insert_def fun_upd_idem)

lemma resourceWatchers_stopWatch_delete: "resourceWatchers_stopWatch a wa w = rw_delete a wa w"
  by (auto simp: resourceWatchers_stopWatch_def section_defs fun_upd_idem)

lemma watcher_watch_steps:
  obtains a w' where "createResourceWatchers ref w = (a, w')"
    and "watcher_watch wa ref w = watched_insert wa ref (rw_insert a wa w')"
  by (metis (no_types, lifting) getOrCreate_create old.prod.case old.prod.exhaust
      resourceWatchers_watch_insert watcher_watch_def)

lemma watcher_watch_subscribers:
  assumes "watches_inv w"
  shows "subscribers (watcher_watch wa ref w) r =
    (if r = ref then insert wa (subscribers w r) else subscribers w r)"
proof -
  obtain a w' where c: "createResourceWatchers ref w = (a, w')"
    and eq: "watcher_watch wa ref w = watched_insert wa ref (rw_insert a wa w')"
    by (rule watcher_watch_steps)
  show ?thesis
    using insert_subscribers [OF create_inv [OF c assms] create_registers [OF c]]
    by (simp add: eq create_subscribers [OF c assms])
qed

lemma watcher_watch_inv:
  assumes "watches_inv w" and "wa \<in> live_watchers w"
  shows "watches_inv (watcher_watch wa ref w)"
proof -
  obtain a w' where c: "createResourceWatchers ref w = (a, w')"
    and eq: "watcher_watch wa ref w = watched_insert wa ref (rw_insert a wa w')"
    by (rule watcher_watch_steps)
  show ?thesis
    using insert_watched_inv [OF create_inv [OF c assms(1)] create_registers [OF c]] assms(2) create_keeps [OF c]
    by (simp add: eq)
qed

definition stop_step :: "watcher_ptr \<Rightarrow> resourceRef \<Rightarrow> watches \<Rightarrow> watches" where
  "stop_step wa ref w =
     (case ws_watchers w ref of None \<Rightarrow> w | Some a \<Rightarrow> rw_delete a wa w)"

lemma stopAllWatches_fold: "stopAllWatches wa w = fold (stop_step wa) (wa_watchedResources (ws_watcher w wa)) w"
proof -
  have "(\<lambda>ref w. case getResourceWatchers ref w of None \<Rightarrow> w
      | Some rw \<Rightarrow> resourceWatchers_stopWatch rw wa w) = stop_step wa"
    by (simp add: stop_step_def getResourceWatchers_def resourceWatchers_stopWatch_delete fun_eq_iff
        split: option.splits)
  then show ?thesis by (simp add: stopAllWatches_def)
qed

lemma stop_step_inv: "watches_inv w \<Longrightarrow> watches_inv (stop_step wa ref w)"
  by (simp add: stop_step_def delete_inv split: option.splits)

lemma stop_step_subscribers:
  "watches_inv w \<Longrightarrow>
    subscribers (stop_step wa ref w) r = (if r = ref then subscribers w r - {wa} else subscribers w r)"
  using delete_subscribers [of w ref _ wa r]
  by (auto simp: stop_step_def subscribers_def split: option.splits)

lemma fold_stop_step:
  assumes "watches_inv w"
  shows "watches_inv (fold (stop_step wa) refs w) \<and>
    subscribers (fold (stop_step wa) refs w) r =
      (if r \<in> set refs then subscribers w r - {wa} else subscribers w r)"
  using assms
  by (induction refs arbitrary: w) (auto simp: stop_step_inv stop_step_subscribers)

text \<open>Stopping goes through the recorded resources only, and that is enough.\<close>

lemma stopAllWatches_subscribers:
  assumes "watches_inv w"
  shows "watches_inv (stopAllWatches wa w)" and "subscribers (stopAllWatches wa w) r = subscribers w r - {wa}"
  using fold_stop_step [OF assms, of wa "wa_watchedResources (ws_watcher w wa)" r]
    watches_invD(4) [OF assms, of wa r]
  by (auto simp: stopAllWatches_fold watched_def)

lemma stop_step_keeps [simp]:
  "ws_watcher (stop_step wa ref w) = ws_watcher w"
  "ws_nextWatcher (stop_step wa ref w) = ws_nextWatcher w"
  "ws_goroutines (stop_step wa ref w) = ws_goroutines w"
  by (simp_all add: stop_step_def rw_delete_def split: option.splits)

lemma stopAllWatches_keeps [simp]:
  "ws_watcher (stopAllWatches wa w) = ws_watcher w"
  "ws_nextWatcher (stopAllWatches wa w) = ws_nextWatcher w"
  "ws_goroutines (stopAllWatches wa w) = ws_goroutines w"
proof -
  have "ws_watcher (fold (stop_step wa) refs w) = ws_watcher w \<and>
      ws_nextWatcher (fold (stop_step wa) refs w) = ws_nextWatcher w \<and>
      ws_goroutines (fold (stop_step wa) refs w) = ws_goroutines w" for refs
    by (induction refs arbitrary: w) simp_all
  then show "ws_watcher (stopAllWatches wa w) = ws_watcher w"
    and "ws_nextWatcher (stopAllWatches wa w) = ws_nextWatcher w"
    and "ws_goroutines (stopAllWatches wa w) = ws_goroutines w"
    by (simp_all add: stopAllWatches_fold)
qed

lemma close_done_effect:
  assumes "watches_inv w" and "\<And>r. wa \<notin> subscribers w r" and "wa \<in> live_watchers w"
  obtains w' where "close_done wa w = Ok w'" and "watches_inv w'" and "subscribers w' = subscribers w"
    and "live_watchers w' = live_watchers w - {wa}" and "ws_goroutines w' = ws_goroutines w"
proof -
  let ?w = "w\<lparr>ws_watcher := (ws_watcher w)(wa := (ws_watcher w wa)\<lparr>wa_done := True\<rparr>)\<rparr>"
  have live: "live_watchers ?w = live_watchers w - {wa}" by (auto simp: live_watchers_def)
  have subs: "subscribers ?w = subscribers w" by (auto simp: subscribers_def fun_eq_iff split: option.splits)
  have "x \<in> subscribers ?w r \<Longrightarrow> r \<in> watched ?w x \<and> x \<in> live_watchers ?w" for r x
    using watches_invD(4,5) [OF assms(1), of x r] assms(2) [of r] by (auto simp: subs live watched_def)
  then have "watches_inv ?w" by (intro inv_of_subscribers [OF assms(1)]) simp_all
  then show thesis
    using that [of ?w] live subs assms(3) by (simp add: close_done_def live_watchers_def)
qed

lemma releaseWatch_effect:
  assumes "watches_inv w" and "wa \<in> live_watchers w"
  obtains w' where "releaseWatch wa w = Ok w'" and "watches_inv w'"
    and "subscribers w' = (\<lambda>r. subscribers w r - {wa})" and "live_watchers w' = live_watchers w - {wa}"
    and "ws_goroutines w' = ws_goroutines w"
proof -
  let ?s = "stopAllWatches wa w"
  have "live_watchers ?s = live_watchers w" by (simp add: live_watchers_def)
  moreover have "wa \<notin> subscribers ?s r" for r by (simp add: stopAllWatches_subscribers [OF assms(1)])
  ultimately obtain w' where "close_done wa ?s = Ok w'" "watches_inv w'" "subscribers w' = subscribers ?s"
    "live_watchers w' = live_watchers w - {wa}" "ws_goroutines w' = ws_goroutines w"
    using close_done_effect [OF stopAllWatches_subscribers(1) [OF assms(1)]] assms(2)
    by (metis stopAllWatches_keeps(3))
  then show thesis
    using that by (simp add: releaseWatch_def stopAllWatches_subscribers(2) [OF assms(1)] fun_eq_iff)
qed

lemma buildWatch_effect:
  assumes "watches_inv w" and "buildWatch w = (wa, w')"
  shows "watches_inv w'" and "wa \<notin> live_watchers w" and "live_watchers w' = insert wa (live_watchers w)"
    and "subscribers w' = subscribers w" and "ws_goroutines w' = ws_goroutines w"
proof -
  have wa: "wa = ws_nextWatcher w"
    and w': "w' = w\<lparr>ws_watcher := (ws_watcher w)(wa := \<lparr>wa_done = False, wa_watchedResources = []\<rparr>),
      ws_nextWatcher := Suc wa\<rparr>"
    using assms(2) by (auto simp: buildWatch_def)
  show fresh: "wa \<notin> live_watchers w" by (simp add: live_watchers_def wa)
  show live: "live_watchers w' = insert wa (live_watchers w)" by (auto simp: live_watchers_def w' wa)
  show subs: "subscribers w' = subscribers w"
    by (auto simp: subscribers_def w' fun_eq_iff split: option.splits)
  show "ws_goroutines w' = ws_goroutines w" by (simp add: w')
  have "r \<in> watched w' x \<and> x \<in> live_watchers w'" if "x \<in> subscribers w' r" for r x
  proof -
    have "x \<noteq> wa" using that fresh subs watches_invD(5) [OF assms(1)] by auto
    then show ?thesis
      using that watches_invD(4,5) [OF assms(1), of x r] by (simp add: subs live) (simp add: w' watched_def)
  qed
  then show "watches_inv w'" by (intro inv_of_subscribers [OF assms(1)]) (simp_all add: w')
qed

lemma watcher_watch_keeps:
  assumes "watches_inv w"
  shows "live_watchers (watcher_watch wa ref w) = live_watchers w"
    and "ws_goroutines (watcher_watch wa ref w) = ws_goroutines w"
proof -
  obtain a w' where c: "createResourceWatchers ref w = (a, w')"
    and eq: "watcher_watch wa ref w = watched_insert wa ref (rw_insert a wa w')"
    by (rule watcher_watch_steps)
  have "live_watchers (watched_insert wa ref (rw_insert a wa w')) = live_watchers w'"
    by (auto simp: live_watchers_def watched_insert_def rw_insert_def)
  then show "live_watchers (watcher_watch wa ref w) = live_watchers w"
    by (simp add: eq create_keeps [OF c])
  show "ws_goroutines (watcher_watch wa ref w) = ws_goroutines w"
    by (simp add: eq rw_insert_def create_keeps [OF c])
qed

lemma notifyChanged_effect:
  assumes "watches_inv w"
  shows "watches_inv (watches_notifyChanged ref w)"
    and "subscribers (watches_notifyChanged ref w) = subscribers w"
    and "live_watchers (watches_notifyChanged ref w) = live_watchers w"
    and "mset (ws_goroutines (watches_notifyChanged ref w)) =
      mset (ws_goroutines w) + image_mset (\<lambda>wa. (wa, ref)) (mset_set (subscribers w ref))"
proof -
  let ?w = "watches_notifyChanged ref w"
  define gs where "gs = ws_goroutines ?w"
  have w: "?w = w\<lparr>ws_goroutines := gs\<rparr>"
    by (simp add: gs_def watches_notifyChanged_def section_defs split: option.splits)
  show subs: "subscribers ?w = subscribers w"
    by (auto simp: w subscribers_def fun_eq_iff split: option.splits)
  show live: "live_watchers ?w = live_watchers w" by (simp add: w live_watchers_def)
  have "r \<in> watched ?w x \<and> x \<in> live_watchers ?w" if "x \<in> subscribers ?w r" for r x
    using that watches_invD(4,5) [OF assms, of x r] by (simp add: subs live) (simp add: w watched_def)
  then show "watches_inv ?w" by (intro inv_of_subscribers [OF assms]) (simp_all add: w)
  have "mset_set (set (ws_rw w a)) = mset (ws_rw w a)" if "ws_watchers w ref = Some a" for a
    using mset_set_set [OF watches_invD(3) [OF assms that]] .
  then show "mset (ws_goroutines ?w) =
      mset (ws_goroutines w) + image_mset (\<lambda>wa. (wa, ref)) (mset_set (subscribers w ref))"
    by (auto simp: watches_notifyChanged_def section_defs subscribers_def split: option.splits)
qed

section \<open>The contract of the registry\<close>

text \<open>
  The operations of a registry as its clients use them, on any state type: \<open>subs\<close> gives the watchers
  subscribed to a resource, \<open>live\<close> the watchers that were built and not released, \<open>pending\<close> the
  notifications on their way. A notification reaches each subscriber of its resource once and
  nobody else, subscribing and releasing touch one watcher, and a release never fails. \<open>subscription\<close>
  says whether a call leaves a watcher subscribed to a resource.
\<close>

datatype 'w registry_op = Build | Watch 'w resourceRef | Release 'w | Notify resourceRef

primrec subscription :: "'w \<Rightarrow> resourceRef \<Rightarrow> 'w registry_op \<Rightarrow> bool \<Rightarrow> bool" where
  "subscription wa ref Build b = b"
| "subscription wa ref (Watch wb r) b = (b \<or> wb = wa \<and> r = ref)"
| "subscription wa ref (Release wb) b = (b \<and> wb \<noteq> wa)"
| "subscription wa ref (Notify r) b = b"

locale watch_registry =
  fixes inv :: "'s \<Rightarrow> bool"
    and build :: "'s \<Rightarrow> nat \<times> 's"
    and watch :: "nat \<Rightarrow> resourceRef \<Rightarrow> 's \<Rightarrow> 's"
    and release :: "nat \<Rightarrow> 's \<Rightarrow> 's outcome"
    and notify :: "resourceRef \<Rightarrow> 's \<Rightarrow> 's"
    and subs :: "'s \<Rightarrow> resourceRef \<Rightarrow> nat set"
    and live :: "'s \<Rightarrow> nat set"
    and pending :: "'s \<Rightarrow> (nat \<times> resourceRef) multiset"
  assumes subs_live: "inv s \<Longrightarrow> subs s r \<subseteq> live s"
    and subs_finite: "inv s \<Longrightarrow> finite (subs s r)"
    and build_spec: "inv s \<Longrightarrow> build s = (wa, s') \<Longrightarrow>
      inv s' \<and> wa \<notin> live s \<and> live s' = insert wa (live s) \<and> subs s' = subs s \<and> pending s' = pending s"
    and watch_spec: "inv s \<Longrightarrow> wa \<in> live s \<Longrightarrow>
      inv (watch wa ref s) \<and> live (watch wa ref s) = live s \<and> pending (watch wa ref s) = pending s \<and>
      subs (watch wa ref s) = (subs s)(ref := insert wa (subs s ref))"
    and release_spec: "inv s \<Longrightarrow> wa \<in> live s \<Longrightarrow> \<exists>s'. release wa s = Ok s' \<and>
      inv s' \<and> live s' = live s - {wa} \<and> pending s' = pending s \<and> subs s' = (\<lambda>r. subs s r - {wa})"
    and notify_spec: "inv s \<Longrightarrow>
      inv (notify ref s) \<and> live (notify ref s) = live s \<and> subs (notify ref s) = subs s \<and>
      pending (notify ref s) = pending s + image_mset (\<lambda>wa. (wa, ref)) (mset_set (subs s ref))"
begin

lemma notify_count:
  assumes "inv s"
  shows "count (pending (notify ref s)) (wa, r) =
    count (pending s) (wa, r) + (if r = ref \<and> wa \<in> subs s ref then 1 else 0)"
proof -
  have "count (image_mset (\<lambda>wa. (wa, ref)) (mset_set A)) (wa, r) = (if r = ref \<and> wa \<in> A then 1 else 0)"
    if "finite A" for A
    using that by (induction A) auto
  then show ?thesis using notify_spec [OF assms] subs_finite [OF assms] by simp
qed

text \<open>One call on the registry; a release of a watcher that is not live is left out by \<open>legal\<close>.\<close>

primrec exec :: "nat registry_op \<Rightarrow> 's \<Rightarrow> 's" where
  "exec Build s = snd (build s)"
| "exec (Watch wa ref) s = watch wa ref s"
| "exec (Release wa) s = (case release wa s of Ok s' \<Rightarrow> s' | _ \<Rightarrow> s)"
| "exec (Notify ref) s = notify ref s"

primrec legal :: "nat registry_op list \<Rightarrow> 's \<Rightarrow> bool" where
  "legal [] s = True"
| "legal (c # cs) s =
     ((case c of Watch wa ref \<Rightarrow> wa \<in> live s | Release wa \<Rightarrow> wa \<in> live s | _ \<Rightarrow> True) \<and> legal cs (exec c s))"

lemma exec_inv:
  assumes "inv s" and "legal [c] s"
  shows "inv (exec c s)"
proof (cases c)
  case Build
  then show ?thesis using build_spec [OF assms(1), of "fst (build s)" "snd (build s)"] by simp
next
  case (Release wa)
  then obtain s' where "release wa s = Ok s'" and "inv s'"
    using release_spec [OF assms(1), of wa] assms(2) by (simp only: legal.simps registry_op.case) blast
  then show ?thesis by (simp add: Release)
next
  case (Watch wa ref)
  then show ?thesis using watch_spec [OF assms(1), of wa ref] assms(2) by simp
next
  case (Notify ref)
  then show ?thesis using notify_spec [OF assms(1), of ref] by simp
qed

lemma exec_subs:
  assumes "inv s" and "legal [c] s"
  shows "wa \<in> subs (exec c s) ref \<longleftrightarrow> subscription wa ref c (wa \<in> subs s ref)"
proof (cases c)
  case Build
  then show ?thesis using build_spec [OF assms(1), of "fst (build s)" "snd (build s)"] by simp
next
  case (Release wb)
  then obtain s' where "release wb s = Ok s'" and subs: "subs s' = (\<lambda>r. subs s r - {wb})"
    using release_spec [OF assms(1), of wb] assms(2) by (simp only: legal.simps registry_op.case) blast
  then have "subs (exec c s) ref = subs s ref - {wb}" by (simp add: Release)
  then show ?thesis by (auto simp: Release)
next
  case (Watch wb r)
  then show ?thesis using watch_spec [OF assms(1), of wb r] assms(2) by auto
next
  case (Notify r)
  then show ?thesis using notify_spec [OF assms(1), of r] by simp
qed

text \<open>The subscriptions after any legal sequence of calls are those its history says.\<close>

lemma history:
  assumes "inv s" and "legal cs s"
  shows "inv (fold exec cs s) \<and>
    (wa \<in> subs (fold exec cs s) ref \<longleftrightarrow> fold (subscription wa ref) cs (wa \<in> subs s ref))"
  using assms
proof (induction cs arbitrary: s)
  case (Cons c cs)
  have "legal [c] s" and "legal cs (exec c s)" using Cons.prems(2) by auto
  then show ?case
    using Cons.IH [of "exec c s"] exec_inv [OF Cons.prems(1)] exec_subs [OF Cons.prems(1), of c wa ref] by simp
qed simp

end

lemma watches_registry:
  "watch_registry watches_inv buildWatch watcher_watch releaseWatch watches_notifyChanged subscribers
     live_watchers (\<lambda>w. mset (ws_goroutines w))"
proof
  fix w :: watches and wa :: nat and ref r :: resourceRef and w' :: watches
  assume inv: "watches_inv w"
  show "subscribers w r \<subseteq> live_watchers w" using watches_invD(5) [OF inv] by blast
  show "finite (subscribers w r)" by (simp add: subscribers_def split: option.splits)
  show "watches_inv (watches_notifyChanged ref w) \<and>
      live_watchers (watches_notifyChanged ref w) = live_watchers w \<and>
      subscribers (watches_notifyChanged ref w) = subscribers w \<and>
      mset (ws_goroutines (watches_notifyChanged ref w)) =
      mset (ws_goroutines w) + image_mset (\<lambda>wa. (wa, ref)) (mset_set (subscribers w ref))"
    using notifyChanged_effect [OF inv] by blast
  show "watches_inv w' \<and> wa \<notin> live_watchers w \<and> live_watchers w' = insert wa (live_watchers w) \<and>
      subscribers w' = subscribers w \<and> mset (ws_goroutines w') = mset (ws_goroutines w)"
    if "buildWatch w = (wa, w')"
    using buildWatch_effect [OF inv that] by simp
  assume live: "wa \<in> live_watchers w"
  show "watches_inv (watcher_watch wa ref w) \<and> live_watchers (watcher_watch wa ref w) = live_watchers w \<and>
      mset (ws_goroutines (watcher_watch wa ref w)) = mset (ws_goroutines w) \<and>
      subscribers (watcher_watch wa ref w) = (subscribers w)(ref := insert wa (subscribers w ref))"
    using watcher_watch_inv [OF inv live] watcher_watch_keeps [OF inv] watcher_watch_subscribers [OF inv]
    by (auto simp: fun_eq_iff)
  show "\<exists>s'. releaseWatch wa w = Ok s' \<and> watches_inv s' \<and> live_watchers s' = live_watchers w - {wa} \<and>
      mset (ws_goroutines s') = mset (ws_goroutines w) \<and> subscribers s' = (\<lambda>r. subscribers w r - {wa})"
  proof -
    obtain s' where "releaseWatch wa w = Ok s'" "watches_inv s'"
      "subscribers s' = (\<lambda>r. subscribers w r - {wa})"
      "live_watchers s' = live_watchers w - {wa}" "ws_goroutines s' = ws_goroutines w"
      by (rule releaseWatch_effect [OF inv live])
    then show ?thesis by (intro exI [of _ s']) simp
  qed
qed

interpretation registry: watch_registry watches_inv buildWatch watcher_watch releaseWatch
    watches_notifyChanged subscribers live_watchers "\<lambda>w. mset (ws_goroutines w)"
  by (rule watches_registry)

section \<open>Properties\<close>

definition sample_ref :: resourceRef where
  "sample_ref = \<lparr>ref_typeURL = ''cluster'', ref_resourceName = ''default/test-xds/route/0/backend/0''\<rparr>"

lemma sample_history_legal: "registry.legal [Build, Watch 0 sample_ref] newWatches"
  by (simp add: registry.legal.simps registry.exec.simps live_watchers_def newWatches_def buildWatch_def)

text \<open>C8:
  The pointer structure of the registry implements plain subscriptions: after any sequence of builds,
  watches, releases and notifications that starts from \<^verbatim>\<open>newWatches\<close> and watches or releases live
  watchers only, a watcher is subscribed to a resource exactly when the sequence has a watch of that
  resource by that watcher with no later release of it, and the registry invariant holds.
\<close>

theorem registry_implements_subscriptions:
  assumes "registry.legal cs newWatches"
  shows "watches_inv (fold registry.exec cs newWatches) \<and>
    (wa \<in> subscribers (fold registry.exec cs newWatches) ref \<longleftrightarrow> fold (subscription wa ref) cs False)"
proof -
  have "wa \<notin> subscribers newWatches ref" by (simp add: subscribers_def newWatches_def)
  then show ?thesis using registry.history [OF watches_inv_newWatches assms, of wa ref] by simp
qed

theorem registry_implements_subscriptions_witness:
  "0 \<in> subscribers (fold registry.exec [Build, Watch 0 sample_ref] newWatches) sample_ref"
  using registry_implements_subscriptions [OF sample_history_legal, of 0 sample_ref] by simp

text \<open>C9:
  A change notification is neither lost nor duplicated nor sent to the wrong watcher: in every state a
  legal sequence of calls reaches, \<^verbatim>\<open>watches.notifyChanged\<close> starts one goroutine for each watcher
  subscribed to the changed resource, and no other.
\<close>

theorem notification_exactly_once:
  assumes "registry.legal cs newWatches"
  defines "w \<equiv> fold registry.exec cs newWatches"
  shows "count (mset (ws_goroutines (watches_notifyChanged ref w))) (wa, r) =
    count (mset (ws_goroutines w)) (wa, r) + (if r = ref \<and> wa \<in> subscribers w ref then 1 else 0)"
proof -
  have "watches_inv w" using registry.history [OF watches_inv_newWatches assms(1)] by (simp add: w_def)
  then show ?thesis by (rule registry.notify_count)
qed

theorem notification_exactly_once_witness:
  "count (mset (ws_goroutines (watches_notifyChanged sample_ref
      (fold registry.exec [Build, Watch 0 sample_ref] newWatches)))) (0, sample_ref) = 1"
  using notification_exactly_once [OF sample_history_legal, of sample_ref 0 sample_ref]
    registry.history [OF watches_inv_newWatches sample_history_legal, of 0 sample_ref]
  by (simp add: registry.exec.simps subscribers_def newWatches_def buildWatch_def watcher_watch_def
      getOrCreateResourceWatchers_def resourceWatchers_watch_def section_defs)

text \<open>
  Releasing a watcher leaks nothing: the cleanup function of a live watcher never panics on a closed
  channel, it removes the watcher from every resource, so that no later notification starts a
  goroutine for it, it leaves the subscriptions of every other watcher as they were, and every
  goroutine still blocked on the watcher can return.
\<close>

lemma release_leaks_nothing:
  assumes "registry.legal cs newWatches"
    and "wa \<in> live_watchers (fold registry.exec cs newWatches)"
  shows "\<exists>w'. releaseWatch wa (fold registry.exec cs newWatches) = Ok w' \<and>
    (\<forall>ref. subscribers w' ref = subscribers (fold registry.exec cs newWatches) ref - {wa}) \<and>
    (\<forall>ref r. count (mset (ws_goroutines (watches_notifyChanged ref w'))) (wa, r) =
       count (mset (ws_goroutines w')) (wa, r)) \<and>
    (\<forall>ctxDone receiving. WatcherDone \<in> set (watcher_notifyChanged ctxDone (wa_done (ws_watcher w' wa)) receiving))"
proof -
  let ?w = "fold registry.exec cs newWatches"
  have inv: "watches_inv ?w" using registry.history [OF watches_inv_newWatches assms(1)] by simp
  obtain w' where w': "releaseWatch wa ?w = Ok w'" "watches_inv w'"
    "subscribers w' = (\<lambda>r. subscribers ?w r - {wa})" "live_watchers w' = live_watchers ?w - {wa}"
    "ws_goroutines w' = ws_goroutines ?w"
    by (rule releaseWatch_effect [OF inv assms(2)])
  moreover have "wa_done (ws_watcher w' wa)"
    using w'(1) by (auto simp: releaseWatch_def close_done_def split: if_splits)
  ultimately show ?thesis
    using registry.notify_count [OF w'(2), of _ wa]
    by (intro exI [of _ w']) (simp add: watcher_notifyChanged_def)
qed

end
