(* ===== verification/Settling.thy ===== *)
theory Settling
  imports Main
begin

text \<open>
  Step relations that come to rest. The locale \<open>settling\<close> is what a component shows of its steps: an
  invariant they keep, an order in which every step descends, and a step to take as long as the state is
  not settled. Its lemmas are what a caller may rely on: no run goes on for ever, a run that can go no
  further is settled, and a settled state can be reached. \<open>bounded_settling\<close> has a number for the work
  that is left, which also bounds the length of a run. The queue's workers, the server, the controller's
  command, the goroutine of a request and the controller as a whole are interpretations.
\<close>

locale settling =
  fixes step :: "'s \<Rightarrow> 's \<Rightarrow> bool"
    and state_ok :: "'s \<Rightarrow> bool"
    and descends :: "('s \<times> 's) set"
    and settled :: "'s \<Rightarrow> bool"
  assumes step_ok: "state_ok s \<Longrightarrow> step s t \<Longrightarrow> state_ok t"
    and step_descends: "state_ok s \<Longrightarrow> step s t \<Longrightarrow> (t, s) \<in> descends"
    and wf_descends: "wf descends"
    and progress: "state_ok s \<Longrightarrow> \<not> settled s \<Longrightarrow> \<exists>t. step s t"
begin

lemma run_ok: "step\<^sup>*\<^sup>* s t \<Longrightarrow> state_ok s \<Longrightarrow> state_ok t"
  by (induction rule: rtranclp_induct) (auto intro: step_ok)

lemma stuck_is_settled: "step\<^sup>*\<^sup>* s t \<Longrightarrow> state_ok s \<Longrightarrow> (\<And>u. \<not> step t u) \<Longrightarrow> settled t"
  using run_ok progress by blast

lemma no_endless_run:
  assumes "state_ok (f 0)"
  shows "\<exists>i. \<not> step (f i) (f (Suc i))"
proof (rule ccontr)
  assume "\<not> ?thesis"
  then have steps: "step (f i) (f (Suc i))" for i by blast
  have ok: "state_ok (f i)" for i by (induction i) (use assms steps step_ok in blast)+
  have "(f (Suc i), f i) \<in> descends" for i using step_descends ok steps by blast
  then show False using wf_descends by (auto simp: wf_iff_no_infinite_down_chain)
qed

lemma comes_to_rest: "state_ok s \<Longrightarrow> \<exists>t. step\<^sup>*\<^sup>* s t \<and> (\<forall>u. \<not> step t u)"
proof (induction s rule: wf_induct_rule [OF wf_descends])
  case (1 s)
  show ?case
  proof (cases "\<exists>t. step s t")
    case True
    then obtain t where t: "step s t" by blast
    then obtain u where "step\<^sup>*\<^sup>* t u" and "\<forall>v. \<not> step u v"
      using 1(1) [OF step_descends step_ok] 1(2) by blast
    then show ?thesis using t by (blast intro: converse_rtranclp_into_rtranclp)
  qed blast
qed

lemma settles: "state_ok s \<Longrightarrow> \<exists>t. step\<^sup>*\<^sup>* s t \<and> state_ok t \<and> settled t"
  using comes_to_rest run_ok stuck_is_settled by blast

end

locale bounded_settling =
  fixes step :: "'s \<Rightarrow> 's \<Rightarrow> bool"
    and state_ok :: "'s \<Rightarrow> bool"
    and work :: "'s \<Rightarrow> nat"
    and settled :: "'s \<Rightarrow> bool"
  assumes step_keeps: "state_ok s \<Longrightarrow> step s t \<Longrightarrow> state_ok t"
    and step_works: "state_ok s \<Longrightarrow> step s t \<Longrightarrow> work t < work s"
    and can_step: "state_ok s \<Longrightarrow> \<not> settled s \<Longrightarrow> \<exists>t. step s t"

sublocale bounded_settling \<subseteq> settling step state_ok "measure work" settled
  by unfold_locales (auto intro: step_keeps step_works can_step)

context bounded_settling
begin

text \<open>A run of \<open>k\<close> steps does at least that much work.\<close>

lemma run_works: "(step ^^ k) s t \<Longrightarrow> state_ok s \<Longrightarrow> k + work t \<le> work s \<and> state_ok t"
proof (induction k arbitrary: t)
  case (Suc k)
  then obtain u where "(step ^^ k) s u" and "step u t" by auto
  with Suc show ?case using step_works step_ok by fastforce
qed simp

lemma run_bounded: "(step ^^ k) s t \<Longrightarrow> state_ok s \<Longrightarrow> k \<le> work s"
  using run_works by fastforce

lemma stuck_run_is_settled: "(step ^^ k) s t \<Longrightarrow> state_ok s \<Longrightarrow> (\<And>u. \<not> step t u) \<Longrightarrow> settled t"
  using run_works progress by blast

text \<open>It settles within the work that is left.\<close>

lemma settles_within: "state_ok s \<Longrightarrow> \<exists>k t. k \<le> work s \<and> (step ^^ k) s t \<and> settled t"
  using settles run_bounded by (meson rtranclp_imp_relpowp)

end

end
