(* ===== verification/Config_Watcher.thy ===== *)
theory Config_Watcher
  imports Listeners Endpoints Watchers Settling
begin

text \<open>
  The config watcher of \<^verbatim>\<open>gtc/cache.go\<close>, one goroutine per discovery request: it subscribes to the
  resources of the request, sends them when the client lacks one of them, and then answers every
  change notification until its context is cancelled. The goroutine is a state machine,
  \<open>watch_step\<close>, whose transitions run the code between two points where it can block or where the rest of
  the program can be seen to act; the transitions of \<open>Environment\<close> are what happens meanwhile. A
  resolution reads the caches one object at a time while they change: it lasts from the step that
  starts it (\<open>Subscribed\<close> for the whole request, \<open>Changed\<close> for one resource) to the one that ends it
  (\<open>Decide\<close>, \<open>Resolve\<close>), and \<open>resolve\<close> is the resolver on what its reads returned.
\<close>

record cacheResponse =
  cr_req :: DiscoveryRequest
  cr_resp :: resolveResponse

text \<open>The stream state of go-control-plane: the names the client already has, by type URL.\<close>

type_synonym StreamState = "string \<Rightarrow> string list"

primrec hasUnknownName :: "string list \<Rightarrow> string list \<Rightarrow> bool" where
  "hasUnknownName known [] = False"
| "hasUnknownName known (n # ns) = (if n \<notin> set known then True else hasUnknownName known ns)"

definition hasResourceDiff :: "StreamState \<Rightarrow> DiscoveryRequest \<Rightarrow> bool" where
  "hasResourceDiff streamState req = hasUnknownName (streamState (dq_TypeUrl req)) (dq_ResourceNames req)"

definition newConfigWatcher :: "xdslib \<Rightarrow> slice_lister \<Rightarrow> listener_cache \<Rightarrow> resourceResolver" where
  "newConfigWatcher lib endpointSlicesLister grpcListenersLister =
     resourceTypeResolver_resolveResource
       [ListenerType lib \<mapsto> listenerHandler_resolveResource lib grpcListenersLister,
        ClusterType lib \<mapsto> clusterHandler_resolveResource lib grpcListenersLister,
        EndpointType lib \<mapsto> endpointHandler_resolveResource lib grpcListenersLister endpointSlicesLister]"



definition GetVersion :: "cacheResponse \<Rightarrow> string outcome" where
  "GetVersion c = Ok (versionInfo (cr_resp c))"

text \<open>The delta protocol is refused: the cancel function is nil.\<close>

definition CreateDeltaWatch :: "(unit \<Rightarrow> unit) option" where
  "CreateDeltaWatch = None"

section \<open>The watch goroutine\<close>

datatype phase =
    Subscribing "string list"
  | Deciding
  | Sending cacheResponse
  | Waiting
  | Resolving resourceRef
  | Exited
  | Crashed go_panic

text \<open>
  \<open>wr_room\<close> is the number of responses the stream's channel takes before a send blocks, its free places and
  waiting receivers; \<open>wr_sent\<close> are the responses it has taken.
\<close>

record watch_run =
  wr_watches :: watches
  wr_watcher :: watcher_ptr
  wr_phase :: phase
  wr_ctxDone :: bool
  wr_room :: nat
  wr_sent :: "cacheResponse list"

text \<open>
  The goroutine is started by \<^verbatim>\<open>CreateWatch\<close>, with a channel that has room for \<open>room\<close> responses, and begins by
  building its watcher.
\<close>

definition CreateWatch :: "nat \<Rightarrow> watches \<Rightarrow> DiscoveryRequest \<Rightarrow> watch_run" where
  "CreateWatch room w req =
     (case buildWatch w of (wa, w) \<Rightarrow>
        \<lparr>wr_watches = w, wr_watcher = wa, wr_phase = Subscribing (dq_ResourceNames req),
         wr_ctxDone = False, wr_room = room, wr_sent = []\<rparr>)"

definition req_ref :: "DiscoveryRequest \<Rightarrow> string \<Rightarrow> resourceRef" where
  "req_ref req n = \<lparr>ref_typeURL = dq_TypeUrl req, ref_resourceName = n\<rparr>"

text \<open>The resolution of the whole request, which drops an error, and the one of a changed resource.\<close>

definition initial_phase :: "resourceResolver \<Rightarrow> StreamState \<Rightarrow> DiscoveryRequest \<Rightarrow> phase" where
  "initial_phase resolve streamState req =
     (if hasResourceDiff streamState req then
        case resolve \<lparr>rq_resourceNames = dq_ResourceNames req, rq_typeUrl = dq_TypeUrl req,
                      rq_nodeInfo = dq_Node req\<rparr> of
          Ok resp \<Rightarrow> Sending \<lparr>cr_req = req, cr_resp = resp\<rparr>
        | Err e \<Rightarrow> Waiting
        | Panic p \<Rightarrow> Crashed p
      else Waiting)"

definition changed_phase :: "resourceResolver \<Rightarrow> DiscoveryRequest \<Rightarrow> resourceRef \<Rightarrow> phase" where
  "changed_phase resolve req ref =
     (case resolve \<lparr>rq_resourceNames = [ref_resourceName ref], rq_typeUrl = ref_typeURL ref,
                    rq_nodeInfo = dq_Node req\<rparr> of
        Ok resp \<Rightarrow> Sending \<lparr>cr_req = req, cr_resp = resp\<rparr>
      | Err e \<Rightarrow> Waiting
      | Panic p \<Rightarrow> Crashed p)"

text \<open>
  \<^verbatim>\<open>sendResponse\<close> selects between the cancelled context and the stream taking the response, the loop
  between the cancelled context and a notification: a send waits until the channel has room, and only a
  cancellation releases it otherwise. The channel \<^verbatim>\<open>changes\<close> is never closed.
\<close>

inductive watch_step ::
    "resourceResolver \<Rightarrow> StreamState \<Rightarrow> DiscoveryRequest \<Rightarrow> watch_run \<Rightarrow> watch_run \<Rightarrow> bool"
  for resolve streamState req where
  Subscribe: "wr_phase s = Subscribing (n # ns) \<Longrightarrow>
    watch_step resolve streamState req s
      (s\<lparr>wr_watches := watcher_watch (wr_watcher s) (req_ref req n) (wr_watches s), wr_phase := Subscribing ns\<rparr>)"
| Subscribed: "wr_phase s = Subscribing [] \<Longrightarrow>
    watch_step resolve streamState req s (s\<lparr>wr_phase := Deciding\<rparr>)"
| Decide: "wr_phase s = Deciding \<Longrightarrow>
    watch_step resolve streamState req s (s\<lparr>wr_phase := initial_phase resolve streamState req\<rparr>)"
| Sent: "wr_phase s = Sending r \<Longrightarrow> wr_room s = Suc room \<Longrightarrow>
    watch_step resolve streamState req s (s\<lparr>wr_sent := wr_sent s @ [r], wr_room := room, wr_phase := Waiting\<rparr>)"
| SendCancelled: "wr_phase s = Sending r \<Longrightarrow> wr_ctxDone s \<Longrightarrow>
    watch_step resolve streamState req s (s\<lparr>wr_phase := Waiting\<rparr>)"
| Changed: "wr_phase s = Waiting \<Longrightarrow> (wr_watcher s, ref) \<in> set (ws_goroutines (wr_watches s)) \<Longrightarrow>
    watch_step resolve streamState req s
      (s\<lparr>wr_watches := (wr_watches s)\<lparr>ws_goroutines := remove1 (wr_watcher s, ref) (ws_goroutines (wr_watches s))\<rparr>,
         wr_phase := Resolving ref\<rparr>)"
| Resolve: "wr_phase s = Resolving ref \<Longrightarrow>
    watch_step resolve streamState req s (s\<lparr>wr_phase := changed_phase resolve req ref\<rparr>)"
| Exit: "wr_phase s = Waiting \<Longrightarrow> wr_ctxDone s \<Longrightarrow> releaseWatch (wr_watcher s) (wr_watches s) = Ok w \<Longrightarrow>
    watch_step resolve streamState req s (s\<lparr>wr_watches := w, wr_phase := Exited\<rparr>)"

text \<open>
  What happens around the goroutine: the stream cancels it or makes room for a response, the registry serves the other watchers
  and the notifiers, and a notification goroutine returns (it was delivered to another watcher, or
  its own context or its watcher is done).
\<close>

inductive env_step :: "watch_run \<Rightarrow> watch_run \<Rightarrow> bool" where
  Cancel: "env_step s (s\<lparr>wr_ctxDone := True\<rparr>)"
| Receive: "env_step s (s\<lparr>wr_room := Suc (wr_room s)\<rparr>)"
| Registry: "registry.legal [c] (wr_watches s) \<Longrightarrow>
    c \<noteq> Release (wr_watcher s) \<Longrightarrow> (\<forall>ref. c \<noteq> Watch (wr_watcher s) ref) \<Longrightarrow>
    env_step s (s\<lparr>wr_watches := registry.exec c (wr_watches s)\<rparr>)"
| Returned: "env_step s
    (s\<lparr>wr_watches := (wr_watches s)\<lparr>ws_goroutines := remove1 p (ws_goroutines (wr_watches s))\<rparr>\<rparr>)"

text \<open>
  The states a goroutine for \<open>req\<close> reaches from a registry that satisfies its invariant, with
  resolvers taken from \<open>R\<close>, one for each resolution.
\<close>

inductive watch_reach :: "resourceResolver set \<Rightarrow> StreamState \<Rightarrow> DiscoveryRequest \<Rightarrow> watch_run \<Rightarrow> bool"
  for R streamState req where
  Start: "watches_inv w \<Longrightarrow> (\<forall>wa ref. (wa, ref) \<in> set (ws_goroutines w) \<longrightarrow> wa < ws_nextWatcher w) \<Longrightarrow>
    watch_reach R streamState req (CreateWatch room w req)"
| Step: "watch_reach R streamState req s \<Longrightarrow> resolve \<in> R \<Longrightarrow> watch_step resolve streamState req s t \<Longrightarrow>
    watch_reach R streamState req t"
| Environment: "watch_reach R streamState req s \<Longrightarrow> env_step s t \<Longrightarrow> watch_reach R streamState req t"

inductive_cases watch_stepE: "watch_step resolve streamState req s t"
inductive_cases env_stepE: "env_step s t"

lemma hasResourceDiff_iff:
  "hasResourceDiff known req \<longleftrightarrow> (\<exists>n \<in> set (dq_ResourceNames req). n \<notin> set (known (dq_TypeUrl req)))"
proof -
  have "hasUnknownName ks ns \<longleftrightarrow> (\<exists>n \<in> set ns. n \<notin> set ks)" for ks ns by (induction ns) auto
  then show ?thesis by (simp add: hasResourceDiff_def)
qed

section \<open>What others do to a watcher\<close>

lemma watcher_watch_next: "ws_nextWatcher (watcher_watch wa ref w) = ws_nextWatcher w"
proof -
  obtain a w' where c: "createResourceWatchers ref w = (a, w')"
    and eq: "watcher_watch wa ref w = watched_insert wa ref (rw_insert a wa w')"
    by (rule watcher_watch_steps)
  have "ws_nextWatcher w' = ws_nextWatcher w" by (rule create_cases [OF c]) simp_all
  then show ?thesis by (simp add: eq watched_insert_def rw_insert_def)
qed

lemma releaseWatch_next: "releaseWatch wa w = Ok w' \<Longrightarrow> ws_nextWatcher w' = ws_nextWatcher w"
  by (auto simp: releaseWatch_def close_done_def split: if_splits)

lemma notifyChanged_next: "ws_nextWatcher (watches_notifyChanged ref w) = ws_nextWatcher w"
  by (simp add: watches_notifyChanged_def section_defs split: option.splits)

definition untouched :: "watcher_ptr \<Rightarrow> watches \<Rightarrow> watches \<Rightarrow> bool" where
  "untouched wa w w' \<longleftrightarrow>
     watches_inv w' \<and> wa < ws_nextWatcher w' \<and> (wa \<in> live_watchers w' \<longleftrightarrow> wa \<in> live_watchers w) \<and>
     (\<forall>ref. wa \<in> subscribers w' ref \<longleftrightarrow> wa \<in> subscribers w ref) \<and>
     (\<forall>ref. (wa, ref) \<in> set (ws_goroutines w') \<longrightarrow>
        (wa, ref) \<in> set (ws_goroutines w) \<or> wa \<in> subscribers w ref)"

lemma others_untouched:
  assumes inv: "watches_inv w" and wa: "wa < ws_nextWatcher w" and legal: "registry.legal [c] w"
    and "c \<noteq> Release wa" and "\<forall>ref. c \<noteq> Watch wa ref"
  shows "untouched wa w (registry.exec c w)"
proof (cases c)
  case Build
  obtain wb w' where b: "buildWatch w = (wb, w')" by fastforce
  then have "wb = ws_nextWatcher w" and "ws_nextWatcher w' = Suc (ws_nextWatcher w)"
    by (auto simp: buildWatch_def)
  then show ?thesis
    using buildWatch_effect [OF inv b] wa by (auto simp: untouched_def Build registry.exec.simps b)
next
  case (Watch wb ref)
  then have "wb \<in> live_watchers w" and "wb \<noteq> wa" using legal assms(5) by (auto simp: registry.legal.simps)
  then show ?thesis
    using registry.watch_spec [OF inv, of wb ref] watcher_watch_keeps [OF inv, of wb ref] wa
    by (auto simp: untouched_def Watch registry.exec.simps watcher_watch_next)
next
  case (Release wb)
  then have live: "wb \<in> live_watchers w" and "wb \<noteq> wa" using legal assms(4) by (auto simp: registry.legal.simps)
  obtain w' where "releaseWatch wb w = Ok w'" "watches_inv w'" "subscribers w' = (\<lambda>r. subscribers w r - {wb})"
    "live_watchers w' = live_watchers w - {wb}" "ws_goroutines w' = ws_goroutines w"
    by (rule releaseWatch_effect [OF inv live])
  then show ?thesis
    using \<open>wb \<noteq> wa\<close> wa releaseWatch_next [of wb w w'] by (simp add: untouched_def Release registry.exec.simps)
next
  case (Notify ref)
  have "(wa, r) \<in> set (ws_goroutines w) \<or> wa \<in> subscribers w r"
    if "(wa, r) \<in> set (ws_goroutines (watches_notifyChanged ref w))" for r
  proof -
    have "0 < count (mset (ws_goroutines (watches_notifyChanged ref w))) (wa, r)" using that by simp
    then show ?thesis using registry.notify_count [OF inv, of ref wa r] by (simp split: if_splits)
  qed
  then show ?thesis
    using registry.notify_spec [OF inv, of ref] wa
    by (simp add: untouched_def Notify registry.exec.simps notifyChanged_next)
qed

lemma fewer_goroutines:
  assumes "watches_inv w" and "set gs \<subseteq> set (ws_goroutines w)" and "wa < ws_nextWatcher w"
  shows "untouched wa w (w\<lparr>ws_goroutines := gs\<rparr>)"
proof -
  let ?w = "w\<lparr>ws_goroutines := gs\<rparr>"
  have subs: "subscribers ?w = subscribers w" and live: "live_watchers ?w = live_watchers w"
    by (auto simp: subscribers_def live_watchers_def fun_eq_iff split: option.splits)
  have "watches_inv ?w"
    using watches_invD(4,5) [OF assms(1)]
    by (intro inv_of_subscribers [OF assms(1)]) (auto simp: subs live, auto simp: watched_def)
  then show ?thesis using assms(2,3) by (auto simp: untouched_def subs live)
qed

section \<open>The invariant of the goroutine\<close>

definition answers :: "resourceResolver set \<Rightarrow> DiscoveryRequest \<Rightarrow> cacheResponse \<Rightarrow> bool" where
  "answers R req r \<longleftrightarrow> cr_req r = req \<and>
     (\<exists>resolve \<in> R. \<exists>names. resolve \<lparr>rq_resourceNames = names, rq_typeUrl = dq_TypeUrl req,
        rq_nodeInfo = dq_Node req\<rparr> = Ok (cr_resp r) \<and>
        (names = dq_ResourceNames req \<or> (\<exists>n \<in> set (dq_ResourceNames req). names = [n])))"

definition subscribed_to :: "DiscoveryRequest \<Rightarrow> string set \<Rightarrow> watch_run \<Rightarrow> bool" where
  "subscribed_to req names s \<longleftrightarrow> (\<forall>n \<in> names. wr_watcher s \<in> subscribers (wr_watches s) (req_ref req n))"

definition registry_ok :: "DiscoveryRequest \<Rightarrow> watch_run \<Rightarrow> bool" where
  "registry_ok req s \<longleftrightarrow>
     watches_inv (wr_watches s) \<and> wr_watcher s < ws_nextWatcher (wr_watches s) \<and>
     (wr_watcher s \<in> live_watchers (wr_watches s) \<longleftrightarrow> wr_phase s \<noteq> Exited) \<and>
     (\<forall>ref. wr_watcher s \<in> subscribers (wr_watches s) ref \<or>
            (wr_watcher s, ref) \<in> set (ws_goroutines (wr_watches s)) \<longrightarrow>
        (\<exists>n \<in> set (dq_ResourceNames req). ref = req_ref req n))"

definition phase_ok :: "resourceResolver set \<Rightarrow> DiscoveryRequest \<Rightarrow> watch_run \<Rightarrow> bool" where
  "phase_ok R req s \<longleftrightarrow>
     (case wr_phase s of
        Subscribing ns \<Rightarrow> \<exists>pre. dq_ResourceNames req = pre @ ns \<and> subscribed_to req (set pre) s
      | Deciding \<Rightarrow> subscribed_to req (set (dq_ResourceNames req)) s
      | Sending r \<Rightarrow> subscribed_to req (set (dq_ResourceNames req)) s \<and> answers R req r
      | Waiting \<Rightarrow> subscribed_to req (set (dq_ResourceNames req)) s
      | Resolving ref \<Rightarrow> subscribed_to req (set (dq_ResourceNames req)) s \<and>
          (\<exists>n \<in> set (dq_ResourceNames req). ref = req_ref req n)
      | _ \<Rightarrow> True)"

definition watch_inv :: "resourceResolver set \<Rightarrow> DiscoveryRequest \<Rightarrow> watch_run \<Rightarrow> bool" where
  "watch_inv R req s \<longleftrightarrow>
     registry_ok req s \<and> phase_ok R req s \<and> (\<forall>r \<in> set (wr_sent s). answers R req r)"

lemma watch_inv_untouched:
  assumes "watch_inv R req s" and "untouched (wr_watcher s) (wr_watches s) w"
  shows "watch_inv R req (s\<lparr>wr_watches := w\<rparr>)"
proof -
  have "subscribed_to req N (s\<lparr>wr_watches := w\<rparr>) = subscribed_to req N s" for N
    using assms(2) by (simp add: subscribed_to_def untouched_def)
  then have "phase_ok R req (s\<lparr>wr_watches := w\<rparr>)"
    using assms(1) by (simp add: watch_inv_def phase_ok_def split: phase.splits)
  moreover have "registry_ok req (s\<lparr>wr_watches := w\<rparr>)"
    using assms by (auto simp: watch_inv_def registry_ok_def untouched_def)
  ultimately show ?thesis using assms(1) by (simp add: watch_inv_def)
qed

lemma watch_inv_phase:
  assumes "watch_inv R req s" and "wr_phase s \<noteq> Exited" and "ph \<noteq> Exited"
    and "phase_ok R req (s\<lparr>wr_phase := ph\<rparr>)"
  shows "watch_inv R req (s\<lparr>wr_phase := ph\<rparr>)"
  using assms by (simp add: watch_inv_def registry_ok_def)

lemma phase_ok_simps:
  "phase_ok R req (s\<lparr>wr_phase := Subscribing ns\<rparr>) \<longleftrightarrow>
     (\<exists>pre. dq_ResourceNames req = pre @ ns \<and> subscribed_to req (set pre) s)"
  "phase_ok R req (s\<lparr>wr_phase := Deciding\<rparr>) \<longleftrightarrow> subscribed_to req (set (dq_ResourceNames req)) s"
  "phase_ok R req (s\<lparr>wr_phase := Waiting\<rparr>) \<longleftrightarrow> subscribed_to req (set (dq_ResourceNames req)) s"
  "phase_ok R req (s\<lparr>wr_phase := Sending r\<rparr>) \<longleftrightarrow>
     subscribed_to req (set (dq_ResourceNames req)) s \<and> answers R req r"
  "phase_ok R req (s\<lparr>wr_phase := Resolving ref\<rparr>) \<longleftrightarrow>
     subscribed_to req (set (dq_ResourceNames req)) s \<and> (\<exists>n \<in> set (dq_ResourceNames req). ref = req_ref req n)"
  "phase_ok R req (s\<lparr>wr_phase := Crashed p\<rparr>)"
  "phase_ok R req (s\<lparr>wr_phase := Exited\<rparr>)"
  by (simp_all add: phase_ok_def subscribed_to_def)

lemma watch_inv_CreateWatch:
  assumes "watches_inv w" and "\<forall>wa ref. (wa, ref) \<in> set (ws_goroutines w) \<longrightarrow> wa < ws_nextWatcher w"
  shows "watch_inv R req (CreateWatch room w req)"
proof -
  obtain wa w' where b: "buildWatch w = (wa, w')" by fastforce
  have wa: "wa = ws_nextWatcher w" "ws_nextWatcher w' = Suc wa" using b by (auto simp: buildWatch_def)
  note eff = buildWatch_effect [OF assms(1) b]
  have "wa \<notin> subscribers w' ref" for ref using eff(2,4) watches_invD(5) [OF assms(1)] by auto
  moreover have "(wa, ref) \<notin> set (ws_goroutines w')" for ref using assms(2) eff(5) wa by auto
  ultimately have "registry_ok req (CreateWatch room w req)"
    using eff wa by (simp add: registry_ok_def CreateWatch_def b)
  then show ?thesis by (simp add: watch_inv_def phase_ok_def subscribed_to_def CreateWatch_def b)
qed

lemma watch_inv_subscribe:
  assumes inv: "watch_inv R req s" and ph: "wr_phase s = Subscribing (n # ns)"
  shows "watch_inv R req
    (s\<lparr>wr_watches := watcher_watch (wr_watcher s) (req_ref req n) (wr_watches s), wr_phase := Subscribing ns\<rparr>)"
proof -
  let ?w = "wr_watches s" and ?wa = "wr_watcher s"
  let ?w' = "watcher_watch ?wa (req_ref req n) ?w"
  have reg: "registry_ok req s" using inv by (simp add: watch_inv_def)
  then have "watches_inv ?w" and live: "?wa \<in> live_watchers ?w" by (simp_all add: registry_ok_def ph)
  note spec = registry.watch_spec [OF this, of "req_ref req n"] watcher_watch_keeps(2) [OF \<open>watches_inv ?w\<close>]
  obtain pre where pre: "dq_ResourceNames req = pre @ n # ns" and sub: "subscribed_to req (set pre) s"
    using inv by (auto simp: watch_inv_def phase_ok_def ph)
  have "registry_ok req (s\<lparr>wr_watches := ?w', wr_phase := Subscribing ns\<rparr>)"
    using reg spec live pre by (auto simp: registry_ok_def watcher_watch_next split: if_splits)
  moreover have "subscribed_to req (set (pre @ [n])) (s\<lparr>wr_watches := ?w', wr_phase := Subscribing ns\<rparr>)"
    using sub spec by (auto simp: subscribed_to_def)
  then have "phase_ok R req (s\<lparr>wr_watches := ?w', wr_phase := Subscribing ns\<rparr>)"
    using pre by (auto simp: phase_ok_def intro!: exI [of _ "pre @ [n]"])
  ultimately show ?thesis using inv by (simp add: watch_inv_def)
qed

lemma initial_phase_ok:
  assumes "resolve \<in> R" and "subscribed_to req (set (dq_ResourceNames req)) s"
  shows "phase_ok R req (s\<lparr>wr_phase := initial_phase resolve known req\<rparr>)"
  using assms by (auto simp: initial_phase_def phase_ok_simps answers_def split: outcome.splits)

lemma changed_phase_ok:
  assumes "resolve \<in> R" and "subscribed_to req (set (dq_ResourceNames req)) s"
    and "n \<in> set (dq_ResourceNames req)"
  shows "phase_ok R req (s\<lparr>wr_phase := changed_phase resolve req (req_ref req n)\<rparr>)"
  using assms by (auto simp: changed_phase_def phase_ok_simps answers_def req_ref_def split: outcome.splits)

lemma phases_not_exited:
  "initial_phase resolve known req \<noteq> Exited" "changed_phase resolve req ref \<noteq> Exited"
  by (auto simp: initial_phase_def changed_phase_def split: outcome.splits)

lemma watch_inv_exit:
  assumes inv: "watch_inv R req s" and "wr_phase s = Waiting"
    and rel: "releaseWatch (wr_watcher s) (wr_watches s) = Ok w"
  shows "watch_inv R req (s\<lparr>wr_watches := w, wr_phase := Exited\<rparr>) \<and>
    (\<forall>ref. wr_watcher s \<notin> subscribers w ref)"
proof -
  have reg: "registry_ok req s" using inv by (simp add: watch_inv_def)
  then have inv_w: "watches_inv (wr_watches s)" and live: "wr_watcher s \<in> live_watchers (wr_watches s)"
    using assms(2) by (simp_all add: registry_ok_def)
  obtain w' where w': "releaseWatch (wr_watcher s) (wr_watches s) = Ok w'" "watches_inv w'"
    "subscribers w' = (\<lambda>r. subscribers (wr_watches s) r - {wr_watcher s})"
    "live_watchers w' = live_watchers (wr_watches s) - {wr_watcher s}"
    "ws_goroutines w' = ws_goroutines (wr_watches s)"
    by (rule releaseWatch_effect [OF inv_w live])
  have "w' = w" using w'(1) rel by simp
  then show ?thesis
    using inv reg w' releaseWatch_next [OF rel] by (auto simp: watch_inv_def registry_ok_def phase_ok_simps phase_ok_def)
qed

lemma watch_inv_step:
  assumes inv: "watch_inv R req s" and "resolve \<in> R" and "watch_step resolve known req s t"
  shows "watch_inv R req t"
  using assms(3)
proof (cases rule: watch_step.cases)
  case (Subscribe n ns)
  then show ?thesis using watch_inv_subscribe [OF inv] by simp
next
  case Subscribed
  then have "subscribed_to req (set (dq_ResourceNames req)) s"
    using inv by (auto simp: watch_inv_def phase_ok_def)
  then show ?thesis using watch_inv_phase [OF inv, of Deciding] Subscribed by (simp add: phase_ok_simps)
next
  case Decide
  then have "subscribed_to req (set (dq_ResourceNames req)) s" using inv by (simp add: watch_inv_def phase_ok_def)
  from watch_inv_phase [OF inv _ phases_not_exited(1) initial_phase_ok [OF assms(2) this]]
  show ?thesis using Decide by simp
next
  case (Sent r)
  then have "subscribed_to req (set (dq_ResourceNames req)) s" and r: "answers R req r"
    using inv by (simp_all add: watch_inv_def phase_ok_def)
  then have "watch_inv R req (s\<lparr>wr_phase := Waiting\<rparr>)"
    using watch_inv_phase [OF inv, of Waiting] Sent by (simp add: phase_ok_simps)
  then show ?thesis
    using r Sent(1) by (auto simp: watch_inv_def registry_ok_def phase_ok_def subscribed_to_def)
next
  case (SendCancelled r)
  then have "subscribed_to req (set (dq_ResourceNames req)) s" using inv by (simp add: watch_inv_def phase_ok_def)
  then show ?thesis using watch_inv_phase [OF inv, of Waiting] SendCancelled by (simp add: phase_ok_simps)
next
  case (Changed ref)
  let ?w = "(wr_watches s)\<lparr>ws_goroutines := remove1 (wr_watcher s, ref) (ws_goroutines (wr_watches s))\<rparr>"
  have reg: "registry_ok req s" using inv by (simp add: watch_inv_def)
  then obtain n where n: "n \<in> set (dq_ResourceNames req)" and ref: "ref = req_ref req n"
    using Changed(3) by (auto simp: registry_ok_def)
  have "set (remove1 (wr_watcher s, ref) (ws_goroutines (wr_watches s))) \<subseteq> set (ws_goroutines (wr_watches s))"
    by (rule set_remove1_subset)
  then have "untouched (wr_watcher s) (wr_watches s) ?w"
    using reg by (intro fewer_goroutines) (auto simp: registry_ok_def)
  from watch_inv_untouched [OF inv this] have inv': "watch_inv R req (s\<lparr>wr_watches := ?w\<rparr>)" .
  then have "subscribed_to req (set (dq_ResourceNames req)) (s\<lparr>wr_watches := ?w\<rparr>)"
    using Changed(2) by (simp add: watch_inv_def phase_ok_def)
  then have "phase_ok R req (s\<lparr>wr_watches := ?w, wr_phase := Resolving ref\<rparr>)"
    using n ref by (auto simp: phase_ok_def subscribed_to_def)
  from watch_inv_phase [OF inv' _ _ this] show ?thesis using Changed by simp
next
  case (Resolve ref)
  then obtain n where "subscribed_to req (set (dq_ResourceNames req)) s"
    and "n \<in> set (dq_ResourceNames req)" and ref: "ref = req_ref req n"
    using inv by (auto simp: watch_inv_def phase_ok_def)
  from watch_inv_phase [OF inv _ phases_not_exited(2) changed_phase_ok [OF assms(2) this(1,2)]]
  show ?thesis using Resolve ref by simp
next
  case (Exit w)
  then show ?thesis using watch_inv_exit [OF inv] by simp
qed

lemma watch_inv_env:
  assumes inv: "watch_inv R req s" and "env_step s t"
  shows "watch_inv R req t"
  using assms(2)
proof (cases rule: env_step.cases)
  case Cancel
  then show ?thesis using inv by (simp add: watch_inv_def registry_ok_def phase_ok_def subscribed_to_def cong: phase.case_cong)
next
  case Receive
  then show ?thesis using inv by (simp add: watch_inv_def registry_ok_def phase_ok_def subscribed_to_def cong: phase.case_cong)
next
  case (Registry c)
  have "watches_inv (wr_watches s)" and "wr_watcher s < ws_nextWatcher (wr_watches s)"
    using inv by (simp_all add: watch_inv_def registry_ok_def)
  from watch_inv_untouched [OF inv others_untouched [OF this Registry(2-4)]] show ?thesis using Registry(1) by simp
next
  case (Returned p)
  have "set (remove1 p (ws_goroutines (wr_watches s))) \<subseteq> set (ws_goroutines (wr_watches s))"
    by (rule set_remove1_subset)
  then have "untouched (wr_watcher s) (wr_watches s)
      ((wr_watches s)\<lparr>ws_goroutines := remove1 p (ws_goroutines (wr_watches s))\<rparr>)"
    using inv by (intro fewer_goroutines) (auto simp: watch_inv_def registry_ok_def)
  from watch_inv_untouched [OF inv this] show ?thesis using Returned by simp
qed

lemma watch_reach_inv: "watch_reach R known req s \<Longrightarrow> watch_inv R req s"
  by (induction rule: watch_reach.induct)
    (auto intro: watch_inv_CreateWatch watch_inv_step watch_inv_env)

section \<open>The program's resolver\<close>

lemma newConfigWatcher_dispatch:
  assumes "type_urls_distinct lib"
  shows "newConfigWatcher lib sl ix req =
    (if rq_typeUrl req = ListenerType lib then listenerHandler_resolveResource lib ix req
     else if rq_typeUrl req = ClusterType lib then clusterHandler_resolveResource lib ix req
     else if rq_typeUrl req = EndpointType lib then endpointHandler_resolveResource lib ix sl req
     else Err (UnsupportedResourceType (rq_typeUrl req)))"
  using assms
  by (auto simp: newConfigWatcher_def resourceTypeResolver_resolveResource_def type_urls_distinct_def)

text \<open>For a supported type the dispatcher is a resolver itself.\<close>

lemma newConfigWatcher_resolver:
  assumes "type_urls_distinct lib" and "url \<in> {ListenerType lib, ClusterType lib, EndpointType lib}"
  shows "resource_resolver
    (\<lambda>names. newConfigWatcher lib sl ix \<lparr>rq_resourceNames = names, rq_typeUrl = url, rq_nodeInfo = node\<rparr>) url"
proof -
  have "ListenerType lib \<noteq> ClusterType lib" "ListenerType lib \<noteq> EndpointType lib" "ClusterType lib \<noteq> EndpointType lib"
    using assms(1) by (simp_all add: type_urls_distinct_def)
  then show ?thesis
    using assms(2) listener_resolver.resource_resolver_axioms cluster_resolver.resource_resolver_axioms
      endpoint_resolver.resource_resolver_axioms
    by (auto simp: newConfigWatcher_dispatch [OF assms(1)])
qed

lemma newConfigWatcher_supported:
  assumes "type_urls_distinct lib"
    and "newConfigWatcher lib sl ix \<lparr>rq_resourceNames = names, rq_typeUrl = url, rq_nodeInfo = node\<rparr> = Ok resp"
  shows "url \<in> {ListenerType lib, ClusterType lib, EndpointType lib}"
  using assms(2) by (auto simp: newConfigWatcher_dispatch [OF assms(1)] split: if_splits)

lemma newConfigWatcher_complete:
  assumes "type_urls_distinct lib"
    and "newConfigWatcher lib sl ix \<lparr>rq_resourceNames = names, rq_typeUrl = url, rq_nodeInfo = node\<rparr> = Ok resp"
  shows "rr_typeURL resp = url \<and> length (rr_resources resp) = length names \<and> None \<notin> set (rr_resources resp)"
  using resource_resolver.complete [OF newConfigWatcher_resolver [OF assms(1) newConfigWatcher_supported [OF assms]]]
    assms(2) by blast

definition program_resolvers :: "xdslib \<Rightarrow> resourceResolver set" where
  "program_resolvers lib = {newConfigWatcher lib sl ix | sl ix. True}"

lemma program_resolversI [intro]: "newConfigWatcher lib sl ix \<in> program_resolvers lib"
  by (auto simp: program_resolvers_def)

section \<open>Properties\<close>

text \<open>C31:
  The dispatch of a discovery request by type: a listener, cluster or load assignment request goes to
  its handler, any other type is refused; and an answer carries the type of the request, exactly one
  resource for each name, in the order of the names, and no nil resource.
\<close>

theorem resolver_dispatch_complete:
  assumes "type_urls_distinct lib"
  shows "(url \<notin> {ListenerType lib, ClusterType lib, EndpointType lib} \<longrightarrow>
      newConfigWatcher lib sl ix \<lparr>rq_resourceNames = names, rq_typeUrl = url, rq_nodeInfo = node\<rparr> =
        Err (UnsupportedResourceType url)) \<and>
    (\<forall>resp. newConfigWatcher lib sl ix \<lparr>rq_resourceNames = names, rq_typeUrl = url, rq_nodeInfo = node\<rparr> = Ok resp \<longrightarrow>
      rr_typeURL resp = url \<and> length (rr_resources resp) = length names \<and> None \<notin> set (rr_resources resp) \<and>
      (\<forall>i < length names. \<exists>r. newConfigWatcher lib sl ix
         \<lparr>rq_resourceNames = [names ! i], rq_typeUrl = url, rq_nodeInfo = node\<rparr> = Ok r \<and>
         rr_resources r = [rr_resources resp ! i]))"
proof (intro conjI impI allI)
  show "newConfigWatcher lib sl ix \<lparr>rq_resourceNames = names, rq_typeUrl = url, rq_nodeInfo = node\<rparr> =
      Err (UnsupportedResourceType url)" if "url \<notin> {ListenerType lib, ClusterType lib, EndpointType lib}"
    using that by (simp add: newConfigWatcher_dispatch [OF assms])
  fix resp
  assume ok: "newConfigWatcher lib sl ix \<lparr>rq_resourceNames = names, rq_typeUrl = url, rq_nodeInfo = node\<rparr> = Ok resp"
  show "rr_typeURL resp = url" "length (rr_resources resp) = length names" "None \<notin> set (rr_resources resp)"
    using newConfigWatcher_complete [OF assms ok] by simp_all
  show "\<exists>r. newConfigWatcher lib sl ix \<lparr>rq_resourceNames = [names ! i], rq_typeUrl = url, rq_nodeInfo = node\<rparr> = Ok r \<and>
      rr_resources r = [rr_resources resp ! i]" if "i < length names" for i
    using resource_resolver.single [OF newConfigWatcher_resolver [OF assms newConfigWatcher_supported [OF assms ok]] ok that] .
qed

theorem resolver_dispatch_complete_witness:
  "newConfigWatcher sample_lib (lister_of []) (cache_of [])
     \<lparr>rq_resourceNames = [''a''], rq_typeUrl = ''secret'', rq_nodeInfo = None\<rparr> =
     Err (UnsupportedResourceType ''secret'')"
  by (rule resolver_dispatch_complete [OF sample_lib_distinct, THEN conjunct1, rule_format])
    (simp add: sample_lib_def)

text \<open>C25:
  The first answer to a request is all or nothing. When the stream lacks a resource it asks for, the
  whole request is resolved: if every name resolves, one response is sent; if a single name does not,
  the error is dropped, nothing is sent for the names that do resolve either, and the goroutine waits
  for a change.
\<close>

theorem first_answer_is_all_or_nothing:
  fixes lib sl ix req
  defines "resolve \<equiv> \<lambda>names. newConfigWatcher lib sl ix
    \<lparr>rq_resourceNames = names, rq_typeUrl = dq_TypeUrl req, rq_nodeInfo = dq_Node req\<rparr>"
  assumes "type_urls_distinct lib" and "dq_TypeUrl req \<in> {ListenerType lib, ClusterType lib, EndpointType lib}"
    and "hasResourceDiff known req" and "\<not> is_Panic (resolve (dq_ResourceNames req))"
  shows "if \<forall>nm \<in> set (dq_ResourceNames req). is_Ok (resolve [nm])
    then \<exists>resp. resolve (dq_ResourceNames req) = Ok resp \<and>
      initial_phase (newConfigWatcher lib sl ix) known req = Sending \<lparr>cr_req = req, cr_resp = resp\<rparr>
    else initial_phase (newConfigWatcher lib sl ix) known req = Waiting"
proof -
  have "is_Ok (resolve (dq_ResourceNames req)) \<longleftrightarrow> (\<forall>nm \<in> set (dq_ResourceNames req). is_Ok (resolve [nm]))"
    unfolding resolve_def by (rule resource_resolver.batch_iff [OF newConfigWatcher_resolver [OF assms(2,3)]])
  then show ?thesis
    using assms(4,5) unfolding resolve_def initial_phase_def by (auto split: outcome.splits)
qed

text \<open>C12:
  The goroutine of a request is subscribed to every resource it was asked for before it resolves any of
  them and as long as it answers, whatever happens around it; so a change that the resolution did not
  see is followed by a notification to it.
\<close>

theorem watch_subscribes_before_resolving:
  assumes "watch_reach R known req s"
    and "wr_phase s \<in> {Deciding, Waiting} \<or> (\<exists>r. wr_phase s = Sending r) \<or> (\<exists>ref. wr_phase s = Resolving ref)"
    and "n \<in> set (dq_ResourceNames req)"
  shows "wr_watcher s \<in> subscribers (wr_watches s) (req_ref req n)"
  using watch_reach_inv [OF assms(1)] assms(2,3)
  by (auto simp: watch_inv_def phase_ok_def subscribed_to_def)


text \<open>C24:
  A goroutine that has returned is forgotten: its watcher is subscribed to nothing, so no change of any
  resource starts another goroutine for it.
\<close>

theorem exited_watch_is_unsubscribed:
  assumes "watch_reach R known req s" and "wr_phase s = Exited"
  shows "(\<forall>ref. wr_watcher s \<notin> subscribers (wr_watches s) ref) \<and>
    (\<forall>ref r. count (mset (ws_goroutines (watches_notifyChanged ref (wr_watches s)))) (wr_watcher s, r) =
      count (mset (ws_goroutines (wr_watches s))) (wr_watcher s, r))"
proof -
  have inv: "watches_inv (wr_watches s)" and "wr_watcher s \<notin> live_watchers (wr_watches s)"
    using watch_reach_inv [OF assms(1)] assms(2) by (simp_all add: watch_inv_def registry_ok_def)
  then have "wr_watcher s \<notin> subscribers (wr_watches s) ref" for ref using watches_invD(5) [OF inv] by blast
  then show ?thesis using registry.notify_count [OF inv] by simp
qed

text \<open>
  A change is answered: in every reachable state in which the goroutine waits and the stream takes another
  response, the notification of a resource it was asked for leads it to send the response the resolver
  then gives for that resource, or, when the resolver reports an error, back to waiting with nothing sent.
\<close>

lemma change_is_answered:
  assumes "watch_reach R known req s" and "wr_phase s = Waiting" and "n \<in> set (dq_ResourceNames req)"
    and "wr_room s = Suc room"
    and "\<not> is_Panic (resolve \<lparr>rq_resourceNames = [n], rq_typeUrl = dq_TypeUrl req, rq_nodeInfo = dq_Node req\<rparr>)"
  shows "\<exists>t. (watch_step resolve known req)\<^sup>*\<^sup>*
      (s\<lparr>wr_watches := watches_notifyChanged (req_ref req n) (wr_watches s)\<rparr>) t \<and> wr_phase t = Waiting \<and>
    wr_sent t = wr_sent s @
      (case resolve \<lparr>rq_resourceNames = [n], rq_typeUrl = dq_TypeUrl req, rq_nodeInfo = dq_Node req\<rparr> of
         Ok resp \<Rightarrow> [\<lparr>cr_req = req, cr_resp = resp\<rparr>] | _ \<Rightarrow> [])"
proof -
  let ?w = "watches_notifyChanged (req_ref req n) (wr_watches s)"
  let ?s = "s\<lparr>wr_watches := ?w\<rparr>"
  define u where "u = ?s\<lparr>wr_watches := ?w\<lparr>ws_goroutines := remove1 (wr_watcher s, req_ref req n) (ws_goroutines ?w)\<rparr>,
      wr_phase := Resolving (req_ref req n)\<rparr>"
  let ?v = "u\<lparr>wr_phase := changed_phase resolve req (req_ref req n)\<rparr>"
  have inv: "watches_inv (wr_watches s)" and "wr_watcher s \<in> subscribers (wr_watches s) (req_ref req n)"
    using watch_reach_inv [OF assms(1)] assms(2,3)
    by (auto simp: watch_inv_def registry_ok_def phase_ok_def subscribed_to_def)
  then have "count (mset (ws_goroutines ?w)) (wr_watcher s, req_ref req n) > 0"
    using registry.notify_count [OF inv, of "req_ref req n" "wr_watcher s" "req_ref req n"] by simp
  then have "watch_step resolve known req ?s u"
    using watch_step.Changed [of ?s "req_ref req n" resolve known req] assms(2) by (simp add: u_def)
  moreover have "watch_step resolve known req u ?v"
    by (rule watch_step.Resolve) (simp add: u_def)
  ultimately have run: "(watch_step resolve known req)\<^sup>*\<^sup>* ?s ?v"
    by (meson converse_rtranclp_into_rtranclp r_into_rtranclp)
  show ?thesis
  proof (cases "resolve \<lparr>rq_resourceNames = [n], rq_typeUrl = dq_TypeUrl req, rq_nodeInfo = dq_Node req\<rparr>")
    case (Ok resp)
    let ?r = "\<lparr>cr_req = req, cr_resp = resp\<rparr>"
    let ?t = "?v\<lparr>wr_sent := wr_sent ?v @ [?r], wr_room := room, wr_phase := Waiting\<rparr>"
    have "watch_step resolve known req ?v ?t"
      using assms(4) by (intro watch_step.Sent) (simp_all add: u_def changed_phase_def req_ref_def Ok)
    with run have "(watch_step resolve known req)\<^sup>*\<^sup>* ?s ?t" by (rule rtranclp.rtrancl_into_rtrancl)
    then show ?thesis by (intro exI [of _ ?t]) (simp add: Ok u_def)
  next
    case (Err e)
    then show ?thesis
      by (intro exI [of _ ?v]) (use run in \<open>auto simp: u_def changed_phase_def req_ref_def\<close>)
  qed (use assms(5) in simp)
qed

section \<open>Leaving the loop\<close>

text \<open>A step of the goroutine with any of the resolvers, and the panics its requests to them can end in.\<close>

definition goroutine_step ::
    "resourceResolver set \<Rightarrow> StreamState \<Rightarrow> DiscoveryRequest \<Rightarrow> watch_run \<Rightarrow> watch_run \<Rightarrow> bool" where
  "goroutine_step Q known req s t \<longleftrightarrow> (\<exists>resolve \<in> Q. watch_step resolve known req s t)"

definition resolver_panics :: "resourceResolver set \<Rightarrow> DiscoveryRequest \<Rightarrow> go_panic \<Rightarrow> bool" where
  "resolver_panics Q req p \<longleftrightarrow> (\<exists>resolve \<in> Q. \<exists>ns.
     (ns = dq_ResourceNames req \<or> (\<exists>n \<in> set (dq_ResourceNames req). ns = [n])) \<and>
     resolve \<lparr>rq_resourceNames = ns, rq_typeUrl = dq_TypeUrl req, rq_nodeInfo = dq_Node req\<rparr> = Panic p)"

primrec exit_rank :: "phase \<Rightarrow> nat" where
  "exit_rank (Subscribing ns) = 4 + length ns"
| "exit_rank Deciding = 3"
| "exit_rank (Resolving ref) = 3"
| "exit_rank (Sending r) = 2"
| "exit_rank Waiting = 1"
| "exit_rank Exited = 0"
| "exit_rank (Crashed p) = 0"

text \<open>The work to the exit: a notification that is under way may be taken and answered on the way out.\<close>

definition exit_work :: "watch_run \<Rightarrow> nat" where
  "exit_work s = exit_rank (wr_phase s) +
     3 * length (filter (\<lambda>p. fst p = wr_watcher s) (ws_goroutines (wr_watches s)))"

definition cancelled_watch :: "resourceResolver set \<Rightarrow> resourceResolver set \<Rightarrow> DiscoveryRequest \<Rightarrow> watch_run \<Rightarrow> bool" where
  "cancelled_watch R Q req s \<longleftrightarrow>
     Q \<subseteq> R \<and> Q \<noteq> {} \<and> watch_inv R req s \<and> wr_ctxDone s \<and> (\<forall>p. wr_phase s = Crashed p \<longrightarrow> resolver_panics Q req p)"

definition watch_over :: "resourceResolver set \<Rightarrow> DiscoveryRequest \<Rightarrow> watch_run \<Rightarrow> bool" where
  "watch_over Q req s \<longleftrightarrow> wr_phase s = Exited \<or> (\<exists>p. wr_phase s = Crashed p \<and> resolver_panics Q req p)"

lemma resolved_phases:
  assumes "resolve \<in> Q"
  shows "initial_phase resolve known req = Crashed p \<Longrightarrow> resolver_panics Q req p"
    and "n \<in> set (dq_ResourceNames req) \<Longrightarrow> changed_phase resolve req (req_ref req n) = Crashed p \<Longrightarrow>
      resolver_panics Q req p"
    and "exit_rank (initial_phase resolve known req) < 3" and "exit_rank (changed_phase resolve req ref) < 3"
  using assms
  by (auto simp: resolver_panics_def initial_phase_def changed_phase_def req_ref_def split: outcome.splits if_splits)

lemma filter_remove1_less:
  "x \<in> set xs \<Longrightarrow> P x \<Longrightarrow> Suc (length (filter P (remove1 x xs))) = length (filter P xs)"
  by (induction xs) auto

lemma cancelled_watch_step:
  assumes "cancelled_watch R Q req s" and "goroutine_step Q known req s t"
  shows "cancelled_watch R Q req t \<and> exit_work t < exit_work s"
proof -
  obtain resolve where res: "resolve \<in> Q" and st: "watch_step resolve known req s t"
    using assms(2) by (auto simp: goroutine_step_def)
  have inv: "watch_inv R req s" and sub: "resolve \<in> R"
    using assms(1) res by (auto simp: cancelled_watch_def)
  have winv: "watches_inv (wr_watches s)" using inv by (simp add: watch_inv_def registry_ok_def)
  note phases = resolved_phases [OF res]
  have "wr_ctxDone t = wr_ctxDone s" using st by cases simp_all
  moreover have "(\<forall>p. wr_phase t = Crashed p \<longrightarrow> resolver_panics Q req p) \<and> exit_work t < exit_work s"
    using st
  proof cases
    case (Subscribe n ns)
    then show ?thesis using watcher_watch_keeps(2) [OF winv] by (simp add: exit_work_def)
  next
    case Decide
    then show ?thesis using phases(1,3) by (simp add: exit_work_def)
  next
    case (Resolve ref)
    then obtain n where "n \<in> set (dq_ResourceNames req)" and "ref = req_ref req n"
      using inv by (auto simp: watch_inv_def phase_ok_def)
    then show ?thesis using Resolve phases(2,4) by (simp add: exit_work_def)
  next
    case (Changed ref)
    then show ?thesis
      using filter_remove1_less [OF Changed(3), of "\<lambda>p. fst p = wr_watcher s"] by (simp add: exit_work_def)
  next
    case (Exit w)
    have live: "wr_watcher s \<in> live_watchers (wr_watches s)"
      using inv Exit(2) by (simp add: watch_inv_def registry_ok_def)
    obtain w' where "releaseWatch (wr_watcher s) (wr_watches s) = Ok w'" and "ws_goroutines w' = ws_goroutines (wr_watches s)"
      by (rule releaseWatch_effect [OF winv live])
    then show ?thesis using Exit by (simp add: exit_work_def)
  qed (auto simp: exit_work_def)
  ultimately show ?thesis
    using assms(1) watch_inv_step [OF inv sub st] by (simp add: cancelled_watch_def)
qed

text \<open>It never waits for the stream: a cancelled send gives up.\<close>

lemma cancelled_watch_progress:
  assumes "cancelled_watch R Q req s" and "\<not> watch_over Q req s"
  shows "\<exists>t. goroutine_step Q known req s t"
proof -
  obtain resolve where "resolve \<in> Q" and inv: "watch_inv R req s" and ctx: "wr_ctxDone s"
    using assms(1) by (auto simp: cancelled_watch_def)
  moreover have "\<exists>t. watch_step resolve known req s t"
  proof (cases "wr_phase s")
    case (Subscribing ns)
    then show ?thesis by (cases ns) (auto intro: watch_step.Subscribe watch_step.Subscribed)
  next
    case (Sending r)
    then show ?thesis using watch_step.SendCancelled [OF Sending ctx] by blast
  next
    case Waiting
    then have "watches_inv (wr_watches s)" and "wr_watcher s \<in> live_watchers (wr_watches s)"
      using inv by (simp_all add: watch_inv_def registry_ok_def)
    then obtain w where "releaseWatch (wr_watcher s) (wr_watches s) = Ok w" by (rule releaseWatch_effect)
    then show ?thesis using watch_step.Exit [OF Waiting ctx] by blast
  qed (use assms in \<open>auto simp: cancelled_watch_def watch_over_def intro: watch_step.Decide watch_step.Resolve\<close>)
  ultimately show ?thesis by (auto simp: goroutine_step_def)
qed

interpretation watch_exit: bounded_settling "goroutine_step Q known req" "cancelled_watch R Q req" exit_work "watch_over Q req"
  for R Q known req
  by unfold_locales (use cancelled_watch_step cancelled_watch_progress in blast)+

text \<open>C23:
  A cancelled goroutine finishes, even when the stream takes no response any more: from every reachable
  state that is not a crash, once its context is cancelled, the steps it can still take by itself are
  bounded by the names it has to watch and the notifications under way to it, whatever its resolutions
  return, and when none is left it has exited, or a resolution of its names has panicked.
\<close>

theorem cancelled_watch_exits:
  assumes "watch_reach R known req s" and "wr_ctxDone s" and "\<And>p. wr_phase s \<noteq> Crashed p"
    and "Q \<subseteq> R" and "Q \<noteq> {}" and "(goroutine_step Q known req ^^ k) s t"
  shows "k \<le> exit_work s \<and>
    ((\<exists>u. goroutine_step Q known req t u) \<or> wr_phase t = Exited \<or>
     (\<exists>p. wr_phase t = Crashed p \<and> resolver_panics Q req p))"
proof -
  have "cancelled_watch R Q req s"
    using watch_reach_inv [OF assms(1)] assms(2-5) by (simp add: cancelled_watch_def)
  then show ?thesis
    using watch_exit.run_bounded [OF assms(6)] watch_exit.stuck_run_is_settled [OF assms(6)]
    unfolding watch_over_def by blast
qed

section \<open>Witnesses\<close>

text \<open>A request for a listener on an empty registry, with the empty caches.\<close>

definition sample_request :: DiscoveryRequest where
  "sample_request =
     \<lparr>dq_TypeUrl = ListenerType sample_lib, dq_ResourceNames = [''default/test-xds''], dq_Node = None\<rparr>"

definition sample_answer :: resolveResponse where
  "sample_answer =
     \<lparr>rr_typeURL = ListenerType sample_lib, rr_resources = [Some \<lparr>any_TypeUrl = ListenerType sample_lib,
        any_Value = ''x''\<rparr>], rr_versionHasher = ''42''\<rparr>"

definition sample_resolver :: resourceResolver where
  "sample_resolver = newConfigWatcher sample_lib (lister_of []) (cache_of [sample_listener])"

lemma sample_routeConfig: "\<exists>rc. makeRouteConfig sample_lib nm sample_listener = Ok rc"
  by (simp add: makeRouteConfig_traverse makeRoute_def makeRouteMatch_def makeWeightedClusters_traverse makeHashPolicy_def
      makeFilterOverrides_def go_defs)

lemma sample_makeListener:
  "\<exists>m. makeListener sample_lib (cache_of [sample_listener]) ''default/test-xds'' = Ok (m, ''42'')"
proof -
  obtain rc where rc: "makeRouteConfig sample_lib ''default/test-xds'' sample_listener = Ok rc"
    using sample_routeConfig by blast
  have "parseListenerName ''default/test-xds'' = Ok (''default'', ''test-xds'')"
    by (simp add: parseListenerName_def)
  moreover have "GRPCListenerNamespaceLister_Get (cache_of [sample_listener]) ''default'' ''test-xds'' = Ok sample_listener"
    by (simp add: GRPCListenerNamespaceLister_Get_def cache_of_def meta_key_def) (simp add: sample_listener_def)
  moreover have "makeFilters sample_lib (ls_Interceptors (gl_Spec sample_listener)) =
      Ok [Some \<lparr>flt_Name = wellknown_Router sample_lib, flt_TypedConfig = \<lparr>any_TypeUrl = ''type.googleapis.com/'', any_Value = ''x''\<rparr>\<rparr>]"
    by (simp add: makeFilters_def mustAny_def go_defs)
  ultimately show ?thesis by (simp add: makeListener_def rc mustAny_def) (simp add: go_defs)
qed

lemma sample_resolver_answer:
  "sample_resolver \<lparr>rq_resourceNames = [''default/test-xds''], rq_typeUrl = ListenerType sample_lib,
     rq_nodeInfo = None\<rparr> = Ok sample_answer"
proof -
  obtain m where "makeListener sample_lib (cache_of [sample_listener]) ''default/test-xds'' = Ok (m, ''42'')"
    using sample_makeListener by blast
  then show ?thesis
    by (simp add: sample_resolver_def newConfigWatcher_dispatch [OF sample_lib_distinct] listenerHandler_answer_loop
      answer_loop_single listener_answer_def sample_answer_def encodeResource_def response_of_def)
      (simp add: sample_lib_def)
qed

lemma sample_other_not_found: "\<exists>e. makeListener sample_lib (cache_of [sample_listener]) ''default/other'' = Err e"
proof -
  have "parseListenerName ''default/other'' = Ok (''default'', ''other'')"
    by (simp add: parseListenerName_def)
  moreover have "\<exists>e. GRPCListenerNamespaceLister_Get (cache_of [sample_listener]) ''default'' ''other'' = Err e"
    by (simp add: GRPCListenerNamespaceLister_Get_def cache_of_def meta_key_def) (simp add: sample_listener_def)
  ultimately show ?thesis by (auto simp: makeListener_def)
qed

lemma sample_batch_errors:
  "\<exists>e. sample_resolver \<lparr>rq_resourceNames = [''default/other''], rq_typeUrl = ListenerType sample_lib,
     rq_nodeInfo = None\<rparr> = Err e"
  "\<exists>e. sample_resolver \<lparr>rq_resourceNames = [''default/test-xds'', ''default/other''],
     rq_typeUrl = ListenerType sample_lib, rq_nodeInfo = None\<rparr> = Err e"
  using sample_makeListener sample_other_not_found
  by (auto simp: sample_resolver_def newConfigWatcher_dispatch [OF sample_lib_distinct] listenerHandler_answer_loop
      answer_loop_traverse listener_answer_def encodeResource_def)
    (simp add: sample_lib_def)

theorem first_answer_is_all_or_nothing_witness:
  "sample_resolver \<lparr>rq_resourceNames = [''default/test-xds''], rq_typeUrl = ListenerType sample_lib,
     rq_nodeInfo = None\<rparr> = Ok sample_answer \<and>
   initial_phase sample_resolver (\<lambda>_. [])
     (sample_request\<lparr>dq_ResourceNames := [''default/test-xds'', ''default/other'']\<rparr>) = Waiting"
proof -
  let ?q = "sample_request\<lparr>dq_ResourceNames := [''default/test-xds'', ''default/other'']\<rparr>"
  have "hasResourceDiff (\<lambda>_. []) ?q" by (simp add: hasResourceDiff_def sample_request_def)
  from first_answer_is_all_or_nothing [OF sample_lib_distinct _ this, of "lister_of []" "cache_of [sample_listener]"]
  have "initial_phase sample_resolver (\<lambda>_. []) ?q = Waiting"
    using sample_batch_errors by (auto simp: sample_request_def sample_resolver_def)
  then show ?thesis using sample_resolver_answer by simp
qed

lemma sample_resolver_program: "sample_resolver \<in> program_resolvers sample_lib"
  by (auto simp: sample_resolver_def)

lemma sample_resolved:
  obtains s where "watch_reach (program_resolvers sample_lib) (\<lambda>_. []) sample_request s"
    and "wr_phase s = Sending \<lparr>cr_req = sample_request, cr_resp = sample_answer\<rparr>" and "wr_sent s = []"
    and "wr_room s = room" and "\<not> wr_ctxDone s"
proof -
  let ?R = "program_resolvers sample_lib" and ?known = "\<lambda>_::string. [] :: string list" and ?q = sample_request
  note in_R = sample_resolver_program
  define s0 where "s0 = CreateWatch room newWatches ?q"
  have r0: "watch_reach ?R ?known ?q s0"
    unfolding s0_def by (rule watch_reach.Start) (simp_all add: watches_inv_newWatches, simp add: newWatches_def)
  have "wr_phase s0 = Subscribing [''default/test-xds'']"
    by (simp add: s0_def CreateWatch_def buildWatch_def sample_request_def)
  note r1 = watch_reach.Step [OF r0 in_R watch_step.Subscribe [OF this]]
  note r2 = watch_reach.Step [OF r1 in_R watch_step.Subscribed, simplified]
  note r3 = watch_reach.Step [OF r2 in_R watch_step.Decide, simplified]
  have ph: "initial_phase sample_resolver ?known ?q = Sending \<lparr>cr_req = ?q, cr_resp = sample_answer\<rparr>"
    using sample_resolver_answer by (simp add: initial_phase_def hasResourceDiff_def sample_request_def)
  show thesis using that [OF r3] by (simp add: ph s0_def CreateWatch_def buildWatch_def)
qed

lemma sample_run:
  obtains s where "watch_reach (program_resolvers sample_lib) (\<lambda>_. []) sample_request s"
    and "wr_phase s = Waiting" and "wr_sent s = [\<lparr>cr_req = sample_request, cr_resp = sample_answer\<rparr>]"
    and "\<not> wr_ctxDone s"
proof -
  obtain s where s: "watch_reach (program_resolvers sample_lib) (\<lambda>_. []) sample_request s"
    "wr_phase s = Sending \<lparr>cr_req = sample_request, cr_resp = sample_answer\<rparr>" "wr_sent s = []"
    "wr_room s = Suc 0" "\<not> wr_ctxDone s"
    by (rule sample_resolved)
  from that [OF watch_reach.Step [OF s(1) sample_resolver_program watch_step.Sent [OF s(2,4)]]] s(3,5)
  show thesis by simp
qed

theorem watch_subscribes_before_resolving_witness:
  "\<exists>s :: watch_run. wr_phase s = Waiting \<and>
     wr_watcher s \<in> subscribers (wr_watches s) (req_ref sample_request ''default/test-xds'')"
proof -
  obtain s where s: "watch_reach (program_resolvers sample_lib) (\<lambda>_. []) sample_request s"
    and ph: "wr_phase s = Waiting"
    by (rule sample_run)
  from watch_subscribes_before_resolving [OF s, of "''default/test-xds''"] ph
  show ?thesis by (intro exI [of _ s]) (simp add: sample_request_def)
qed


lemma sample_cancelled:
  obtains s where "watch_reach (program_resolvers sample_lib) (\<lambda>_. []) sample_request s"
    and "wr_phase s = Waiting" and "wr_ctxDone s"
proof -
  obtain s where s: "watch_reach (program_resolvers sample_lib) (\<lambda>_. []) sample_request s"
    and ph: "wr_phase s = Waiting"
    by (rule sample_run)
  show thesis using that [OF watch_reach.Environment [OF s env_step.Cancel]] ph by simp
qed

theorem exited_watch_is_unsubscribed_witness:
  "\<exists>s. watch_reach (program_resolvers sample_lib) (\<lambda>_. []) sample_request s \<and> wr_phase s = Exited \<and>
     wr_watcher s \<notin> subscribers (wr_watches s) (req_ref sample_request ''default/test-xds'')"
proof -
  obtain s where s: "watch_reach (program_resolvers sample_lib) (\<lambda>_. []) sample_request s"
    and ph: "wr_phase s = Waiting" and ctx: "wr_ctxDone s"
    by (rule sample_cancelled)
  have inv: "watches_inv (wr_watches s)" and live: "wr_watcher s \<in> live_watchers (wr_watches s)"
    using watch_reach_inv [OF s] ph by (simp_all add: watch_inv_def registry_ok_def)
  obtain w where w: "releaseWatch (wr_watcher s) (wr_watches s) = Ok w"
    by (rule releaseWatch_effect [OF inv live])
  note exit = watch_reach.Step [OF s sample_resolver_program watch_step.Exit [OF ph ctx w]]
  from exited_watch_is_unsubscribed [OF exit] exit show ?thesis
    by (intro exI [of _ "s\<lparr>wr_watches := w, wr_phase := Exited\<rparr>"]) simp
qed

text \<open>The stream takes no response and cancels: the send in progress is given up.\<close>

theorem cancelled_watch_exits_witness:
  "\<exists>s t k. watch_reach (program_resolvers sample_lib) (\<lambda>_. []) sample_request s \<and> wr_room s = 0 \<and>
     wr_phase s = Sending \<lparr>cr_req = sample_request, cr_resp = sample_answer\<rparr> \<and>
     (goroutine_step {sample_resolver} (\<lambda>_. []) sample_request ^^ k) s t \<and> wr_phase t = Exited \<and> k \<le> exit_work s"
proof -
  obtain u where u: "watch_reach (program_resolvers sample_lib) (\<lambda>_. []) sample_request u"
    "wr_phase u = Sending \<lparr>cr_req = sample_request, cr_resp = sample_answer\<rparr>" "wr_room u = 0"
    by (rule sample_resolved)
  let ?s = "u\<lparr>wr_ctxDone := True\<rparr>" and ?Q = "{sample_resolver}"
  have s: "watch_reach (program_resolvers sample_lib) (\<lambda>_. []) sample_request ?s"
    by (rule watch_reach.Environment [OF u(1) env_step.Cancel])
  have Q: "?Q \<subseteq> program_resolvers sample_lib" using sample_resolver_program by simp
  then have "cancelled_watch (program_resolvers sample_lib) ?Q sample_request ?s"
    using watch_reach_inv [OF s] u(2) by (simp add: cancelled_watch_def)
  then obtain t k where run: "(goroutine_step ?Q (\<lambda>_. []) sample_request ^^ k) ?s t"
    and over: "watch_over ?Q sample_request t"
    using watch_exit.settles_within by blast
  have "\<not> resolver_panics ?Q sample_request p" for p
    using sample_resolver_answer by (auto simp: resolver_panics_def sample_request_def)
  then have "wr_phase t = Exited" using over by (simp add: watch_over_def)
  moreover from cancelled_watch_exits [OF s _ _ Q _ run] u(2) have "k \<le> exit_work ?s" by simp
  ultimately show ?thesis using s u(2,3) run by (intro exI [of _ ?s] exI [of _ t] exI [of _ k]) simp
qed

end
