(* ===== verification/Queued_Handler.thy ===== *)
theory Queued_Handler
  imports Gtc_Prelude
begin

text \<open>
  The queue in front of the change handlers, \<^verbatim>\<open>pkg/controllersupport/handler.go\<close>. The work queue is
  client-go code: its operations are the parameter \<open>workqueue\<close>, and \<open>workqueue_ok\<close> says that they behave
  as its documentation describes, in terms of a queue with its dirty and processing sets. Objects are
  interface values: \<open>'o option\<close> is a pointer or nil, and the queue compares events by pointer. The
  locale \<open>event_handler\<close> is the contract of the Go interface \<^verbatim>\<open>EventHandler\<close>; what the queue does to the
  state of any handler with that contract is proved once in it.
\<close>

type_synonym queueEventKind = "8 word"

definition kindUnknown :: queueEventKind where "kindUnknown = 0"
definition kindAdd :: queueEventKind where "kindAdd = 1"
definition kindUpdate :: queueEventKind where "kindUpdate = 2"
definition kindDelete :: queueEventKind where "kindDelete = 3"

lemmas kind_defs = kindUnknown_def kindAdd_def kindUpdate_def kindDelete_def

record 'o queueEvent =
  qe_kind :: queueEventKind
  qe_object :: "'o option"
  qe_oldObj :: "'o option"
  qe_newObj :: "'o option"

text \<open>What the queue holds has the type \<^verbatim>\<open>any\<close>: an event or something else.\<close>

datatype 'o item = Event "'o queueEvent" | OtherItem

record ('o, 's) EventHandler =
  eh_OnAdd :: "'o option \<Rightarrow> 's \<Rightarrow> 's outcome"
  eh_OnUpdate :: "'o option \<Rightarrow> 'o option \<Rightarrow> 's \<Rightarrow> 's outcome"
  eh_OnDelete :: "'o option \<Rightarrow> 's \<Rightarrow> 's outcome"

text \<open>
  The work queue's methods. \<open>wq_Get\<close> is \<^term>\<open>None\<close> while it blocks; an item of \<^term>\<open>None\<close> with it reports
  the shutdown.
\<close>

record ('o, 'q) workqueue =
  wq_Add :: "'o item \<Rightarrow> 'q \<Rightarrow> 'q"
  wq_Get :: "'q \<Rightarrow> ('o item option \<times> 'q) option"
  wq_Done :: "'o item \<Rightarrow> 'q \<Rightarrow> 'q"
  wq_Forget :: "'o item \<Rightarrow> 'q \<Rightarrow> 'q"
  wq_ShutDown :: "'q \<Rightarrow> 'q"

definition QueuedEventHandler_OnAdd :: "('o, 'q) workqueue \<Rightarrow> 'o option \<Rightarrow> 'q \<Rightarrow> 'q" where
  "QueuedEventHandler_OnAdd wq obj q =
     wq_Add wq (Event \<lparr>qe_kind = kindAdd, qe_object = obj, qe_oldObj = None, qe_newObj = None\<rparr>) q"

definition QueuedEventHandler_OnUpdate :: "('o, 'q) workqueue \<Rightarrow> 'o option \<Rightarrow> 'o option \<Rightarrow> 'q \<Rightarrow> 'q" where
  "QueuedEventHandler_OnUpdate wq oldObj newObj q =
     wq_Add wq (Event \<lparr>qe_kind = kindUpdate, qe_object = None, qe_oldObj = oldObj, qe_newObj = newObj\<rparr>) q"

definition QueuedEventHandler_OnDelete :: "('o, 'q) workqueue \<Rightarrow> 'o option \<Rightarrow> 'q \<Rightarrow> 'q" where
  "QueuedEventHandler_OnDelete wq obj q =
     wq_Add wq (Event \<lparr>qe_kind = kindDelete, qe_object = obj, qe_oldObj = None, qe_newObj = None\<rparr>) q"

text \<open>
  The switch of \<^verbatim>\<open>processItem\<close>: the call on the handler and its error, which is logged and dropped. An
  item that is not an event and an unknown kind are skipped.
\<close>

definition dispatchEvent :: "('o, 's) EventHandler \<Rightarrow> 'o item \<Rightarrow> 's \<Rightarrow> 's outcome" where
  "dispatchEvent h obj s =
     (case obj of
        OtherItem \<Rightarrow> Ok s
      | Event event \<Rightarrow>
          let r = (if qe_kind event = kindAdd then eh_OnAdd h (qe_object event) s
                   else if qe_kind event = kindUpdate then eh_OnUpdate h (qe_oldObj event) (qe_newObj event) s
                   else if qe_kind event = kindDelete then eh_OnDelete h (qe_object event) s
                   else Ok s)
          in case r of Err err \<Rightarrow> Ok s | _ \<Rightarrow> r)"

text \<open>
  \<^verbatim>\<open>processItem\<close> blocks (\<^term>\<open>None\<close>), or returns whether the worker goes on, with the queue after the
  deferred calls \<^verbatim>\<open>Forget\<close> and \<^verbatim>\<open>Done\<close>, in that order. \<^verbatim>\<open>runWorker\<close> repeats it; \<^term>\<open>None\<close> is a worker that does
  not return.
\<close>

definition processItem ::
    "('o, 'q) workqueue \<Rightarrow> ('o, 's) EventHandler \<Rightarrow> 'q \<Rightarrow> 's \<Rightarrow> (bool \<times> 'q \<times> 's) outcome option" where
  "processItem wq h q s =
     (case wq_Get wq q of
        None \<Rightarrow> None
      | Some (None, q) \<Rightarrow> Some (Ok (False, q, s))
      | Some (Some obj, q) \<Rightarrow>
          Some (and_then (dispatchEvent h obj s) (\<lambda>s.
            Ok (True, wq_Done wq obj (wq_Forget wq obj q), s))))"

partial_function (option) runWorker ::
    "('o, 'q) workqueue \<Rightarrow> ('o, 's) EventHandler \<Rightarrow> 'q \<Rightarrow> 's \<Rightarrow> ('q \<times> 's) outcome option" where
  "runWorker wq h q s =
     (case processItem wq h q s of
        None \<Rightarrow> None
      | Some (Ok (goOn, q, s)) \<Rightarrow> if goOn then runWorker wq h q s else Some (Ok (q, s))
      | Some (Err e) \<Rightarrow> Some (Err e)
      | Some (Panic p) \<Rightarrow> Some (Panic p))"

section \<open>The documented work queue\<close>

text \<open>
  An item is queued once however often it is added before it is taken; while it is being processed
  an addition waits for \<^verbatim>\<open>Done\<close>; after a shutdown nothing is added, and the items left are still
  handed out.
\<close>

record 'o wq_state =
  wqs_queue :: "'o item list"
  wqs_dirty :: "'o item list"
  wqs_processing :: "'o item list"
  wqs_shutdown :: bool

definition wqs_add :: "'o item \<Rightarrow> 'o wq_state \<Rightarrow> 'o wq_state" where
  "wqs_add x q =
     (if wqs_shutdown q \<or> x \<in> set (wqs_dirty q) then q
      else if x \<in> set (wqs_processing q) then q\<lparr>wqs_dirty := x # wqs_dirty q\<rparr>
      else q\<lparr>wqs_dirty := x # wqs_dirty q, wqs_queue := wqs_queue q @ [x]\<rparr>)"

definition wqs_get :: "'o wq_state \<Rightarrow> ('o item option \<times> 'o wq_state) option" where
  "wqs_get q =
     (case wqs_queue q of
        [] \<Rightarrow> if wqs_shutdown q then Some (None, q) else None
      | x # xs \<Rightarrow> Some (Some x, q\<lparr>wqs_queue := xs, wqs_processing := x # wqs_processing q,
                                  wqs_dirty := removeAll x (wqs_dirty q)\<rparr>))"

definition wqs_done :: "'o item \<Rightarrow> 'o wq_state \<Rightarrow> 'o wq_state" where
  "wqs_done x q =
     (let q = q\<lparr>wqs_processing := removeAll x (wqs_processing q)\<rparr> in
      if x \<in> set (wqs_dirty q) then q\<lparr>wqs_queue := wqs_queue q @ [x]\<rparr> else q)"

definition workqueue_ok :: "('o, 'q) workqueue \<Rightarrow> ('q \<Rightarrow> 'o wq_state) \<Rightarrow> bool" where
  "workqueue_ok wq st \<longleftrightarrow>
     (\<forall>x q. st (wq_Add wq x q) = wqs_add x (st q)) \<and>
     (\<forall>q. map_option (\<lambda>(x, q). (x, st q)) (wq_Get wq q) = wqs_get (st q)) \<and>
     (\<forall>x q. st (wq_Done wq x q) = wqs_done x (st q)) \<and>
     (\<forall>x q. st (wq_Forget wq x q) = st q) \<and>
     (\<forall>q. st (wq_ShutDown wq q) = (st q)\<lparr>wqs_shutdown := True\<rparr>)"

definition documented_queue :: "('o, 'o wq_state) workqueue" where
  "documented_queue =
     \<lparr>wq_Add = wqs_add, wq_Get = wqs_get, wq_Done = wqs_done, wq_Forget = (\<lambda>x q. q),
      wq_ShutDown = (\<lambda>q. q\<lparr>wqs_shutdown := True\<rparr>)\<rparr>"

lemma documented_queue_ok: "workqueue_ok documented_queue id"
  by (simp add: workqueue_ok_def documented_queue_def option.map_ident_strong case_prod_beta)

text \<open>The invariant of the documented queue: what is queued is dirty, once, and not being processed.\<close>

definition wqs_inv :: "'o wq_state \<Rightarrow> bool" where
  "wqs_inv q \<longleftrightarrow>
     distinct (wqs_queue q) \<and> set (wqs_queue q) \<subseteq> set (wqs_dirty q) \<and>
     set (wqs_queue q) \<inter> set (wqs_processing q) = {} \<and>
     set (wqs_dirty q) \<subseteq> set (wqs_queue q) \<union> set (wqs_processing q)"

lemma wqs_add_inv: "wqs_inv q \<Longrightarrow> wqs_inv (wqs_add x q)"
  by (auto simp: wqs_inv_def wqs_add_def)

lemma wqs_add_queued:
  "wqs_inv q \<Longrightarrow> \<not> wqs_shutdown q \<Longrightarrow> x \<notin> set (wqs_processing q) \<Longrightarrow> x \<in> set (wqs_queue (wqs_add x q))"
  by (auto simp: wqs_inv_def wqs_add_def)

section \<open>The contract of an event handler\<close>

text \<open>
  What the queue relies on: a handler that returns without error keeps the invariant of the state
  it works on and changes it along a preorder.
\<close>

locale event_handler =
  fixes on_add :: "'o option \<Rightarrow> 's \<Rightarrow> 's outcome"
    and on_update :: "'o option \<Rightarrow> 'o option \<Rightarrow> 's \<Rightarrow> 's outcome"
    and on_delete :: "'o option \<Rightarrow> 's \<Rightarrow> 's outcome"
    and state_inv :: "'s \<Rightarrow> bool"
    and evolves :: "'s \<Rightarrow> 's \<Rightarrow> bool"
  assumes evolves_refl: "evolves s s"
    and evolves_trans: "evolves s t \<Longrightarrow> evolves t u \<Longrightarrow> evolves s u"
    and add_ok: "state_inv s \<Longrightarrow> on_add x s = Ok t \<Longrightarrow> state_inv t \<and> evolves s t"
    and update_ok: "state_inv s \<Longrightarrow> on_update x y s = Ok t \<Longrightarrow> state_inv t \<and> evolves s t"
    and delete_ok: "state_inv s \<Longrightarrow> on_delete x s = Ok t \<Longrightarrow> state_inv t \<and> evolves s t"
begin

definition handler :: "('o, 's) EventHandler" where
  "handler = \<lparr>eh_OnAdd = on_add, eh_OnUpdate = on_update, eh_OnDelete = on_delete\<rparr>"

lemma dispatch_ok:
  assumes "state_inv s" and "dispatchEvent handler obj s = Ok t"
  shows "state_inv t \<and> evolves s t"
proof (cases obj)
  case (Event ev)
  have "s = t \<or> on_add (qe_object ev) s = Ok t \<or> on_update (qe_oldObj ev) (qe_newObj ev) s = Ok t \<or>
      on_delete (qe_object ev) s = Ok t"
    using assms(2) by (auto simp: dispatchEvent_def Event handler_def Let_def split: outcome.splits if_splits)
  then show ?thesis using assms(1) add_ok update_ok delete_ok evolves_refl by blast
qed (use assms evolves_refl in \<open>auto simp: dispatchEvent_def\<close>)

text \<open>However long a worker runs, it leaves the invariant and an evolved state behind.\<close>

lemma worker_ok:
  assumes "runWorker wq handler q s = Some (Ok (q', t))" and "state_inv s"
  shows "state_inv t \<and> evolves s t"
proof -
  have "\<forall>q' t. r = Ok (q', t) \<longrightarrow> state_inv s \<longrightarrow> state_inv t \<and> evolves s t"
    if "h = handler" and "runWorker wq h q s = Some r" for wq :: "('o, 'q) workqueue" and h q s r
    using that(1)
  proof (induction rule: runWorker.raw_induct [OF _ that(2), consumes 0, case_names step])
    case (step run wq h q s r)
    show ?case
    proof (cases "processItem wq h q s")
      case (Some p)
      show ?thesis
      proof (cases p)
        case (Ok x)
        obtain goOn q1 s1 where x: "x = (goOn, q1, s1)" by (cases x)
        have s1: "state_inv s \<longrightarrow> state_inv s1 \<and> evolves s s1"
          using Some step.prems dispatch_ok [of s] evolves_refl
          by (auto simp: Ok x processItem_def go_simps split: option.splits prod.splits)
        show ?thesis
        proof (cases goOn)
          case True
          then have "run wq h q1 s1 = Some r" using step.hyps(1) Some by (simp add: Ok x)
          from step.IH [OF this step.prems] show ?thesis using s1 evolves_trans by blast
        qed (use step.hyps Some s1 in \<open>auto simp: Ok x\<close>)
      qed (use step.hyps Some in auto)
    qed (use step.hyps in simp)
  qed
  from this [OF refl assms(1)] show ?thesis using assms(2) by blast
qed

end

section \<open>Draining the queue\<close>

lemma dispatchEvent_not_Err: "dispatchEvent h x s \<noteq> Err e"
  by (auto simp: dispatchEvent_def Let_def split: item.splits outcome.splits)

lemma processItem_queued:
  assumes "workqueue_ok wq st" and "wqs_queue (st q) = x # xs" and "wqs_inv (st q)"
  obtains q1 where "processItem wq h q s =
      Some (and_then (dispatchEvent h x s) (\<lambda>t. Ok (True, wq_Done wq x (wq_Forget wq x q1), t)))"
    and "wqs_queue (st (wq_Done wq x (wq_Forget wq x q1))) = xs"
    and "wqs_inv (st (wq_Done wq x (wq_Forget wq x q1)))"
    and "wqs_shutdown (st (wq_Done wq x (wq_Forget wq x q1))) = wqs_shutdown (st q)"
proof -
  let ?t = "(st q)\<lparr>wqs_queue := xs, wqs_processing := x # wqs_processing (st q),
      wqs_dirty := removeAll x (wqs_dirty (st q))\<rparr>"
  have "map_option (\<lambda>(x, q). (x, st q)) (wq_Get wq q) = Some (Some x, ?t)"
    using assms(1,2) by (simp add: workqueue_ok_def wqs_get_def)
  then obtain q1 where get: "wq_Get wq q = Some (Some x, q1)" and q1: "st q1 = ?t" by auto
  have "st (wq_Done wq x (wq_Forget wq x q1)) = wqs_done x ?t"
    using assms(1) by (simp add: workqueue_ok_def q1)
  moreover have "wqs_queue (wqs_done x ?t) = xs \<and> wqs_shutdown (wqs_done x ?t) = wqs_shutdown (st q)"
    by (simp add: wqs_done_def)
  moreover have "wqs_inv (wqs_done x ?t)"
    using assms(2,3) by (auto simp: wqs_inv_def wqs_done_def)
  ultimately show thesis using that [of q1] by (simp add: processItem_def get)
qed

lemma processItem_shutdown:
  assumes "workqueue_ok wq st" and "wqs_queue (st q) = []" and "wqs_shutdown (st q)"
  obtains q1 where "processItem wq h q s = Some (Ok (False, q1, s))" and "st q1 = st q"
proof -
  have "map_option (\<lambda>(x, q). (x, st q)) (wq_Get wq q) = Some (None, st q)"
    using assms by (simp add: workqueue_ok_def wqs_get_def)
  then show thesis using that by (auto simp: processItem_def)
qed

lemma runWorker_drain:
  assumes ok: "workqueue_ok wq st" and "wqs_queue (st q) = xs" and "wqs_inv (st q)" and "wqs_shutdown (st q)"
    and "each (dispatchEvent h) xs s = Ok t"
  shows "\<exists>q'. runWorker wq h q s = Some (Ok (q', t)) \<and> wqs_queue (st q') = []"
  using assms(2-5)
proof (induction xs arbitrary: q s)
  case Nil
  obtain q1 where "processItem wq h q s = Some (Ok (False, q1, s))" and "st q1 = st q"
    by (rule processItem_shutdown [OF ok Nil(1,3)])
  then show ?case using Nil by (simp add: runWorker.simps)
next
  case (Cons x xs)
  obtain s1 where s1: "dispatchEvent h x s = Ok s1" and rest: "each (dispatchEvent h) xs s1 = Ok t"
    using Cons.prems(4) by (auto simp: go_simps)
  obtain q1 where p: "processItem wq h q s =
      Some (and_then (dispatchEvent h x s) (\<lambda>t. Ok (True, wq_Done wq x (wq_Forget wq x q1), t)))"
    and q1: "wqs_queue (st (wq_Done wq x (wq_Forget wq x q1))) = xs"
      "wqs_inv (st (wq_Done wq x (wq_Forget wq x q1)))"
      "wqs_shutdown (st (wq_Done wq x (wq_Forget wq x q1))) = wqs_shutdown (st q)"
    by (rule processItem_queued [OF ok Cons.prems(1,2)])
  show ?case
    using Cons.IH [OF q1(1,2) _ rest] q1(3) Cons.prems(3)
    by (simp add: runWorker.simps [of wq h q s] p s1)
qed

section \<open>One worker\<close>

text \<open>
  A worker empties the queue it is left with at shutdown and stops: on any queue that behaves as
  documented, with the items \<open>xs\<close> queued and the shutdown requested, \<^verbatim>\<open>runWorker\<close> returns after it has
  handed every item to the handler, once, in the order of the queue, provided no handler call
  panics; an error of the handler drops its event and does not stop the worker.
\<close>

lemma runWorker_drains_at_shutdown:
  assumes "workqueue_ok wq st" and "wqs_inv (st q)" and "wqs_shutdown (st q)"
    and "\<forall>x \<in> set (wqs_queue (st q)). \<forall>s. \<not> is_Panic (dispatchEvent h x s)"
  shows "\<exists>q' t. runWorker wq h q s = Some (Ok (q', t)) \<and>
    each (dispatchEvent h) (wqs_queue (st q)) s = Ok t \<and> wqs_queue (st q') = []"
proof -
  have "\<exists>t. each (dispatchEvent h) xs s = Ok t"
    if "\<forall>x \<in> set xs. \<forall>s. \<not> is_Panic (dispatchEvent h x s)" for xs s
    using that
  proof (induction xs arbitrary: s)
    case (Cons x xs)
    have "\<not> is_Panic (dispatchEvent h x s)" using Cons.prems by simp
    then obtain s1 where "dispatchEvent h x s = Ok s1"
      using dispatchEvent_not_Err [of h x s] by (cases "dispatchEvent h x s") auto
    then show ?case using Cons by simp
  qed simp
  then obtain t where t: "each (dispatchEvent h) (wqs_queue (st q)) s = Ok t" using assms(4) by blast
  from runWorker_drain [OF assms(1) refl assms(2,3) t] show ?thesis using t by auto
qed

text \<open>A handler that counts the additions and refuses updates.\<close>

definition counting_handler :: "(nat, nat) EventHandler" where
  "counting_handler =
     \<lparr>eh_OnAdd = (\<lambda>x n. Ok (Suc n)), eh_OnUpdate = (\<lambda>x y n. Err (ErrorsNew ''no'')), eh_OnDelete = (\<lambda>x n. Ok n)\<rparr>"

text \<open>
  An event is not lost in the queue: on a documented queue that is not shut down, an addition, update
  or deletion that is not being processed is queued after the informer's call, with the kind and the
  objects of the call, and it is queued only once.
\<close>

lemma enqueued_events_are_queued:
  assumes "workqueue_ok wq st" and "wqs_inv (st q)" and "\<not> wqs_shutdown (st q)"
    and "set (wqs_processing (st q)) = {}"
  shows "count_list (wqs_queue (st (QueuedEventHandler_OnAdd wq obj q)))
      (Event \<lparr>qe_kind = kindAdd, qe_object = obj, qe_oldObj = None, qe_newObj = None\<rparr>) = 1 \<and>
    count_list (wqs_queue (st (QueuedEventHandler_OnUpdate wq old new q)))
      (Event \<lparr>qe_kind = kindUpdate, qe_object = None, qe_oldObj = old, qe_newObj = new\<rparr>) = 1 \<and>
    count_list (wqs_queue (st (QueuedEventHandler_OnDelete wq obj q)))
      (Event \<lparr>qe_kind = kindDelete, qe_object = obj, qe_oldObj = None, qe_newObj = None\<rparr>) = 1"
proof -
  have "count_list xs x = 1" if "distinct xs" and "x \<in> set xs" for xs and x :: "'a item"
    using that by (induction xs) (auto simp: count_list_0_iff)
  then have "count_list (wqs_queue (wqs_add x (st q))) x = 1" for x
    using wqs_add_inv [OF assms(2), of x] wqs_add_queued [OF assms(2,3), of x] assms(4)
    by (simp add: wqs_inv_def)
  then show ?thesis
    using assms(1)
    by (simp add: workqueue_ok_def QueuedEventHandler_OnAdd_def QueuedEventHandler_OnUpdate_def
        QueuedEventHandler_OnDelete_def)
qed

end
