(* ===== verification/Notify.thy ===== *)
theory Notify
  imports Endpoints Watchers Queued_Handler
begin

text \<open>
  The change handlers of \<^verbatim>\<open>gtc/notify.go\<close>. The informers hand them the objects that changed; they
  translate a change to the names of the xDS resources it affects and notify the watchers of each.
  The handlers and the resolvers never call each other: what ties them together is that the names
  agree and that the match of a slice against a backend covers every slice the endpoint handler
  reads for it. Both handlers keep the contract \<open>event_handler\<close> of the queue.
\<close>

text \<open>
  An informer's object has the dynamic type \<^verbatim>\<open>any\<close>: nil, a pointer to a listener or to an endpoint
  slice, or the tombstone client-go delivers when it missed a deletion. \<^verbatim>\<open>apimeta.Accessor\<close>, which reads the metadata of an
  object, is a parameter; it is documented to fail on what has no metadata.
\<close>

datatype k8s_object = NilObj | ListenerObj GRPCListener | SliceObj EndpointSlice | Tombstone string

type_synonym meta_accessor = "k8s_object \<Rightarrow> go_error + ObjectMeta"

definition accessor_ok :: "meta_accessor \<Rightarrow> bool" where
  "accessor_ok acc \<longleftrightarrow> (\<forall>s. acc (SliceObj s) = Inr (es_ObjectMeta s))"

definition sample_accessor :: meta_accessor where
  "sample_accessor obj =
     (case obj of
        NilObj \<Rightarrow> Inl (LibraryError ''object does not implement the Object interfaces'')
      | ListenerObj l \<Rightarrow> Inr (gl_ObjectMeta l)
      | SliceObj s \<Rightarrow> Inr (es_ObjectMeta s)
      | Tombstone k \<Rightarrow> Inl (LibraryError ''object does not implement the Object interfaces''))"

lemma sample_accessor_ok: "accessor_ok sample_accessor"
  by (simp add: accessor_ok_def sample_accessor_def)

section \<open>The listener handler\<close>

definition listener_ref :: "xdslib \<Rightarrow> GRPCListener \<Rightarrow> resourceRef" where
  "listener_ref lib lis =
     \<lparr>ref_typeURL = ListenerType lib, ref_resourceName = listenerName (lis_Namespace lis) (lis_Name lis)\<rparr>"

definition cluster_ref :: "xdslib \<Rightarrow> GRPCListener \<Rightarrow> nat \<Rightarrow> nat \<Rightarrow> resourceRef" where
  "cluster_ref lib lis routeID backendID =
     \<lparr>ref_typeURL = ClusterType lib,
      ref_resourceName = backendName (lis_Namespace lis) (lis_Name lis) (int routeID) (int backendID)\<rparr>"

definition endpoint_ref :: "xdslib \<Rightarrow> GRPCListener \<Rightarrow> nat \<Rightarrow> nat \<Rightarrow> resourceRef" where
  "endpoint_ref lib lis routeID backendID =
     \<lparr>ref_typeURL = EndpointType lib,
      ref_resourceName = backendName (lis_Namespace lis) (lis_Name lis) (int routeID) (int backendID)\<rparr>"

definition grpcListenerChangedHandler_handle :: "xdslib \<Rightarrow> k8s_object \<Rightarrow> watches \<Rightarrow> watches outcome" where
  "grpcListenerChangedHandler_handle lib obj w =
     (case obj of
        ListenerObj lis \<Rightarrow>
          for_range
            (\<lambda>routeID route w.
              for_range
                (\<lambda>backendID _ w.
                  Ok (watches_notifyChanged (endpoint_ref lib lis routeID backendID)
                       (watches_notifyChanged (cluster_ref lib lis routeID backendID) w)))
                0 (rt_Backends route) w)
            0 (lis_Routes lis) (watches_notifyChanged (listener_ref lib lis) w)
      | _ \<Rightarrow> Ok w)"

definition grpcListenerChangedHandler_OnAdd :: "xdslib \<Rightarrow> k8s_object \<Rightarrow> watches \<Rightarrow> watches outcome" where
  "grpcListenerChangedHandler_OnAdd lib obj w = grpcListenerChangedHandler_handle lib obj w"

definition grpcListenerChangedHandler_OnUpdate ::
    "xdslib \<Rightarrow> k8s_object \<Rightarrow> k8s_object \<Rightarrow> watches \<Rightarrow> watches outcome" where
  "grpcListenerChangedHandler_OnUpdate lib oldObj newObj w = grpcListenerChangedHandler_handle lib newObj w"

definition grpcListenerChangedHandler_OnDelete :: "xdslib \<Rightarrow> k8s_object \<Rightarrow> watches \<Rightarrow> watches outcome" where
  "grpcListenerChangedHandler_OnDelete lib obj w = grpcListenerChangedHandler_handle lib obj w"

section \<open>The endpoint slice handler\<close>

text \<open>A label that is not set reads as the empty string.\<close>

definition matchesService :: "ObjectMeta \<Rightarrow> GRPCListener \<Rightarrow> ServiceRef option \<Rightarrow> bool outcome" where
  "matchesService epSlice listener serviceRef =
     and_then (deref serviceRef) (\<lambda>svc.
       let svcName = (case om_Labels epSlice ''kubernetes.io/service-name'' of None \<Rightarrow> [] | Some v \<Rightarrow> v) in
       if svcName \<noteq> sr_Name svc then Ok False
       else Ok (lis_Namespace listener = om_Namespace epSlice \<or>
                (sr_Namespace svc \<noteq> [] \<and> sr_Namespace svc = om_Namespace epSlice)))"

primrec matchesLocalities :: "ObjectMeta \<Rightarrow> GRPCListener \<Rightarrow> Locality list \<Rightarrow> bool outcome" where
  "matchesLocalities epSlice listener [] = Ok False"
| "matchesLocalities epSlice listener (loc # locs) =
     and_then (matchesService epSlice listener (lo_Service loc)) (\<lambda>matches.
       if matches then Ok True else matchesLocalities epSlice listener locs)"

definition matchesBackend :: "ObjectMeta \<Rightarrow> GRPCListener \<Rightarrow> Backend \<Rightarrow> bool outcome" where
  "matchesBackend epSlice listener backend =
     (if bk_Service backend \<noteq> None then matchesService epSlice listener (bk_Service backend)
      else if length (bk_Localities backend) > 0 then matchesLocalities epSlice listener (bk_Localities backend)
      else Ok False)"

definition endpointSliceChangedHandler_handle ::
    "xdslib \<Rightarrow> meta_accessor \<Rightarrow> listener_cache \<Rightarrow> k8s_object \<Rightarrow> watches \<Rightarrow> watches outcome" where
  "endpointSliceChangedHandler_handle lib acc ix obj w =
     and_then (of_lib (acc obj)) (\<lambda>objMeta.
     and_then (GRPCListenerLister_List ix Everything) (\<lambda>listeners.
       for_range
         (\<lambda>_ lis w.
           for_range
             (\<lambda>routeID route w.
               for_range
                 (\<lambda>backendID backend w.
                   and_then (matchesBackend objMeta lis backend) (\<lambda>matches.
                     if matches then Ok (watches_notifyChanged (endpoint_ref lib lis routeID backendID) w)
                     else Ok w))
                 0 (rt_Backends route) w)
             0 (lis_Routes lis) w)
         0 listeners w))"

definition endpointSliceChangedHandler_OnAdd ::
    "xdslib \<Rightarrow> meta_accessor \<Rightarrow> listener_cache \<Rightarrow> k8s_object \<Rightarrow> watches \<Rightarrow> watches outcome" where
  "endpointSliceChangedHandler_OnAdd lib acc ix obj w = endpointSliceChangedHandler_handle lib acc ix obj w"

definition endpointSliceChangedHandler_OnUpdate ::
    "xdslib \<Rightarrow> meta_accessor \<Rightarrow> listener_cache \<Rightarrow> k8s_object \<Rightarrow> k8s_object \<Rightarrow> watches \<Rightarrow> watches outcome" where
  "endpointSliceChangedHandler_OnUpdate lib acc ix oldObj newObj w =
     endpointSliceChangedHandler_handle lib acc ix newObj w"

definition endpointSliceChangedHandler_OnDelete ::
    "xdslib \<Rightarrow> meta_accessor \<Rightarrow> listener_cache \<Rightarrow> k8s_object \<Rightarrow> watches \<Rightarrow> watches outcome" where
  "endpointSliceChangedHandler_OnDelete lib acc ix obj w = endpointSliceChangedHandler_handle lib acc ix obj w"

section \<open>The references a change notifies\<close>

text \<open>The backends of a listener with their positions, in the order the loops visit them.\<close>

definition backends_of :: "GRPCListener \<Rightarrow> (nat \<times> nat \<times> Backend) list" where
  "backends_of lis =
     concat (map (\<lambda>(i, r). map (\<lambda>(j, b). (i, j, b)) (enumerate 0 (rt_Backends r))) (enumerate 0 (lis_Routes lis)))"

definition listener_refs :: "xdslib \<Rightarrow> GRPCListener \<Rightarrow> resourceRef list" where
  "listener_refs lib lis =
     listener_ref lib lis #
       concat (map (\<lambda>(i, j, b). [cluster_ref lib lis i j, endpoint_ref lib lis i j]) (backends_of lis))"

definition endpoint_refs :: "xdslib \<Rightarrow> ObjectMeta \<Rightarrow> GRPCListener list \<Rightarrow> resourceRef list" where
  "endpoint_refs lib objMeta ls =
     concat (map (\<lambda>lis. map (\<lambda>(i, j, b). endpoint_ref lib lis i j)
       (filter (\<lambda>(i, j, b). matchesBackend objMeta lis b = Ok True) (backends_of lis))) ls)"

lemma backends_of_set:
  "(i, j, b) \<in> set (backends_of lis) \<longleftrightarrow>
     i < length (lis_Routes lis) \<and> j < length (rt_Backends (lis_Routes lis ! i)) \<and>
     b = rt_Backends (lis_Routes lis ! i) ! j"
  by (force simp: backends_of_def in_set_enumerate_eq)

lemma backends_of_distinct: "distinct (map (\<lambda>(i, j, b). (i, j)) (backends_of lis))"
proof -
  have "distinct (concat (map (\<lambda>(i, r). map (\<lambda>(j, b). (i, j)) (enumerate 0 (f r))) (enumerate n rs)))"
    for f :: "Route \<Rightarrow> Backend list" and n rs
  proof (induction rs arbitrary: n)
    case (Cons r rs)
    have "distinct (map (\<lambda>(j, b). (n, j)) (enumerate 0 (f r)))"
      by (auto simp: distinct_map distinct_enumerate inj_on_def in_set_enumerate_eq)
    moreover have "(n, j) \<notin> set (concat (map (\<lambda>(i, r). map (\<lambda>(j, b). (i, j)) (enumerate 0 (f r)))
        (enumerate (Suc n) rs)))" for j
      by (auto simp: in_set_enumerate_eq)
    ultimately show ?case using Cons.IH [of "Suc n"] by (auto simp: in_set_enumerate_eq)
  qed simp
  from this [of rt_Backends 0 "lis_Routes lis"] show ?thesis
    by (simp add: backends_of_def map_concat comp_def case_prod_unfold)
qed

lemma backends_loop:
  "for_range (\<lambda>i r s. for_range (\<lambda>j b. g i j b) 0 (rt_Backends r) s) 0 (lis_Routes lis) s =
     each (\<lambda>(i, j, b). g i j b) (backends_of lis) s"
proof -
  have inner: "for_range (g i) 0 bs s =
      each (\<lambda>(i, j, b). g i j b) (map (\<lambda>(j, b). (i, j, b)) (enumerate 0 bs)) s" for i bs s
    by (simp add: for_range_each each_map case_prod_unfold)
  show ?thesis
    unfolding for_range_each [of _ 0 "lis_Routes lis"] backends_of_def each_concat [symmetric] inner
    by (simp add: case_prod_unfold)
qed

lemma fold_concat_pairs:
  "fold f (concat (map (\<lambda>(i, j, b). [p i j, q i j]) xs)) s =
     fold (\<lambda>(i, j, b) s. f (q i j) (f (p i j) s)) xs s"
  by (induction xs arbitrary: s) auto

lemma grpcListenerChanged_refs:
  "grpcListenerChangedHandler_handle lib (ListenerObj lis) w =
     Ok (fold watches_notifyChanged (listener_refs lib lis) w)"
proof -
  let ?g = "\<lambda>i j (b :: Backend) w. Ok (watches_notifyChanged (endpoint_ref lib lis i j)
      (watches_notifyChanged (cluster_ref lib lis i j) w))"
  have "each (\<lambda>(i, j, b). ?g i j b) bs w' = Ok (fold watches_notifyChanged
      (concat (map (\<lambda>(i, j, b). [cluster_ref lib lis i j, endpoint_ref lib lis i j]) bs)) w')" for bs w'
    unfolding fold_concat_pairs by (rule each_pure) auto
  then show ?thesis
    by (simp add: grpcListenerChangedHandler_handle_def backends_loop [of ?g] listener_refs_def)
qed

text \<open>
  The endpoint slice handler visits every backend; a locality without a service would make it panic.
\<close>

definition services_ok :: "GRPCListener list \<Rightarrow> bool" where
  "services_ok ls \<longleftrightarrow>
     (\<forall>lis \<in> set ls. \<forall>r \<in> set (lis_Routes lis). \<forall>b \<in> set (rt_Backends r). localities_have_services b)"

lemma services_okD:
  "services_ok ls \<Longrightarrow> lis \<in> set ls \<Longrightarrow> (i, j, b) \<in> set (backends_of lis) \<Longrightarrow> localities_have_services b"
  unfolding services_ok_def backends_of_set by (elim conjE) (metis nth_mem)

lemma matchesService_Some:
  "matchesService m lis (Some svc) =
     Ok ((case om_Labels m ''kubernetes.io/service-name'' of None \<Rightarrow> [] | Some v \<Rightarrow> v) = sr_Name svc \<and>
         (lis_Namespace lis = om_Namespace m \<or> sr_Namespace svc \<noteq> [] \<and> sr_Namespace svc = om_Namespace m))"
  by (simp add: matchesService_def)

lemma matchesLocalities_eq:
  "\<forall>loc \<in> set locs. lo_Service loc \<noteq> None \<Longrightarrow>
     matchesLocalities m lis locs = Ok (\<exists>loc \<in> set locs. matchesService m lis (lo_Service loc) = Ok True)"
  by (induction locs) (auto simp: matchesService_Some)

lemma matchesBackend_total: "localities_have_services b \<Longrightarrow> \<exists>t. matchesBackend m lis b = Ok t"
  by (auto simp: matchesBackend_def localities_have_services_def matchesService_Some matchesLocalities_eq)

lemma fold_concat_map: "fold f (concat (map g xs)) s = fold (\<lambda>x. fold f (g x)) xs s"
  by (induction xs arbitrary: s) auto

lemma match_loop:
  assumes "\<forall>(i, j, b) \<in> set bs. \<exists>t. matchesBackend m lis b = Ok t"
  shows "each (\<lambda>(i, j, b) w. and_then (matchesBackend m lis b) (\<lambda>matches.
      if matches then Ok (watches_notifyChanged (ref i j) w) else Ok w)) bs w =
    Ok (fold watches_notifyChanged
      (map (\<lambda>(i, j, b). ref i j) (filter (\<lambda>(i, j, b). matchesBackend m lis b = Ok True) bs)) w)"
  using assms by (induction bs arbitrary: w) auto

lemma endpointSliceChanged_refs:
  assumes "accessor_ok acc" and "caches ix ls" and "services_ok ls"
  shows "endpointSliceChangedHandler_handle lib acc ix (SliceObj s) w =
    Ok (fold watches_notifyChanged (endpoint_refs lib (es_ObjectMeta s) ls) w)"
proof -
  let ?m = "es_ObjectMeta s"
  have "for_range (\<lambda>i r w. for_range (\<lambda>j b w. and_then (matchesBackend ?m lis b) (\<lambda>matches.
        if matches then Ok (watches_notifyChanged (endpoint_ref lib lis i j) w) else Ok w))
      0 (rt_Backends r) w) 0 (lis_Routes lis) w =
    Ok (fold watches_notifyChanged (map (\<lambda>(i, j, b). endpoint_ref lib lis i j)
       (filter (\<lambda>(i, j, b). matchesBackend ?m lis b = Ok True) (backends_of lis))) w)"
    if "lis \<in> set ls" for lis w
  proof -
    have "\<forall>(i, j, b) \<in> set (backends_of lis). \<exists>t. matchesBackend ?m lis b = Ok t"
      using services_okD [OF assms(3) that] matchesBackend_total by blast
    then show ?thesis unfolding backends_loop by (rule match_loop)
  qed
  then show ?thesis
    using assms(1,2)
    by (simp add: endpointSliceChangedHandler_handle_def accessor_ok_def GRPCListenerLister_List_def
        caches_def endpoint_refs_def fold_concat_map for_range_pure)
qed

section \<open>The effect of a series of notifications\<close>

lemma fold_notify:
  assumes "watches_inv w"
  shows "watches_inv (fold watches_notifyChanged refs w) \<and>
    subscribers (fold watches_notifyChanged refs w) = subscribers w \<and>
    live_watchers (fold watches_notifyChanged refs w) = live_watchers w \<and>
    count (mset (ws_goroutines (fold watches_notifyChanged refs w))) (wa, r) =
      count (mset (ws_goroutines w)) (wa, r) + (if wa \<in> subscribers w r then count_list refs r else 0)"
  using assms
proof (induction refs arbitrary: w)
  case (Cons ref refs)
  note one = registry.notify_spec [OF Cons.prems, of ref]
  show ?case
    using Cons.IH [of "watches_notifyChanged ref w"] one registry.notify_count [OF Cons.prems, of ref wa r]
    by (auto split: if_splits)
qed simp

section \<open>The names are distinct\<close>

lemma count_list_distinct: "distinct xs \<Longrightarrow> count_list xs x = (if x \<in> set xs then 1 else 0)"
  by (induction xs) auto

lemma listener_refs_distinct:
  assumes "type_urls_distinct lib" and "k8s_listener lis" and "small_listener lis"
  shows "distinct (listener_refs lib lis)"
proof -
  have name: "backendName (lis_Namespace lis) (lis_Name lis) (int i) (int j) =
      parsedBackendName_String (backend_ref lis i j)" for i j
    by (simp add: parsedBackendName_String_def backend_ref_def)
  have inj: "i = i' \<and> j = j'" if "(i, j, b) \<in> set (backends_of lis)" "(i', j', b') \<in> set (backends_of lis)"
    "backendName (lis_Namespace lis) (lis_Name lis) (int i) (int j) =
     backendName (lis_Namespace lis) (lis_Name lis) (int i') (int j')" for i j b i' j' b'
    using that backend_names.render_inj backend_ref_key_ok [OF assms(2,3)]
    by (auto simp: name backends_of_set) (auto simp: backend_ref_def)
  have "distinct (concat (map (\<lambda>(i, j, b). [cluster_ref lib lis i j, endpoint_ref lib lis i j]) bs))"
    if "distinct (map (\<lambda>(i, j, b). (i, j)) bs)" and "set bs \<subseteq> set (backends_of lis)" for bs
    using that
  proof (induction bs)
    case (Cons x bs)
    obtain i j b where x: "x = (i, j, b)" by (cases x)
    have mem: "(i, j, b) \<in> set (backends_of lis)" and sub: "set bs \<subseteq> set (backends_of lis)"
      and fresh: "(i, j) \<notin> set (map (\<lambda>(i, j, b). (i, j)) bs)"
      using Cons.prems by (auto simp: x)
    have other: "backendName (lis_Namespace lis) (lis_Name lis) (int i) (int j) \<noteq>
        backendName (lis_Namespace lis) (lis_Name lis) (int i') (int j')"
      if y: "(i', j', b') \<in> set bs" for i' j' b'
      using inj [OF mem subsetD [OF sub y]] y fresh by force
    have "cluster_ref lib lis i j \<notin> set (concat (map (\<lambda>(i, j, b). [cluster_ref lib lis i j, endpoint_ref lib lis i j]) bs))"
      and "endpoint_ref lib lis i j \<notin> set (concat (map (\<lambda>(i, j, b). [cluster_ref lib lis i j, endpoint_ref lib lis i j]) bs))"
      and "cluster_ref lib lis i j \<noteq> endpoint_ref lib lis i j"
      using other assms(1) by (auto simp: cluster_ref_def endpoint_ref_def type_urls_distinct_def)
    then show ?case using Cons.IH [OF _ sub] Cons.prems(1) by (simp add: x)
  qed simp
  then show ?thesis
    using backends_of_distinct [of lis] assms(1)
    by (auto simp: listener_refs_def listener_ref_def cluster_ref_def endpoint_ref_def type_urls_distinct_def)
qed

section \<open>The handlers keep the contract of an event handler\<close>

text \<open>Handlers start goroutines and never touch a subscription or a watcher.\<close>

definition only_notifies :: "watches \<Rightarrow> watches \<Rightarrow> bool" where
  "only_notifies w w' \<longleftrightarrow>
     subscribers w' = subscribers w \<and> live_watchers w' = live_watchers w \<and>
     mset (ws_goroutines w) \<subseteq># mset (ws_goroutines w')"

lemma only_notifies_trans: "only_notifies w u \<Longrightarrow> only_notifies u v \<Longrightarrow> only_notifies w v"
  by (auto simp: only_notifies_def)

lemma notify_only_notifies:
  assumes "watches_inv w"
  shows "watches_inv (watches_notifyChanged ref w) \<and> only_notifies w (watches_notifyChanged ref w)"
  using registry.notify_spec [OF assms, of ref] by (simp add: only_notifies_def)

lemma fold_only_notifies:
  "watches_inv w \<Longrightarrow> watches_inv (fold watches_notifyChanged refs w) \<and>
     only_notifies w (fold watches_notifyChanged refs w)"
proof (induction refs arbitrary: w)
  case Nil
  then show ?case by (simp add: only_notifies_def)
next
  case (Cons ref refs)
  then show ?case
    using notify_only_notifies [OF Cons.prems, of ref] Cons.IH [of "watches_notifyChanged ref w"]
    by (auto intro: only_notifies_trans)
qed

lemma grpcListenerChanged_only_notifies:
  assumes "watches_inv w" and "grpcListenerChangedHandler_handle lib obj w = Ok w'"
  shows "watches_inv w' \<and> only_notifies w w'"
proof (cases obj)
  case (ListenerObj lis)
  then show ?thesis using assms fold_only_notifies by (auto simp: grpcListenerChanged_refs)
qed (use assms in \<open>auto simp: grpcListenerChangedHandler_handle_def only_notifies_def\<close>)

lemma endpointSliceChanged_only_notifies:
  assumes "watches_inv w" and "endpointSliceChangedHandler_handle lib acc ix obj w = Ok w'"
  shows "watches_inv w' \<and> only_notifies w w'"
proof -
  let ?P = "\<lambda>u. watches_inv u \<and> only_notifies w u"
  obtain m ls where "for_range (\<lambda>_ lis w. for_range (\<lambda>i r w. for_range (\<lambda>j b w.
      and_then (matchesBackend m lis b) (\<lambda>matches.
        if matches then Ok (watches_notifyChanged (endpoint_ref lib lis i j) w) else Ok w))
      0 (rt_Backends r) w) 0 (lis_Routes lis) w) 0 ls w = Ok w'"
    using assms(2) unfolding endpointSliceChangedHandler_handle_def and_then_Ok by blast
  then have loop: "each (\<lambda>(k, lis). each (\<lambda>(i, j, b) w. and_then (matchesBackend m lis b) (\<lambda>matches.
      if matches then Ok (watches_notifyChanged (endpoint_ref lib lis i j) w) else Ok w))
      (backends_of lis)) (enumerate 0 ls) w = Ok w'"
    unfolding backends_loop for_range_each [of _ 0 ls] .
  have step: "?P u'" if "?P u" and "and_then (matchesBackend m lis b) (\<lambda>matches.
      if matches then Ok (watches_notifyChanged (endpoint_ref lib lis i j) u) else Ok u) = Ok u'" for lis i j b u u'
    using that notify_only_notifies [of u "endpoint_ref lib lis i j"]
    by (auto simp: go_simps split: if_splits intro: only_notifies_trans)
  have inner: "?P u'" if "?P u" and "each (\<lambda>(i, j, b) w. and_then (matchesBackend m lis b) (\<lambda>matches.
      if matches then Ok (watches_notifyChanged (endpoint_ref lib lis i j) w) else Ok w))
      (backends_of lis) u = Ok u'" for lis u u'
  proof (rule each_invariant [OF that(2), of ?P, OF that(1)])
    show "?P t" if "?P v" and "(case x of (i, j, b) \<Rightarrow> \<lambda>w. and_then (matchesBackend m lis b) (\<lambda>matches.
      if matches then Ok (watches_notifyChanged (endpoint_ref lib lis i j) w) else Ok w)) v = Ok t" for x v t
      using that(2) by (cases x) (simp only: prod.case, rule step [OF that(1)])
  qed
  show ?thesis
  proof (rule each_invariant [OF loop, of ?P])
    show "?P w" using assms(1) by (simp add: only_notifies_def)
    show "?P t" if "?P v" and "(case x of (k, lis) \<Rightarrow> each (\<lambda>(i, j, b) w. and_then (matchesBackend m lis b)
      (\<lambda>matches. if matches then Ok (watches_notifyChanged (endpoint_ref lib lis i j) w) else Ok w))
      (backends_of lis)) v = Ok t" for x v t
      using that(2) by (cases x) (simp only: prod.case, rule inner [OF that(1)])
  qed
qed

text \<open>The queue passes pointers; \<open>mem\<close> is the memory they point to.\<close>

definition load :: "('p \<Rightarrow> k8s_object) \<Rightarrow> 'p option \<Rightarrow> k8s_object" where
  "load mem p = (case p of None \<Rightarrow> NilObj | Some a \<Rightarrow> mem a)"

interpretation listener_events: event_handler
    "\<lambda>p. grpcListenerChangedHandler_OnAdd lib (load mem p)"
    "\<lambda>p p'. grpcListenerChangedHandler_OnUpdate lib (load mem p) (load mem p')"
    "\<lambda>p. grpcListenerChangedHandler_OnDelete lib (load mem p)" watches_inv only_notifies for lib mem
proof unfold_locales
  show "only_notifies w w" for w by (simp add: only_notifies_def)
qed (auto intro: only_notifies_trans dest: grpcListenerChanged_only_notifies
    simp: grpcListenerChangedHandler_OnAdd_def grpcListenerChangedHandler_OnUpdate_def
      grpcListenerChangedHandler_OnDelete_def)

interpretation slice_events: event_handler
    "\<lambda>p. endpointSliceChangedHandler_OnAdd lib acc ix (load mem p)"
    "\<lambda>p p'. endpointSliceChangedHandler_OnUpdate lib acc ix (load mem p) (load mem p')"
    "\<lambda>p. endpointSliceChangedHandler_OnDelete lib acc ix (load mem p)" watches_inv only_notifies
    for lib acc ix mem
proof unfold_locales
  show "only_notifies w w" for w by (simp add: only_notifies_def)
qed (auto intro: only_notifies_trans dest: endpointSliceChanged_only_notifies
    simp: endpointSliceChangedHandler_OnAdd_def endpointSliceChangedHandler_OnUpdate_def
      endpointSliceChangedHandler_OnDelete_def)

section \<open>The match covers what the endpoint handler reads\<close>

definition same_service :: "ObjectMeta \<Rightarrow> EndpointSlice \<Rightarrow> bool" where
  "same_service m s \<longleftrightarrow>
     om_Namespace (es_ObjectMeta s) = om_Namespace m \<and>
     om_Labels (es_ObjectMeta s) ''kubernetes.io/service-name'' = om_Labels m ''kubernetes.io/service-name''"

text \<open>
  Two contents of the slice cache that differ in slices of one service only: what any number of
  additions, updates and deletions of that service's slices do to the cache.
\<close>

definition differ_in_service :: "ObjectMeta \<Rightarrow> EndpointSlice list \<Rightarrow> EndpointSlice list \<Rightarrow> bool" where
  "differ_in_service m content content' \<longleftrightarrow>
     filter (\<lambda>s. \<not> same_service m s) content = filter (\<lambda>s. \<not> same_service m s) content'"

lemma unmatched_service_slices:
  assumes "matchesService m lis (Some svc) \<noteq> Ok True" and "differ_in_service m content content'"
  shows "filter (slice_of_service (serviceNamespace svc lis) (sr_Name svc)) content =
    filter (slice_of_service (serviceNamespace svc lis) (sr_Name svc)) content'"
proof -
  let ?in = "slice_of_service (serviceNamespace svc lis) (sr_Name svc)"
  have "?in s \<and> \<not> same_service m s \<longleftrightarrow> ?in s" for s
    using assms(1)
    by (auto simp: same_service_def slice_of_service_def serviceNamespace_def matchesService_Some
        split: if_splits option.splits)
  then have "filter ?in xs = filter ?in (filter (\<lambda>s. \<not> same_service m s) xs)" for xs
    by (simp add: filter_filter conj_commute)
  then show ?thesis using assms(2) by (metis differ_in_service_def)
qed

lemma unmatched_service_lister:
  assumes "matchesService m lis (Some svc) \<noteq> Ok True" and "differ_in_service m content content'"
    and "selects_by_label lib" and "slices_cached sl content" and "slices_cached sl' content'"
    and "labels_NewRequirement lib ''kubernetes.io/service-name'' Equals [sr_Name svc] = Inr req"
  shows "sl (serviceNamespace svc lis) (Requirements [req]) = sl' (serviceNamespace svc lis) (Requirements [req])"
proof -
  have "label_value_ok lib (sr_Name svc)" using assms(6) by (auto simp: label_value_ok_def)
  then have "of_lib (sl (serviceNamespace svc lis) (Requirements [req])) =
      of_lib (sl' (serviceNamespace svc lis) (Requirements [req]))"
    using service_slices [OF assms(3) _ assms(4), of svc "serviceNamespace svc lis" Ok]
      service_slices [OF assms(3) _ assms(5), of svc "serviceNamespace svc lis" Ok]
      unmatched_service_slices [OF assms(1,2)] assms(6)
    by simp
  then show ?thesis
    by (cases "sl (serviceNamespace svc lis) (Requirements [req])";
        cases "sl' (serviceNamespace svc lis) (Requirements [req])") auto
qed

lemma traverse_cong:
  "(\<And>x. x \<in> set xs \<Longrightarrow> f x = g x) \<Longrightarrow> traverse (\<lambda>_. f) i xs = traverse (\<lambda>_. g) i xs"
  by (induction xs arbitrary: i) auto

text \<open>The addresses of a load assignment, over all its localities.\<close>

definition assigned_endpoints :: "ClusterLoadAssignment \<Rightarrow> LbEndpoint list" where
  "assigned_endpoints la = concat (map lle_LbEndpoints (List.map_filter id (cla_Endpoints la)))"

lemma assigned_endpoints_split:
  "mset (assigned_endpoints \<lparr>cla_ClusterName = nm, cla_Endpoints = map Some (zone_split svc zone ds)\<rparr>) = mset (lb_of ds)"
proof -
  have "List.map_filter id (map Some xs) = xs" for xs :: "LocalityLbEndpoints list"
    by (induction xs) (simp_all add: List.map_filter_simps)
  then show ?thesis by (simp add: assigned_endpoints_def lb_of_zone_split)
qed

text \<open>The services a backend's load assignment is built from, and the lister's answer for one of them.\<close>

definition services_of :: "Backend \<Rightarrow> ServiceRef list" where
  "services_of b =
     (case bk_Service b of Some svc \<Rightarrow> [svc] | None \<Rightarrow> List.map_filter lo_Service (bk_Localities b))"

definition service_query :: "xdslib \<Rightarrow> slice_lister \<Rightarrow> GRPCListener \<Rightarrow> ServiceRef \<Rightarrow> EndpointSlice list outcome" where
  "service_query lib sl lis svc =
     and_then (of_lib (labels_NewRequirement lib ''kubernetes.io/service-name'' Equals [sr_Name svc]))
       (\<lambda>req. of_lib (sl (serviceNamespace svc lis) (Requirements [req])))"

lemma makeLoadAssignment_cong:
  assumes "\<And>svc. svc \<in> set (services_of b) \<Longrightarrow> service_query lib sl lis svc = service_query lib sl' lis svc"
  shows "makeLoadAssignment lib sl node ref lis b = makeLoadAssignment lib sl' node ref lis b"
proof (cases "bk_Service b")
  case (Some svc)
  then show ?thesis
    using assms by (simp add: services_of_def makeLoadAssignment_def makeServiceLoadAssignment_def
        service_query_def and_then_assoc [symmetric])
next
  case None
  have "locality_of lib sl lis loc = locality_of lib sl' lis loc" if "loc \<in> set (bk_Localities b)" for loc
  proof (cases "lo_Service loc")
    case (Some svc)
    then have "svc \<in> set (services_of b)"
      using that by (force simp: services_of_def None List.map_filter_def)
    from assms [OF this] show ?thesis
      by (simp add: locality_of_def Some service_query_def and_then_assoc [symmetric])
  qed (simp add: locality_of_def)
  then have "traverse (\<lambda>_. locality_of lib sl lis) 0 (bk_Localities b) =
      traverse (\<lambda>_. locality_of lib sl' lis) 0 (bk_Localities b)"
    by (rule traverse_cong)
  then show ?thesis by (simp add: makeLoadAssignment_def None makeLocalitiesLoadAssignment_traverse)
qed

lemma unmatched_services:
  assumes "matchesBackend m lis b \<noteq> Ok True" and "localities_have_services b"
    and "differ_in_service m content content'" and "selects_by_label lib"
    and "slices_cached sl content" and "slices_cached sl' content'" and "svc \<in> set (services_of b)"
  shows "service_query lib sl lis svc = service_query lib sl' lis svc"
proof -
  have "matchesService m lis (Some svc) \<noteq> Ok True"
  proof (cases "bk_Service b")
    case (Some x)
    then show ?thesis using assms(1,7) by (simp add: matchesBackend_def services_of_def)
  next
    case None
    have locs: "\<forall>loc \<in> set (bk_Localities b). lo_Service loc \<noteq> None"
      using assms(2) None by (simp add: localities_have_services_def)
    obtain loc where "loc \<in> set (bk_Localities b)" and "lo_Service loc = Some svc"
      using assms(7) None by (auto simp: services_of_def List.map_filter_def)
    then show ?thesis
      using assms(1) None by (auto simp: matchesBackend_def matchesLocalities_eq [OF locs] split: if_splits)
  qed
  from unmatched_service_lister [OF this assms(3-6)] show ?thesis
    by (auto simp: service_query_def go_simps intro!: and_then_cong)
qed

lemma unmatched_backend_unchanged:
  assumes "matchesBackend m lis b \<noteq> Ok True" and "localities_have_services b"
    and "differ_in_service m content content'" and "selects_by_label lib"
    and "slices_cached sl content" and "slices_cached sl' content'"
  shows "makeLoadAssignment lib sl node ref lis b = makeLoadAssignment lib sl' node ref lis b"
  by (rule makeLoadAssignment_cong) (rule unmatched_services [OF assms])

lemma endpoint_refs_mem:
  assumes "lis \<in> set ls" and "(i, j, b) \<in> set (backends_of lis)" and "matchesBackend m lis b = Ok True"
  shows "endpoint_ref lib lis i j \<in> set (endpoint_refs lib m ls)"
  using assms unfolding endpoint_refs_def by (auto intro!: bexI [of _ lis] image_eqI [of _ _ "(i, j, b)"])

section \<open>Properties\<close>

text \<open>C29:
  When a listener changes, the listener handler reports success and starts exactly one goroutine for
  every watcher of the listener, and for every watcher of the cluster and of the load assignment of
  each backend at each position of its routes; no other goroutine is started.
\<close>

theorem listener_change_notifies_exactly_once:
  assumes "type_urls_distinct lib" and "k8s_listener lis" and "small_listener lis" and "watches_inv w"
  shows "\<exists>w'. grpcListenerChangedHandler_handle lib (ListenerObj lis) w = Ok w' \<and>
    (\<forall>wa r. count (mset (ws_goroutines w')) (wa, r) = count (mset (ws_goroutines w)) (wa, r) +
      (if wa \<in> subscribers w r \<and>
          (r = listener_ref lib lis \<or>
           (\<exists>i < length (lis_Routes lis). \<exists>j < length (rt_Backends (lis_Routes lis ! i)).
              r = cluster_ref lib lis i j \<or> r = endpoint_ref lib lis i j)) then 1 else 0))"
proof -
  have "r \<in> set (listener_refs lib lis) \<longleftrightarrow> r = listener_ref lib lis \<or>
      (\<exists>i < length (lis_Routes lis). \<exists>j < length (rt_Backends (lis_Routes lis ! i)).
         r = cluster_ref lib lis i j \<or> r = endpoint_ref lib lis i j)" for r
    by (force simp: listener_refs_def backends_of_set)
  then show ?thesis
    using fold_notify [OF assms(4), of "listener_refs lib lis"] listener_refs_distinct [OF assms(1-3)]
    by (simp add: grpcListenerChanged_refs count_list_distinct)
qed

text \<open>C5:
  No client keeps a stale load assignment silently. Suppose slices of one service were added,
  updated or deleted, so that the answer of the endpoint handler for a backend of a cached listener
  is not what it was. Then the endpoint slice handler, called on any slice of that service, succeeds
  and starts a goroutine for every watcher of that backend's load assignment.
\<close>

theorem slice_change_reaches_watchers:
  assumes "accessor_ok acc" and "caches ix ls" and "services_ok ls" and "selects_by_label lib"
    and "lis \<in> set ls" and "i < length (lis_Routes lis)" and "j < length (rt_Backends (lis_Routes lis ! i))"
    and "differ_in_service (es_ObjectMeta s) content content'"
    and "slices_cached sl content" and "slices_cached sl' content'"
    and "makeLoadAssignment lib sl node ref lis (rt_Backends (lis_Routes lis ! i) ! j) \<noteq>
         makeLoadAssignment lib sl' node ref lis (rt_Backends (lis_Routes lis ! i) ! j)"
    and "watches_inv w" and "wa \<in> subscribers w (endpoint_ref lib lis i j)"
  shows "\<exists>w'. endpointSliceChangedHandler_handle lib acc ix (SliceObj s) w = Ok w' \<and>
    count (mset (ws_goroutines w')) (wa, endpoint_ref lib lis i j) >
    count (mset (ws_goroutines w)) (wa, endpoint_ref lib lis i j)"
proof -
  let ?b = "rt_Backends (lis_Routes lis ! i) ! j" and ?refs = "endpoint_refs lib (es_ObjectMeta s) ls"
  have b: "(i, j, ?b) \<in> set (backends_of lis)" using assms(6,7) by (simp add: backends_of_set)
  have "matchesBackend (es_ObjectMeta s) lis ?b = Ok True"
    using unmatched_backend_unchanged [OF _ services_okD [OF assms(3,5) b] assms(8,4,9,10)] assms(11) by blast
  then have "endpoint_ref lib lis i j \<in> set ?refs" by (rule endpoint_refs_mem [OF assms(5) b])
  then have "count_list ?refs (endpoint_ref lib lis i j) > 0" by (simp add: count_list_0_iff neq0_conv [symmetric])
  then show ?thesis
    using fold_notify [OF assms(12), of ?refs wa "endpoint_ref lib lis i j"] assms(13)
    by (simp add: endpointSliceChanged_refs [OF assms(1-3)])
qed

text \<open>
  The witnesses: a watcher of the sample backend's load assignment, and the sample slice appearing
  in an empty cache.
\<close>

definition sample_watches :: watches where
  "sample_watches = watcher_watch 0 (endpoint_ref sample_lib sample_listener 0 0) (snd (buildWatch newWatches))"

lemma sample_watches_inv: "watches_inv sample_watches"
proof -
  obtain w where b: "buildWatch newWatches = (0, w)" by (simp add: buildWatch_def newWatches_def)
  then have "watches_inv w" and "live_watchers w = insert 0 (live_watchers newWatches)"
    using buildWatch_effect [OF watches_inv_newWatches] by blast+
  then show ?thesis using watcher_watch_inv [of w 0] b by (simp add: sample_watches_def)
qed

lemma sample_watches_subscribed: "0 \<in> subscribers sample_watches (endpoint_ref sample_lib sample_listener 0 0)"
proof -
  have "watches_inv (snd (buildWatch newWatches))"
    using buildWatch_effect(1) [OF watches_inv_newWatches, of "fst (buildWatch newWatches)"] by simp
  then show ?thesis by (simp add: sample_watches_def watcher_watch_subscribers)
qed

lemma sample_small: "small_listener sample_listener"
  by (simp add: small_listener_def go_defs)

lemma sample_services: "services_ok [sample_listener]"
  by (simp add: services_ok_def localities_have_services_def go_defs)

theorem listener_change_notifies_exactly_once_witness:
  "\<exists>w'. grpcListenerChangedHandler_handle sample_lib (ListenerObj sample_listener) sample_watches = Ok w' \<and>
     count (mset (ws_goroutines w')) (0, endpoint_ref sample_lib sample_listener 0 0) =
     count (mset (ws_goroutines sample_watches)) (0, endpoint_ref sample_lib sample_listener 0 0) + 1"
proof -
  have pos: "\<exists>i < length (lis_Routes sample_listener). \<exists>j < length (rt_Backends (lis_Routes sample_listener ! i)).
      endpoint_ref sample_lib sample_listener 0 0 = cluster_ref sample_lib sample_listener i j \<or>
      endpoint_ref sample_lib sample_listener 0 0 = endpoint_ref sample_lib sample_listener i j"
    by (intro exI [of _ 0] conjI) (auto simp: sample_listener_def sample_route_def)
  from listener_change_notifies_exactly_once
      [OF sample_lib_distinct sample_listener_k8s sample_small sample_watches_inv]
  obtain w' where "grpcListenerChangedHandler_handle sample_lib (ListenerObj sample_listener) sample_watches = Ok w'"
    and "count (mset (ws_goroutines w')) (wa, r) = count (mset (ws_goroutines sample_watches)) (wa, r) +
      (if wa \<in> subscribers sample_watches r \<and>
          (r = listener_ref sample_lib sample_listener \<or>
           (\<exists>i < length (lis_Routes sample_listener). \<exists>j < length (rt_Backends (lis_Routes sample_listener ! i)).
              r = cluster_ref sample_lib sample_listener i j \<or> r = endpoint_ref sample_lib sample_listener i j))
       then 1 else 0)" for wa r
    by blast
  then show ?thesis using pos sample_watches_subscribed by (intro exI [of _ w']) simp
qed

lemma sample_slices_differ: "differ_in_service (es_ObjectMeta sample_slice) [] [sample_slice]"
  by (simp add: differ_in_service_def same_service_def)

lemma sample_assignments_differ:
  "makeLoadAssignment sample_lib (lister_of []) (Some sample_node) ref sample_listener sample_backend \<noteq>
   makeLoadAssignment sample_lib (lister_of [sample_slice]) (Some sample_node) ref sample_listener sample_backend"
proof -
  have svc: "bk_Service sample_backend = Some sample_service" by (simp add: go_defs)
  have "label_value_ok sample_lib (sr_Name sample_service)" by (simp add: label_value_ok_def sample_lib_def)
  note eq = makeServiceLoadAssignment_eq [OF sample_lib_selects lister_of_cached svc this]
  have "slice_of_service (serviceNamespace sample_service sample_listener) (sr_Name sample_service) sample_slice"
    by (simp add: slice_of_service_def serviceNamespace_def go_defs)
  then show ?thesis by (simp add: makeLoadAssignment_def svc eq sample_ready)
qed

theorem slice_change_reaches_watchers_witness:
  "\<exists>w'. endpointSliceChangedHandler_handle sample_lib sample_accessor (cache_of [sample_listener])
      (SliceObj sample_slice) sample_watches = Ok w' \<and>
    count (mset (ws_goroutines w')) (0, endpoint_ref sample_lib sample_listener 0 0) >
    count (mset (ws_goroutines sample_watches)) (0, endpoint_ref sample_lib sample_listener 0 0)"
proof (rule slice_change_reaches_watchers [OF sample_accessor_ok sample_cache sample_services sample_lib_selects
      _ _ _ sample_slices_differ lister_of_cached lister_of_cached _ sample_watches_inv sample_watches_subscribed])
  show "makeLoadAssignment sample_lib (lister_of []) (Some sample_node) (backend_ref sample_listener 0 0)
      sample_listener (rt_Backends (lis_Routes sample_listener ! 0) ! 0) \<noteq>
    makeLoadAssignment sample_lib (lister_of [sample_slice]) (Some sample_node) (backend_ref sample_listener 0 0)
      sample_listener (rt_Backends (lis_Routes sample_listener ! 0) ! 0)"
    using sample_assignments_differ by (simp add: sample_route_def sample_listener_def [THEN arg_cong, of gl_Spec])
qed (simp_all add: sample_listener_def sample_route_def)

text \<open>
  Which slices \<^verbatim>\<open>matchesService\<close> accepts, for a slice that carries the service label: those the endpoint
  handler reads for the reference, and in addition, when the reference names a namespace of its own,
  the slices of an equally named service in the listener's namespace. The match is complete; the
  excess costs a notification that changes nothing.
\<close>

lemma matchesService_over_approximates:
  assumes "om_Labels (es_ObjectMeta s) ''kubernetes.io/service-name'' = Some v"
  shows "matchesService (es_ObjectMeta s) lis (Some svc) = Ok True \<longleftrightarrow>
    slice_of_service (serviceNamespace svc lis) (sr_Name svc) s \<or>
    sr_Namespace svc \<noteq> [] \<and> slice_of_service (lis_Namespace lis) (sr_Name svc) s"
  using assms by (auto simp: matchesService_Some slice_of_service_def serviceNamespace_def)

text \<open>C39:
  A locality without a service, which the API type declares optional, brings the controller down: for
  a backend that has no service of its own and whose first locality has none either, the match of
  every changed slice panics on the nil pointer, and so does the load assignment of every client.
\<close>

theorem nil_locality_service_panics:
  assumes "bk_Service b = None" and "bk_Localities b = loc # locs" and "lo_Service loc = None"
  shows "matchesBackend m lis b = Panic NilDereference \<and>
    makeLoadAssignment lib sl node ref lis b = Panic NilDereference"
  using assms by (simp add: matchesBackend_def matchesService_def makeLoadAssignment_def
      makeLocalitiesLoadAssignment_traverse locality_of_def)

theorem nil_locality_service_panics_witness:
  "matchesBackend (es_ObjectMeta sample_slice) sample_listener (sample_backend\<lparr>bk_Service := None,
      bk_Localities := [\<lparr>lo_Weight = 1, lo_Priority = 0, lo_Service = None\<rparr>]\<rparr>) = Panic NilDereference"
  using nil_locality_service_panics [of "sample_backend\<lparr>bk_Service := None,
      bk_Localities := [\<lparr>lo_Weight = 1, lo_Priority = 0, lo_Service = None\<rparr>]\<rparr>"
      "\<lparr>lo_Weight = 1, lo_Priority = 0, lo_Service = None\<rparr>" "[]"]
  by simp

text \<open>Two backends have two names.\<close>

lemma endpoint_ref_inj:
  assumes "k8s_listener l" and "k8s_listener lis" and "endpoint_ref lib l i' j' = endpoint_ref lib lis i j"
  shows "lis_Namespace l = lis_Namespace lis \<and> lis_Name l = lis_Name lis \<and> i' = i \<and> j' = j"
proof -
  have plain: "plain_elem (lis_Namespace l)" "plain_elem (lis_Name l)"
    "plain_elem (lis_Namespace lis)" "plain_elem (lis_Name lis)"
    using assms(1,2) by (simp_all add: k8s_listener_def k8s_name_plain)
  have "backendName (lis_Namespace l) (lis_Name l) (int i') (int j') =
      backendName (lis_Namespace lis) (lis_Name lis) (int i) (int j)"
    using assms(3) by (simp add: endpoint_ref_def)
  then have "[lis_Namespace l, lis_Name l, ''route'', Itoa (int i'), ''backend'', Itoa (int j')] =
      [lis_Namespace lis, lis_Name lis, ''route'', Itoa (int i), ''backend'', Itoa (int j)]"
    using backendName_Split [OF plain(1,2), of "int i'" "int j'"] backendName_Split [OF plain(3,4), of "int i" "int j"]
    by simp
  then show ?thesis by (simp add: Itoa_inj)
qed

lemma unmatched_backend_not_referenced:
  assumes "caches ix ls" and "lis \<in> set ls" and "(i, j, b) \<in> set (backends_of lis)" and "matchesBackend m lis b \<noteq> Ok True"
  shows "endpoint_ref lib lis i j \<notin> set (endpoint_refs lib m ls)"
proof
  assume "endpoint_ref lib lis i j \<in> set (endpoint_refs lib m ls)"
  then obtain l i' j' b' where l: "l \<in> set ls" "(i', j', b') \<in> set (backends_of l)" "matchesBackend m l b' = Ok True"
    "endpoint_ref lib l i' j' = endpoint_ref lib lis i j"
    by (auto simp: endpoint_refs_def)
  have "k8s_listener l" and "k8s_listener lis" using assms(1,2) l(1) by (auto simp: caches_def)
  from endpoint_ref_inj [OF this l(4)] have "l = lis" and "i' = i" and "j' = j"
    using listener_lookup.get_unique [OF lister_lookup [OF assms(1)] l(1) assms(2)] by simp_all
  then show False using l(2,3) assms(3,4) by (simp add: backends_of_set)
qed

lemma ready_endpoints_append:
  "ready_endpoints svc (xs @ ys) =
     and_then (ready_endpoints svc xs) (\<lambda>ds. and_then (ready_endpoints svc ys) (\<lambda>es. Ok (ds @ es)))"
  by (induction xs) (simp_all add: ready_endpoints_Cons and_then_assoc and_then_Ok_right)

text \<open>C40:
  The update handler looks at the new object only. When an update takes a slice away from the service of
  a backend by giving it another service label, the handler reports success and starts no goroutine for
  any watcher of that backend's load assignment, although the load assignment has changed: the version
  of the slice and the addresses of its ready endpoints are gone from it. This holds for every cached
  listener and every backend of it that names a service, whatever else the caches hold.
\<close>

theorem relabelled_slice_is_not_notified:
  assumes "accessor_ok acc" and "caches ix ls" and "services_ok ls" and "selects_by_label lib"
    and "lis \<in> set ls" and "(i, j, b) \<in> set (backends_of lis)" and "bk_Service b = Some svc"
    and "slices_cached sl (pre @ old # post)" and "slices_cached sl' (pre @ new # post)"
    and "slice_of_service (serviceNamespace svc lis) (sr_Name svc) old"
    and "om_Labels (es_ObjectMeta new) ''kubernetes.io/service-name'' = Some other" and "other \<noteq> sr_Name svc"
    and "makeLoadAssignment lib sl (Some n) ref lis b = Ok (la, versions)" and "watches_inv w"
  shows "\<exists>w' la' versions' gone.
    endpointSliceChangedHandler_OnUpdate lib acc ix (SliceObj old) (SliceObj new) w = Ok w' \<and>
    (\<forall>wa. count (mset (ws_goroutines w')) (wa, endpoint_ref lib lis i j) =
          count (mset (ws_goroutines w)) (wa, endpoint_ref lib lis i j)) \<and>
    makeLoadAssignment lib sl' (Some n) ref lis b = Ok (la', versions') \<and>
    ready_of svc old = Ok gone \<and> mset versions = mset versions' + {#om_ResourceVersion (es_ObjectMeta old)#} \<and>
    mset (assigned_endpoints la) = mset (assigned_endpoints la') + mset (lb_of gone)"
proof -
  let ?in = "slice_of_service (serviceNamespace svc lis) (sr_Name svc)" and ?m = "es_ObjectMeta new"
  have "\<not> ?in new" and unmatched: "matchesBackend ?m lis b \<noteq> Ok True"
    using assms(7,11,12) by (simp_all add: slice_of_service_def matchesBackend_def matchesService_Some)
  have "label_value_ok lib (sr_Name svc)"
    using assms(7,13) by (auto simp: makeLoadAssignment_def makeServiceLoadAssignment_def label_value_ok_def go_simps)
  note eq = makeServiceLoadAssignment_eq [OF assms(4) _ assms(7) this]
  obtain ds gone es where ready: "ready_endpoints svc (filter ?in pre) = Ok ds" "ready_of svc old = Ok gone"
    "ready_endpoints svc (filter ?in post) = Ok es"
    and la: "la = \<lparr>cla_ClusterName = parsedBackendName_String ref,
      cla_Endpoints = map Some (zone_split (sr_Name svc) (node_zone n) (ds @ gone @ es))\<rparr>"
    "versions = map (\<lambda>s. om_ResourceVersion (es_ObjectMeta s)) (filter ?in pre @ old # filter ?in post)"
    using assms(7,10,13) eq [OF assms(8)]
    by (auto simp: makeLoadAssignment_def ready_endpoints_append ready_endpoints_Cons go_simps)
  have "makeLoadAssignment lib sl' (Some n) ref lis b =
      Ok (\<lparr>cla_ClusterName = parsedBackendName_String ref,
          cla_Endpoints = map Some (zone_split (sr_Name svc) (node_zone n) (ds @ es))\<rparr>,
        map (\<lambda>s. om_ResourceVersion (es_ObjectMeta s)) (filter ?in pre @ filter ?in post))"
    using assms(7) eq [OF assms(9)] \<open>\<not> ?in new\<close> ready by (simp add: makeLoadAssignment_def ready_endpoints_append)
  moreover have "count_list (endpoint_refs lib ?m ls) (endpoint_ref lib lis i j) = 0"
    using unmatched_backend_not_referenced [OF assms(2,5,6) unmatched] by (simp add: count_list_0_iff)
  ultimately show ?thesis
    using fold_notify [OF assms(14), of "endpoint_refs lib ?m ls"] ready(2) la
    by (simp add: endpointSliceChangedHandler_OnUpdate_def endpointSliceChanged_refs [OF assms(1-3)]
        assigned_endpoints_split)
qed

text \<open>The sample slice is given to another service.\<close>

theorem relabelled_slice_is_not_notified_witness:
  "\<exists>moved la versions w' la' versions' gone.
    makeLoadAssignment sample_lib (lister_of [sample_slice]) (Some sample_node) (backend_ref sample_listener 0 0)
      sample_listener sample_backend = Ok (la, versions) \<and>
    endpointSliceChangedHandler_OnUpdate sample_lib sample_accessor (cache_of [sample_listener])
      (SliceObj sample_slice) (SliceObj moved) sample_watches = Ok w' \<and>
    count (mset (ws_goroutines w')) (0, endpoint_ref sample_lib sample_listener 0 0) =
      count (mset (ws_goroutines sample_watches)) (0, endpoint_ref sample_lib sample_listener 0 0) \<and>
    makeLoadAssignment sample_lib (lister_of [moved]) (Some sample_node) (backend_ref sample_listener 0 0)
      sample_listener sample_backend = Ok (la', versions') \<and>
    gone \<noteq> [] \<and> mset (assigned_endpoints la) = mset (assigned_endpoints la') + mset (lb_of gone)"
proof -
  let ?new = "sample_slice\<lparr>es_ObjectMeta := (es_ObjectMeta sample_slice)
         \<lparr>om_Labels := [''kubernetes.io/service-name'' \<mapsto> ''another'']\<rparr>\<rparr>"
  let ?la = "\<lambda>sl. makeLoadAssignment sample_lib sl (Some sample_node) (backend_ref sample_listener 0 0)
      sample_listener sample_backend"
  have svc: "bk_Service sample_backend = Some sample_service" by (simp add: go_defs)
  have "label_value_ok sample_lib (sr_Name sample_service)" by (simp add: label_value_ok_def sample_lib_def)
  note eq = makeServiceLoadAssignment_eq [OF sample_lib_selects lister_of_cached svc this]
  have old: "slice_of_service (serviceNamespace sample_service sample_listener) (sr_Name sample_service) sample_slice"
    by (simp add: slice_of_service_def serviceNamespace_def go_defs)
  obtain la versions where la: "?la (lister_of [sample_slice]) = Ok (la, versions)"
    by (simp add: makeLoadAssignment_def svc eq old sample_ready)
  have b: "(0, 0, sample_backend) \<in> set (backends_of sample_listener)"
    by (simp add: backends_of_set) (simp add: sample_listener_def sample_route_def)
  have "slices_cached (lister_of [sample_slice]) ([] @ sample_slice # [])" "slices_cached (lister_of [?new]) ([] @ ?new # [])"
    using lister_of_cached by simp_all
  from relabelled_slice_is_not_notified [OF sample_accessor_ok sample_cache sample_services sample_lib_selects _ b svc
      this old _ _ la sample_watches_inv]
  obtain w' la' versions' gone where
    "endpointSliceChangedHandler_OnUpdate sample_lib sample_accessor (cache_of [sample_listener])
      (SliceObj sample_slice) (SliceObj ?new) sample_watches = Ok w'"
    "count (mset (ws_goroutines w')) (0, endpoint_ref sample_lib sample_listener 0 0) =
      count (mset (ws_goroutines sample_watches)) (0, endpoint_ref sample_lib sample_listener 0 0)"
    "?la (lister_of [?new]) = Ok (la', versions')" "ready_of sample_service sample_slice = Ok gone"
    "mset (assigned_endpoints la) = mset (assigned_endpoints la') + mset (lb_of gone)"
    by (force simp: go_defs)
  moreover from this(4) have "gone \<noteq> []" using sample_ready by (auto simp: ready_endpoints_Cons)
  ultimately show ?thesis using la by blast
qed

end
