(* ===== verification/Go_Json.thy ===== *)
theory Go_Json
  imports Go_Strings
begin

text \<open>
  What the sources use of Go's \<^verbatim>\<open>encoding/json\<close>: documents of strings, arrays and objects, the text an
  \<^verbatim>\<open>Encoder\<close> writes for them, and, as the reference for what that text says, a reader of JSON documents
  without white space. Reading undoes writing.
\<close>

datatype json = JString string | JArray "json list" | JObject "(string \<times> json) list"

section \<open>Writing\<close>

definition hex_digit :: "nat \<Rightarrow> char" where
  "hex_digit n = (if n < 10 then char_of (48 + n) else char_of (87 + n))"

text \<open>
  The escapes of the encoder with its default of escaping HTML: quote and backslash, line feed, carriage
  return and tab by their short forms, other control characters and the three characters of HTML by their
  code.
\<close>

definition json_escape :: "char \<Rightarrow> string" where
  "json_escape c =
     (if c = CHR 0x22 \<or> c = CHR 0x5C then [CHR 0x5C, c]
      else if c = CHR 0x0A then [CHR 0x5C, CHR ''n'']
      else if c = CHR 0x0D then [CHR 0x5C, CHR ''r'']
      else if c = CHR 0x09 then [CHR 0x5C, CHR ''t'']
      else if (of_char c :: nat) < 32 \<or> c \<in> {CHR ''<'', CHR ''>'', CHR ''&''}
      then [CHR 0x5C, CHR ''u'', CHR ''0'', CHR ''0'', hex_digit (of_char c div 16), hex_digit (of_char c mod 16)]
      else [c])"

text \<open>
  The length of the UTF-8 character a string of bytes above 127 begins with, zero when it begins with
  none: overlong forms, surrogates and codes above U+10FFFF are none.
\<close>

definition byte_in :: "nat \<Rightarrow> nat \<Rightarrow> nat \<Rightarrow> string \<Rightarrow> bool" where
  "byte_in i lo hi s \<longleftrightarrow> i < length s \<and> lo \<le> of_char (s ! i) \<and> of_char (s ! i) \<le> hi"

definition utf8_size :: "string \<Rightarrow> nat" where
  "utf8_size s =
     (if byte_in 0 0xC2 0xDF s \<and> byte_in 1 0x80 0xBF s then 2
      else if (byte_in 0 0xE0 0xE0 s \<and> byte_in 1 0xA0 0xBF s \<or> byte_in 0 0xED 0xED s \<and> byte_in 1 0x80 0x9F s \<or>
               (byte_in 0 0xE1 0xEC s \<or> byte_in 0 0xEE 0xEF s) \<and> byte_in 1 0x80 0xBF s) \<and> byte_in 2 0x80 0xBF s then 3
      else if (byte_in 0 0xF0 0xF0 s \<and> byte_in 1 0x90 0xBF s \<or> byte_in 0 0xF4 0xF4 s \<and> byte_in 1 0x80 0x8F s \<or>
               byte_in 0 0xF1 0xF3 s \<and> byte_in 1 0x80 0xBF s) \<and> byte_in 2 0x80 0xBF s \<and> byte_in 3 0x80 0xBF s then 4
      else 0)"

text \<open>
  A character beyond ASCII is kept, but for the line separators U+2028 and U+2029, and a byte that begins
  none is replaced.
\<close>

fun json_body :: "string \<Rightarrow> string" where
  "json_body [] = []"
| "json_body (c # cs) =
     (if (of_char c :: nat) < 128 then json_escape c @ json_body cs
      else if utf8_size (c # cs) = 0 then CHR 0x5C # ''ufffd'' @ json_body cs
      else if take 3 (c # cs) = [CHR 0xE2, CHR 0x80, CHR 0xA8] then CHR 0x5C # ''u2028'' @ json_body (drop 2 cs)
      else if take 3 (c # cs) = [CHR 0xE2, CHR 0x80, CHR 0xA9] then CHR 0x5C # ''u2029'' @ json_body (drop 2 cs)
      else take (utf8_size (c # cs)) (c # cs) @ json_body (drop (utf8_size (c # cs) - 1) cs))"

definition json_quote :: "string \<Rightarrow> string" where
  "json_quote s = CHR 0x22 # json_body s @ [CHR 0x22]"

fun json_write :: "json \<Rightarrow> string" where
  "json_write (JString s) = json_quote s"
| "json_write (JArray xs) = ''['' @ strings_Join (map json_write xs) '','' @ '']''"
| "json_write (JObject fs) = ''{'' @ strings_Join (map (\<lambda>(k, v). json_quote k @ '':'' @ json_write v) fs) '','' @ ''}''"

text \<open>\<^verbatim>\<open>Encode\<close> ends the document with a line feed.\<close>

definition json_Encode :: "json \<Rightarrow> string" where
  "json_Encode v = json_write v @ [CHR 0x0A]"

section \<open>Reading\<close>

definition hex_val :: "char \<Rightarrow> nat option" where
  "hex_val c =
     (let n = of_char c :: nat in
      if 48 \<le> n \<and> n \<le> 57 then Some (n - 48) else if 97 \<le> n \<and> n \<le> 102 then Some (n - 87) else None)"

text \<open>An escape: its character and the rest. The codes beyond ASCII are refused.\<close>

definition read_escape :: "string \<Rightarrow> (char \<times> string) option" where
  "read_escape s =
     (case s of
        [] \<Rightarrow> None
      | d # ds \<Rightarrow>
          if d = CHR 0x22 \<or> d = CHR 0x5C then Some (d, ds)
          else if d = CHR ''n'' then Some (CHR 0x0A, ds)
          else if d = CHR ''r'' then Some (CHR 0x0D, ds)
          else if d = CHR ''t'' then Some (CHR 0x09, ds)
          else (case s of
                  CHR ''u'' # CHR ''0'' # CHR ''0'' # x # y # rest \<Rightarrow>
                    (case (hex_val x, hex_val y) of (Some h, Some l) \<Rightarrow> if 16 * h + l < 128 then Some (char_of (16 * h + l), rest) else None | _ \<Rightarrow> None)
                | _ \<Rightarrow> None))"

text \<open>The rest of a string after its opening quote.\<close>

lemma read_escape_shorter [termination_simp]: "read_escape s = Some (c, r) \<Longrightarrow> length r < length s"
  by (auto simp: read_escape_def split: list.splits if_splits option.splits char.splits bool.splits)

fun read_string :: "string \<Rightarrow> (string \<times> string) option" where
  "read_string [] = None"
| "read_string (c # cs) =
     (if c = CHR 0x22 then Some ([], cs)
      else if c = CHR 0x5C
      then (case read_escape cs of None \<Rightarrow> None | Some (d, ds) \<Rightarrow> map_option (apfst ((#) d)) (read_string ds))
      else map_option (apfst ((#) c)) (read_string cs))"

text \<open>
  A value, the elements of a non-empty array and the fields of a non-empty object up to the closing
  bracket. Every call consumes a character, so the length of the text is fuel enough.
\<close>

fun read_value :: "nat \<Rightarrow> string \<Rightarrow> (json \<times> string) option"
  and read_elems :: "nat \<Rightarrow> string \<Rightarrow> (json list \<times> string) option"
  and read_fields :: "nat \<Rightarrow> string \<Rightarrow> ((string \<times> json) list \<times> string) option" where
  "read_value 0 s = None"
| "read_value (Suc n) s =
     (if s = [] then None
      else if hd s = CHR 0x22 then map_option (apfst JString) (read_string (tl s))
      else if hd s = CHR ''['' then
        (if take 1 (tl s) = '']'' then Some (JArray [], drop 2 s) else map_option (apfst JArray) (read_elems n (tl s)))
      else if hd s = CHR ''{'' then
        (if take 1 (tl s) = ''}'' then Some (JObject [], drop 2 s) else map_option (apfst JObject) (read_fields n (tl s)))
      else None)"
| "read_elems 0 s = None"
| "read_elems (Suc n) s =
     (case read_value n s of
        Some (v, c # r) \<Rightarrow>
          if c = CHR '']'' then Some ([v], r)
          else if c = CHR '','' then map_option (apfst ((#) v)) (read_elems n r) else None
      | _ \<Rightarrow> None)"
| "read_fields 0 s = None"
| "read_fields (Suc n) s =
     (if take 1 s \<noteq> [CHR 0x22] then None
      else case read_string (tl s) of
        Some (k, d # vs) \<Rightarrow>
          if d \<noteq> CHR '':'' then None
          else (case read_value n vs of
             Some (v, c # r) \<Rightarrow>
               if c = CHR ''}'' then Some ([(k, v)], r)
               else if c = CHR '','' then map_option (apfst ((#) (k, v))) (read_fields n r) else None
           | _ \<Rightarrow> None)
      | _ \<Rightarrow> None)"

text \<open>A file that holds one document and the final line feed.\<close>

definition json_Decode :: "string \<Rightarrow> json option" where
  "json_Decode s = (case read_value (length s) s of Some (v, r) \<Rightarrow> if r = [CHR 0x0A] then Some v else None | None \<Rightarrow> None)"

section \<open>Reading undoes writing\<close>

lemma hex_val_digit: "n < 16 \<Longrightarrow> hex_val (hex_digit n) = Some n"
  by (auto simp: hex_val_def hex_digit_def Let_def)

lemma read_escape_code:
  assumes "n < 128"
  shows "read_escape (CHR ''u'' # CHR ''0'' # CHR ''0'' # hex_digit (n div 16) # hex_digit (n mod 16) # r) = Some (char_of n, r)"
proof -
  have "n div 16 < 16" using assms by (simp add: less_mult_imp_div_less)
  then show ?thesis using assms by (simp add: read_escape_def hex_val_digit)
qed

lemma read_escape_short:
  "read_escape (CHR 0x22 # r) = Some (CHR 0x22, r)" "read_escape (CHR 0x5C # r) = Some (CHR 0x5C, r)"
  "read_escape (CHR ''n'' # r) = Some (CHR 0x0A, r)" "read_escape (CHR ''r'' # r) = Some (CHR 0x0D, r)"
  "read_escape (CHR ''t'' # r) = Some (CHR 0x09, r)"
  by (simp_all add: read_escape_def)

lemma read_string_escape: "read_string (json_escape c @ r) = map_option (apfst ((#) c)) (read_string r)"
  using read_escape_code [of "of_char c" r]
  by (auto simp: json_escape_def read_escape_short)

text \<open>This is shown for documents of ASCII strings.\<close>

definition ascii :: "string \<Rightarrow> bool" where
  "ascii s \<longleftrightarrow> (\<forall>c \<in> set s. (of_char c :: nat) < 128)"

fun json_ascii :: "json \<Rightarrow> bool" where
  "json_ascii (JString s) = ascii s"
| "json_ascii (JArray xs) = (\<forall>v \<in> set xs. json_ascii v)"
| "json_ascii (JObject fs) = (\<forall>(k, v) \<in> set fs. ascii k \<and> json_ascii v)"

lemma read_string_quote: "ascii s \<Longrightarrow> read_string (json_body s @ CHR 0x22 # r) = Some (s, r)"
  by (induction s) (simp_all add: read_string_escape ascii_def)

lemma json_write_hd: "\<exists>c w. json_write v = c # w \<and> c \<in> {CHR 0x22, CHR ''['', CHR ''{''}"
  by (cases v) (auto simp: json_quote_def)

text \<open>A value is read back from its text, whatever follows it, with any fuel above the length of the text.\<close>

definition reads_back :: "json \<Rightarrow> bool" where
  "reads_back v \<longleftrightarrow> json_ascii v \<and> (\<forall>n r. length (json_write v) \<le> n \<longrightarrow> read_value n (json_write v @ r) = Some (v, r))"

lemma reads_backD: "reads_back v \<Longrightarrow> length (json_write v) \<le> n \<Longrightarrow> read_value n (json_write v @ r) = Some (v, r)"
  by (simp add: reads_back_def)

lemma read_elems_written:
  assumes "\<And>v. v \<in> set xs \<Longrightarrow> reads_back v" and "xs \<noteq> []"
    and "length (strings_Join (map json_write xs) '','') < n"
  shows "read_elems n (strings_Join (map json_write xs) '','' @ CHR '']'' # r) = Some (xs, r)"
  using assms
proof (induction xs arbitrary: n)
  case (Cons x xs)
  then obtain m where n: "n = Suc m" by (cases n) auto
  show ?case
  proof (cases xs)
    case Nil
    then show ?thesis using Cons.prems n reads_backD [of x m] by simp
  next
    case (Cons y ys)
    then have "length (json_write x) \<le> m" and "length (strings_Join (map json_write xs) '','') < m"
      using Cons.prems(3) n by simp_all
    then show ?thesis
      using Cons.IH [of m] Cons.prems(1) Cons n reads_backD [of x m] by simp
  qed
qed simp

definition json_field :: "string \<times> json \<Rightarrow> string" where
  "json_field = (\<lambda>(k, v). json_quote k @ '':'' @ json_write v)"

lemma json_field_hd: "json_field f = CHR 0x22 # tl (json_field f)"
  by (cases f) (simp add: json_field_def json_quote_def)

lemma read_string_field: "ascii k \<Longrightarrow> read_string (tl (json_field (k, v)) @ r) = Some (k, CHR '':'' # json_write v @ r)"
  by (simp add: json_field_def json_quote_def read_string_quote)

text \<open>One field, up to what follows its value.\<close>

lemma read_fields_field:
  assumes "ascii k" and "reads_back v" and "length (json_field (k, v)) \<le> n"
  shows "read_fields (Suc n) (json_field (k, v) @ c # r) =
    (if c = CHR ''}'' then Some ([(k, v)], r)
     else if c = CHR '','' then map_option (apfst ((#) (k, v))) (read_fields n r) else None)"
proof -
  have "read_value n (json_write v @ c # r) = Some (v, c # r)"
    using assms by (intro reads_backD) (simp_all add: json_field_def)
  then have "read_fields (Suc n) (CHR 0x22 # tl (json_field (k, v)) @ c # r) = (if c = CHR ''}'' then Some ([(k, v)], r)
     else if c = CHR '','' then map_option (apfst ((#) (k, v))) (read_fields n r) else None)"
    using assms(1) by (simp add: read_string_field)
  then show ?thesis by (subst json_field_hd) simp
qed

lemma read_fields_written:
  assumes "\<And>k v. (k, v) \<in> set fs \<Longrightarrow> ascii k \<and> reads_back v" and "fs \<noteq> []"
    and "length (strings_Join (map json_field fs) '','') < n"
  shows "read_fields n (strings_Join (map json_field fs) '','' @ CHR ''}'' # r) = Some (fs, r)"
  using assms
proof (induction fs arbitrary: n)
  case (Cons f fs)
  obtain k v where f: "f = (k, v)" by fastforce
  obtain m where n: "n = Suc m" using Cons.prems(3) by (cases n) auto
  have v: "ascii k" "reads_back v" using Cons.prems(1) f by auto
  show ?case
  proof (cases fs)
    case Nil
    then show ?thesis using Cons.prems n f read_fields_field [OF v, of m] by (simp del: read_fields.simps)
  next
    case (Cons g gs)
    then have "length (json_field f) \<le> m" and "length (strings_Join (map json_field fs) '','') < m"
      using Cons.prems(3) n by simp_all
    moreover have "read_fields m (strings_Join (map json_field fs) '','' @ CHR ''}'' # r) = Some (fs, r)"
      using Cons.prems(1) Cons calculation(2) by (intro Cons.IH) auto
    ultimately show ?thesis
      using Cons n f read_fields_field [OF v, of m] by (simp del: read_fields.simps)
  qed
qed simp

lemma not_empty_array: "xs \<noteq> [] \<Longrightarrow> take 1 (strings_Join (map json_write xs) '','' @ r) \<noteq> '']''"
  using json_write_hd [of "hd xs"] by (cases xs rule: remdups_adj.cases) auto

lemma not_empty_object: "fs \<noteq> [] \<Longrightarrow> take 1 (strings_Join (map json_field fs) '','' @ r) \<noteq> ''}''"
  using json_field_hd [of "hd fs"] by (cases fs rule: remdups_adj.cases; cases "json_field (hd fs)") auto

lemma json_reads_back: "json_ascii v \<Longrightarrow> reads_back v"
proof (induction v)
  case (JString s)
  show ?case
    unfolding reads_back_def
  proof (intro conjI allI impI)
    show "json_ascii (JString s)" by (rule JString)
    fix n r assume "length (json_write (JString s)) \<le> n"
    then obtain m where "n = Suc m" by (cases n) (auto simp: json_quote_def)
    then show "read_value n (json_write (JString s) @ r) = Some (JString s, r)"
      using JString by (simp add: json_quote_def read_string_quote)
  qed
next
  case (JArray xs)
  show ?case
    unfolding reads_back_def
  proof (intro conjI allI impI)
    show "json_ascii (JArray xs)" by (rule JArray(2))
    fix n r assume len: "length (json_write (JArray xs)) \<le> n"
    then obtain m where "n = Suc m" by (cases n) auto
    then show "read_value n (json_write (JArray xs) @ r) = Some (JArray xs, r)"
      using len read_elems_written [of xs m r] JArray not_empty_array [of xs "CHR '']'' # r"] by (cases "xs = []") auto
  qed
next
  case (JObject fs)
  then have vs: "(k, v) \<in> set fs \<Longrightarrow> ascii k \<and> reads_back v" for k v by (auto simp: snds.simps)
  show ?case
    unfolding reads_back_def
  proof (intro conjI allI impI)
    show "json_ascii (JObject fs)" by (rule JObject(2))
    fix n r assume len: "length (json_write (JObject fs)) \<le> n"
    then obtain m where n: "n = Suc m" by (cases n) auto
    have w: "json_write (JObject fs) = ''{'' @ strings_Join (map json_field fs) '','' @ ''}''" by (simp add: json_field_def)
    have "length (strings_Join (map json_field fs) '','') < m" using len n unfolding w by simp
    with vs have "fs \<noteq> [] \<Longrightarrow> read_fields m (strings_Join (map json_field fs) '','' @ CHR ''}'' # r) = Some (fs, r)"
      using read_fields_written [of fs m r] by blast
    then show "read_value n (json_write (JObject fs) @ r) = Some (JObject fs, r)"
      unfolding w n using not_empty_object [of fs "CHR ''}'' # r"] by (cases "fs = []") auto
  qed
qed

lemma json_Decode_Encode: "json_ascii v \<Longrightarrow> json_Decode (json_Encode v) = Some v"
  using reads_backD [OF json_reads_back, of v "length (json_Encode v)" "[CHR 0x0A]"]
  by (simp add: json_Decode_def json_Encode_def)

end
