(* ===== verification/Bootstrap.thy ===== *)
theory Bootstrap
  imports Go_Json
begin

text \<open>
  The bootstrap generator: the configuration providers of \<^verbatim>\<open>bootstrap/\<close> and the command
  \<^verbatim>\<open>cmd/bootstrapgen/main.go\<close>. \<open>host\<close> is what the code reads from the machine: the environment, the
  host name, and the metadata service of Google Cloud. The locale \<open>config_provider\<close> is the contract
  of the Go interface \<^verbatim>\<open>ConfigProvider\<close>, which both providers keep.
\<close>

record Cred =
  cd_Type :: string

record XDSServer =
  xs_URI :: string
  xs_Features :: "string list"
  xs_Creds :: "Cred list"

record BootstrapLocality =
  bl_Zone :: string

record BootstrapNode =
  bn_ID :: string
  bn_Locality :: BootstrapLocality

record BootstrapConfig =
  bc_XDSServers :: "XDSServer list"
  bc_Node :: BootstrapNode

record host =
  os_Getenv :: "string \<Rightarrow> string"
  os_Hostname :: "go_error + string"
  metadata_OnGCE :: bool
  metadata_Zone :: "go_error + string"

definition getNodeID :: "host \<Rightarrow> string outcome" where
  "getNodeID h =
     (let nodeID = os_Getenv h ''GTC_NODE_ID'' in
      if nodeID \<noteq> [] then Ok nodeID else of_lib (os_Hostname h))"

definition envProvider_Provide :: "host \<Rightarrow> string \<Rightarrow> BootstrapConfig outcome" where
  "envProvider_Provide h serverURI =
     and_then (getNodeID h) (\<lambda>nodeID.
       Ok \<lparr>bc_XDSServers = [\<lparr>xs_URI = serverURI, xs_Features = [''xds_v3''], xs_Creds = [\<lparr>cd_Type = ''insecure''\<rparr>]\<rparr>],
           bc_Node = \<lparr>bn_ID = nodeID, bn_Locality = \<lparr>bl_Zone = os_Getenv h ''GTC_ZONE''\<rparr>\<rparr>\<rparr>)"

definition ErrNotRunningOnGCE :: go_error where
  "ErrNotRunningOnGCE = ErrorsNew ''not running on GCE''"

definition gcloudProvider_Provide :: "host \<Rightarrow> string \<Rightarrow> BootstrapConfig outcome" where
  "gcloudProvider_Provide h serverURI =
     (if \<not> metadata_OnGCE h then Err ErrNotRunningOnGCE
      else and_then (getNodeID h) (\<lambda>nodeID.
        and_then (of_lib (metadata_Zone h)) (\<lambda>zone.
          Ok \<lparr>bc_XDSServers = [\<lparr>xs_URI = serverURI, xs_Features = [''xds_v3''], xs_Creds = [\<lparr>cd_Type = ''insecure''\<rparr>]\<rparr>],
              bc_Node = \<lparr>bn_ID = nodeID, bn_Locality = \<lparr>bl_Zone = zone\<rparr>\<rparr>\<rparr>)))"

datatype ConfigProvider = EnvProvider | GcloudProvider

primrec Provide :: "ConfigProvider \<Rightarrow> host \<Rightarrow> string \<Rightarrow> BootstrapConfig outcome" where
  "Provide EnvProvider = envProvider_Provide"
| "Provide GcloudProvider = gcloudProvider_Provide"

definition BuildConfigProvider :: "string \<Rightarrow> ConfigProvider outcome" where
  "BuildConfigProvider providerType =
     (let t = strings_ToLower providerType in
      if t = ''env'' then Ok EnvProvider
      else if t = ''gcloud'' then Ok GcloudProvider
      else Err (UnknownProvider providerType))"

section \<open>The file\<close>

text \<open>
  The documents of the structs, by their tags. The tag \<^verbatim>\<open>omitempty\<close> of the locality has no effect on a struct: it
  is written also when its zone is empty. A nil slice would be written as null; the providers make none.
\<close>

definition Cred_json :: "Cred \<Rightarrow> json" where
  "Cred_json c = JObject [(''type'', JString (cd_Type c))]"

definition XDSServer_json :: "XDSServer \<Rightarrow> json" where
  "XDSServer_json s = JObject
     [(''server_uri'', JString (xs_URI s)),
      (''server_features'', JArray (map JString (xs_Features s))),
      (''channel_creds'', JArray (map Cred_json (xs_Creds s)))]"

definition Locality_json :: "BootstrapLocality \<Rightarrow> json" where
  "Locality_json l = JObject [(''zone'', JString (bl_Zone l))]"

definition Node_json :: "BootstrapNode \<Rightarrow> json" where
  "Node_json n = JObject [(''id'', JString (bn_ID n)), (''locality'', Locality_json (bn_Locality n))]"

definition BootstrapConfig_json :: "BootstrapConfig \<Rightarrow> json" where
  "BootstrapConfig_json c = JObject
     [(''xds_servers'', JArray (map XDSServer_json (bc_XDSServers c))), (''node'', Node_json (bc_Node c))]"

section \<open>The command\<close>

text \<open>
  The values of its three flags, what creating the output file returns, and what writing some bytes to it
  returns. It ends with a fatal message, and the error behind it, or with the bytes written at the path.
\<close>

datatype gen_result = Fatal string "go_error option" | Wrote string string

definition bootstrapgen_main ::
    "host \<Rightarrow> (string \<Rightarrow> go_error option) \<Rightarrow> (string \<Rightarrow> go_error option) \<Rightarrow>
      string \<Rightarrow> string \<Rightarrow> string \<Rightarrow> gen_result outcome" where
  "bootstrapgen_main h create writeFile serverURI out provider =
     (if serverURI = [] then Ok (Fatal ''please provide a server-uri'' None)
      else case BuildConfigProvider provider of
        Panic p \<Rightarrow> Panic p
      | Err err \<Rightarrow> Ok (Fatal ''unable to build config provider'' (Some err))
      | Ok configProvider \<Rightarrow>
          (case Provide configProvider h serverURI of
             Panic p \<Rightarrow> Panic p
           | Err err \<Rightarrow> Ok (Fatal ''unable to retrieve bootstrap config'' (Some err))
           | Ok cfg \<Rightarrow>
               (case create out of
                  Some err \<Rightarrow> Ok (Fatal [] (Some err))
                | None \<Rightarrow>
                    let output = json_Encode (BootstrapConfig_json cfg) in
                    (case writeFile output of
                       Some err \<Rightarrow> Ok (Fatal [] (Some err))
                     | None \<Rightarrow> Ok (Wrote out output)))))"

section \<open>The contract of a provider\<close>

locale config_provider =
  fixes provide :: "string \<Rightarrow> BootstrapConfig outcome"
    and node_id :: "string outcome"
  assumes server: "provide uri = Ok cfg \<Longrightarrow>
      bc_XDSServers cfg = [\<lparr>xs_URI = uri, xs_Features = [''xds_v3''], xs_Creds = [\<lparr>cd_Type = ''insecure''\<rparr>]\<rparr>]"
    and node: "provide uri = Ok cfg \<Longrightarrow> node_id = Ok (bn_ID (bc_Node cfg))"
    and no_panic: "\<not> is_Panic (provide uri)"
begin

text \<open>The configurations for two servers differ in the server only by their URI.\<close>

lemma same_node: "provide u = Ok c \<Longrightarrow> provide v = Ok d \<Longrightarrow> bn_ID (bc_Node c) = bn_ID (bc_Node d)"
  using node by (metis outcome.inject(1))

end

lemma getNodeID_no_panic [simp]: "\<not> is_Panic (getNodeID h)"
  by (simp add: getNodeID_def Let_def)

interpretation env_provider: config_provider "envProvider_Provide h" "getNodeID h" for h
  by unfold_locales (auto simp: envProvider_Provide_def go_simps)

interpretation gcloud_provider: config_provider "gcloudProvider_Provide h" "getNodeID h" for h
  by unfold_locales (auto simp: gcloudProvider_Provide_def go_simps split: if_splits)

lemma provider_contract: "config_provider (Provide p h) (getNodeID h)"
  by (cases p) (simp_all add: env_provider.config_provider_axioms gcloud_provider.config_provider_axioms)

lemma env_zone:
  "envProvider_Provide h uri = Ok cfg \<Longrightarrow> bl_Zone (bn_Locality (bc_Node cfg)) = os_Getenv h ''GTC_ZONE''"
  by (auto simp: envProvider_Provide_def and_then_Ok)

lemma gcloud_zone:
  "gcloudProvider_Provide h uri = Ok cfg \<Longrightarrow>
     metadata_OnGCE h \<and> metadata_Zone h = Inr (bl_Zone (bn_Locality (bc_Node cfg)))"
  by (auto simp: gcloudProvider_Provide_def and_then_Ok of_lib_Ok split: if_splits)

lemma server_json_ascii:
  "ascii uri \<Longrightarrow>
   json_ascii (XDSServer_json \<lparr>xs_URI = uri, xs_Features = [''xds_v3''], xs_Creds = [\<lparr>cd_Type = ''insecure''\<rparr>]\<rparr>)"
  by (simp add: XDSServer_json_def Cred_json_def) (simp add: ascii_def)

lemma node_json_ascii: "ascii (bn_ID n) \<Longrightarrow> ascii (bl_Zone (bn_Locality n)) \<Longrightarrow> json_ascii (Node_json n)"
  by (auto simp: Node_json_def Locality_json_def) (auto simp: ascii_def)

lemma generated_cases:
  assumes "bootstrapgen_main h create writeFile uri out provider = Ok (Wrote path content)"
  obtains p cfg where "BuildConfigProvider provider = Ok p" and "Provide p h uri = Ok cfg"
    and "path = out" and "uri \<noteq> []" and "content = json_Encode (BootstrapConfig_json cfg)"
  using assms by (auto simp: bootstrapgen_main_def Let_def split: if_splits outcome.splits option.splits)

lemma bootstrapgen_main_no_panic: "\<not> is_Panic (bootstrapgen_main h create writeFile uri out provider)"
proof -
  have "\<not> is_Panic (BuildConfigProvider provider)" by (simp add: BuildConfigProvider_def Let_def)
  moreover have "\<not> is_Panic (Provide p h uri)" for p by (rule config_provider.no_panic [OF provider_contract])
  ultimately show ?thesis
    by (auto simp: bootstrapgen_main_def Let_def split: outcome.splits option.splits) (metis is_Panic.simps)+
qed

section \<open>Properties\<close>

text \<open>C34:
  What the generator writes points the client at the requested server: the file it writes, read as JSON,
  has that server as its only one, over an insecure channel with the xDS v3 feature, and the node that
  the environment or else the host name gives, in the zone of the provider that was asked for, whatever the case
  of its name. This is for ASCII values; quotes, control characters and the characters of HTML in them
  are escaped and read back. An unknown provider or an empty server URI writes nothing.
\<close>

theorem generated_bootstrap_is_for_the_server:
  assumes "bootstrapgen_main h create writeFile uri out provider = Ok (Wrote path content)" and "ascii uri"
    and "\<And>nodeID. getNodeID h = Ok nodeID \<Longrightarrow> ascii nodeID"
    and "ascii (os_Getenv h ''GTC_ZONE'')" and "\<And>z. metadata_Zone h = Inr z \<Longrightarrow> ascii z"
  shows "path = out \<and> uri \<noteq> [] \<and> (\<exists>nodeID zone.
    json_Decode content = Some (JObject
      [(''xds_servers'', JArray [JObject
         [(''server_uri'', JString uri), (''server_features'', JArray [JString ''xds_v3'']),
          (''channel_creds'', JArray [JObject [(''type'', JString ''insecure'')]])]]),
       (''node'', JObject [(''id'', JString nodeID), (''locality'', JObject [(''zone'', JString zone)])])]) \<and>
    getNodeID h = Ok nodeID \<and>
    (strings_ToLower provider = ''env'' \<and> zone = os_Getenv h ''GTC_ZONE'' \<or>
     strings_ToLower provider = ''gcloud'' \<and> metadata_OnGCE h \<and> metadata_Zone h = Inr zone))"
proof -
  obtain p cfg where p: "BuildConfigProvider provider = Ok p" and cfg: "Provide p h uri = Ok cfg"
    and out: "path = out" "uri \<noteq> []" and content: "content = json_Encode (BootstrapConfig_json cfg)"
    using assms(1) by (rule generated_cases)
  let ?zone = "bl_Zone (bn_Locality (bc_Node cfg))"
  have kind: "strings_ToLower provider = ''env'' \<and> p = EnvProvider \<or>
      strings_ToLower provider = ''gcloud'' \<and> p = GcloudProvider"
    using p by (auto simp: BuildConfigProvider_def Let_def split: if_splits)
  have node: "getNodeID h = Ok (bn_ID (bc_Node cfg))"
    and servers: "bc_XDSServers cfg = [\<lparr>xs_URI = uri, xs_Features = [''xds_v3''], xs_Creds = [\<lparr>cd_Type = ''insecure''\<rparr>]\<rparr>]"
    using config_provider.server [OF provider_contract cfg] config_provider.node [OF provider_contract cfg] by auto
  have zone: "strings_ToLower provider = ''env'' \<and> ?zone = os_Getenv h ''GTC_ZONE'' \<or>
     strings_ToLower provider = ''gcloud'' \<and> metadata_OnGCE h \<and> metadata_Zone h = Inr ?zone"
    using kind env_zone [of h uri cfg] gcloud_zone [of h uri cfg] cfg by auto
  then have "ascii ?zone" using assms(4,5) by auto
  then have "json_ascii (BootstrapConfig_json cfg)"
    using assms(3) [OF node] server_json_ascii [OF assms(2)] node_json_ascii
    by (simp add: BootstrapConfig_json_def servers) (simp add: ascii_def)
  from json_Decode_Encode [OF this] node zone out show ?thesis
    by (auto simp: content BootstrapConfig_json_def XDSServer_json_def Cred_json_def Node_json_def Locality_json_def servers)
qed

theorem generated_bootstrap_is_for_the_server_witness:
  "\<exists>content doc. bootstrapgen_main \<lparr>os_Getenv = (\<lambda>_. []), os_Hostname = Inr ''host'', metadata_OnGCE = False,
        metadata_Zone = Inl (LibraryError [])\<rparr> (\<lambda>_. None) (\<lambda>_. None) ''uri'' ''o.json'' ''env'' = Ok (Wrote ''o.json'' content) \<and>
     json_Decode content = Some doc"
proof -
  let ?h = "\<lparr>os_Getenv = (\<lambda>_. []), os_Hostname = Inr ''host'', metadata_OnGCE = False,
        metadata_Zone = Inl (LibraryError [])\<rparr>"
  have lower: "strings_ToLower ''env'' = ''env''" by (simp add: strings_ToLower_def lower_byte_def)
  obtain content where w: "bootstrapgen_main ?h (\<lambda>_. None) (\<lambda>_. None) ''uri'' ''o.json'' ''env'' = Ok (Wrote ''o.json'' content)"
    by (simp add: bootstrapgen_main_def BuildConfigProvider_def lower envProvider_Provide_def getNodeID_def Let_def)
  from generated_bootstrap_is_for_the_server [OF w] w show ?thesis
    by (fastforce simp: ascii_def getNodeID_def)
qed

text \<open>The tag on the locality does not leave it out: a node without a zone is written with an empty one.\<close>

lemma empty_locality_is_written: "Node_json \<lparr>bn_ID = i, bn_Locality = \<lparr>bl_Zone = []\<rparr>\<rparr> =
    JObject [(''id'', JString i), (''locality'', JObject [(''zone'', JString [])])]"
  by (simp add: Node_json_def Locality_json_def)

end
