(* ===== verification/Go_Heap.thy ===== *)
theory Go_Heap
  imports Gtc_Prelude "HOL-Library.AList"
begin

text \<open>
  The part of Go's memory that the generated copy functions of
  \<^verbatim>\<open>zz_generated.deepcopy.go\<close> work on: values with pointers and slices,
  a heap of cells, the statements those functions are made of (\<^verbatim>\<open>new\<close>,
  \<^verbatim>\<open>make\<close>, \<^verbatim>\<open>copy\<close>, assignment through a pointer, the loop over a slice),
  and the contract of a copy function: the copy reads the same, nothing that
  existed is written, and the copy shares no cell with anything older.  The
  contract is a locale; one rule per statement form derives it.
\<close>

section \<open>Values, types and the heap\<close>

type_synonym addr = nat

datatype kind = KBool | KInt | KString

datatype atom = ABool bool | AInt int | AString string

text \<open>A slice header is the cell of its backing array, the offset of its first
  element and its length; \<^const>\<open>None\<close> is the nil pointer or slice.\<close>

datatype gval =
    PrimV atom
  | PtrV "addr option"
  | SliceV "(addr \<times> nat \<times> nat) option"
  | StructV "(string \<times> gval) list"

datatype gtype =
    TPrim kind
  | TPtr gtype
  | TSlice gtype
  | TStruct "(string \<times> gtype) list"

record heap =
  mem :: "addr \<Rightarrow> gval list"
  free :: addr

fun atom_kind :: "atom \<Rightarrow> kind" where
  "atom_kind (ABool _) = KBool"
| "atom_kind (AInt _) = KInt"
| "atom_kind (AString _) = KString"

fun zero_atom :: "kind \<Rightarrow> atom" where
  "zero_atom KBool = ABool False"
| "zero_atom KInt = AInt 0"
| "zero_atom KString = AString []"

fun zero_value :: "gtype \<Rightarrow> gval"
  and zero_fields :: "(string \<times> gtype) list \<Rightarrow> (string \<times> gval) list" where
  "zero_value (TPrim k) = PrimV (zero_atom k)"
| "zero_value (TPtr t) = PtrV None"
| "zero_value (TSlice t) = SliceV None"
| "zero_value (TStruct fts) = StructV (zero_fields fts)"
| "zero_fields [] = []"
| "zero_fields ((n, t) # fts) = (n, zero_value t) # zero_fields fts"

text \<open>A cell holds the elements of an array; a variable allocated by \<^verbatim>\<open>new\<close> is
  an array of one.\<close>

definition alloc :: "gval list \<Rightarrow> heap \<Rightarrow> addr \<times> heap" where
  "alloc xs h = (free h, h\<lparr>mem := (mem h)(free h := xs), free := Suc (free h)\<rparr>)"

definition store :: "addr \<Rightarrow> gval list \<Rightarrow> heap \<Rightarrow> heap" where
  "store a xs h = h\<lparr>mem := (mem h)(a := xs)\<rparr>"

definition new_cell :: "gtype \<Rightarrow> heap \<Rightarrow> addr \<times> heap" where
  "new_cell t h = alloc [zero_value t] h"

definition make_slice :: "gtype \<Rightarrow> nat \<Rightarrow> heap \<Rightarrow> addr \<times> heap" where
  "make_slice t n h = alloc (replicate n (zero_value t)) h"

definition slice_elems :: "heap \<Rightarrow> addr \<times> nat \<times> nat \<Rightarrow> gval list" where
  "slice_elems h s = (case s of (a, off, n) \<Rightarrow> take n (drop off (mem h a)))"

fun field :: "string \<Rightarrow> gval \<Rightarrow> gval" where
  "field n (StructV fs) = (case map_of fs n of Some v \<Rightarrow> v | None \<Rightarrow> StructV [])"
| "field n v = v"

fun set_field :: "string \<Rightarrow> gval \<Rightarrow> gval \<Rightarrow> gval" where
  "set_field n v (StructV fs) = StructV (AList.update n v fs)"
| "set_field n v w = w"

section \<open>What a value reads as, and the cells it reaches\<close>

text \<open>The tree a program sees when it follows every pointer of a value of a
  given type; \<^const>\<open>None\<close> when the value is not of that type or a pointer
  of it dangles.\<close>

datatype gtree =
    PrimT atom
  | NilT
  | PtrT gtree
  | SliceT "gtree list"
  | StructT "(string \<times> gtree) list"

primrec all_some :: "'a option list \<Rightarrow> 'a list option" where
  "all_some [] = Some []"
| "all_some (x # xs) = (case x of None \<Rightarrow> None | Some y \<Rightarrow> map_option ((#) y) (all_some xs))"

fun view :: "heap \<Rightarrow> gtype \<Rightarrow> gval \<Rightarrow> gtree option"
  and view_fields ::
    "heap \<Rightarrow> (string \<times> gtype) list \<Rightarrow> (string \<times> gval) list \<Rightarrow> (string \<times> gtree) list option" where
  "view h (TPrim k) (PrimV x) = (if atom_kind x = k then Some (PrimT x) else None)"
| "view h (TPtr t) (PtrV None) = Some NilT"
| "view h (TPtr t) (PtrV (Some a)) =
     (if a < free h
      then (case mem h a of [v] \<Rightarrow> map_option PtrT (view h t v) | _ \<Rightarrow> None)
      else None)"
| "view h (TSlice t) (SliceV None) = Some NilT"
| "view h (TSlice t) (SliceV (Some (a, off, n))) =
     (if a < free h \<and> off + n \<le> length (mem h a)
      then map_option SliceT (all_some (map (view h t) (slice_elems h (a, off, n))))
      else None)"
| "view h (TStruct fts) (StructV fs) = map_option StructT (view_fields h fts fs)"
| "view h _ _ = None"
| "view_fields h [] fs = Some []"
| "view_fields h ((n, t) # fts) fs =
     (case map_of fs n of
        None \<Rightarrow> None
      | Some v \<Rightarrow>
          (case view h t v of
             None \<Rightarrow> None
           | Some tr \<Rightarrow> map_option ((#) (n, tr)) (view_fields h fts fs)))"

fun footprint :: "heap \<Rightarrow> gtype \<Rightarrow> gval \<Rightarrow> addr set"
  and fields_footprint ::
    "heap \<Rightarrow> (string \<times> gtype) list \<Rightarrow> (string \<times> gval) list \<Rightarrow> addr set" where
  "footprint h (TPtr t) (PtrV (Some a)) =
     insert a (\<Union>v \<in> set (mem h a). footprint h t v)"
| "footprint h (TSlice t) (SliceV (Some (a, off, n))) =
     insert a (\<Union>v \<in> set (slice_elems h (a, off, n)). footprint h t v)"
| "footprint h (TStruct fts) (StructV fs) = fields_footprint h fts fs"
| "footprint h _ _ = {}"
| "fields_footprint h [] fs = {}"
| "fields_footprint h ((n, t) # fts) fs =
     (case map_of fs n of None \<Rightarrow> {} | Some v \<Rightarrow> footprint h t v) \<union> fields_footprint h fts fs"

text \<open>A type no value of which holds a pointer: assignment copies it whole.\<close>

fun plain :: "gtype \<Rightarrow> bool"
  and plain_fields :: "(string \<times> gtype) list \<Rightarrow> bool" where
  "plain (TPrim k) \<longleftrightarrow> True"
| "plain (TPtr t) \<longleftrightarrow> False"
| "plain (TSlice t) \<longleftrightarrow> False"
| "plain (TStruct fts) \<longleftrightarrow> plain_fields fts"
| "plain_fields [] \<longleftrightarrow> True"
| "plain_fields ((n, t) # fts) \<longleftrightarrow> plain t \<and> plain_fields fts"

section \<open>The statements of the copy functions\<close>

text \<open>A copy function takes what \<^verbatim>\<open>*in\<close> holds and returns what it leaves in
  \<^verbatim>\<open>*out\<close>, threading the heap.\<close>

type_synonym copier = "gval \<Rightarrow> heap \<Rightarrow> gval \<times> heap"

definition copy_assign :: copier where
  "copy_assign v h = (v, h)"

text \<open>\<^verbatim>\<open>if in.F != nil { *out = new(T); (*in).DeepCopyInto(*out) }\<close>; with
  \<^const>\<open>copy_assign\<close> the last statement is \<^verbatim>\<open>**out = **in\<close>.\<close>

fun copy_ptr :: "gtype \<Rightarrow> copier \<Rightarrow> copier" where
  "copy_ptr t f (PtrV (Some a)) h =
     (let (b, h1) = new_cell t h;
          (v, h2) = f (hd (mem h1 a)) h1
      in (PtrV (Some b), store b [v] h2))"
| "copy_ptr t f v h = (v, h)"

text \<open>\<^verbatim>\<open>for i := range *in { (*in)[i].DeepCopyInto(&(*out)[i]) }\<close>, from index
  \<open>i\<close> with \<open>k\<close> iterations left.\<close>

primrec copy_loop :: "copier \<Rightarrow> addr \<Rightarrow> nat \<Rightarrow> addr \<Rightarrow> nat \<Rightarrow> nat \<Rightarrow> heap \<Rightarrow> heap" where
  "copy_loop f a off b 0 i h = h"
| "copy_loop f a off b (Suc k) i h =
     (let (v, h1) = f (mem h a ! (off + i)) h
      in copy_loop f a off b k (Suc i) (store b ((mem h1 b)[i := v]) h1))"

text \<open>\<^verbatim>\<open>if in.F != nil { *out = make([]T, len(*in)); for ... }\<close>\<close>

fun copy_slice :: "gtype \<Rightarrow> copier \<Rightarrow> copier" where
  "copy_slice t f (SliceV (Some (a, off, n))) h =
     (let (b, h1) = make_slice t n h
      in (SliceV (Some (b, 0, n)), copy_loop f a off b n 0 h1))"
| "copy_slice t f v h = (v, h)"

text \<open>\<^verbatim>\<open>if in.F != nil { *out = make([]T, len(*in)); copy(*out, *in) }\<close>\<close>

fun copy_flat_slice :: "gtype \<Rightarrow> copier" where
  "copy_flat_slice t (SliceV (Some (a, off, n))) h =
     (let (b, h1) = make_slice t n h;
          src = slice_elems h1 (a, off, n);
          m = min n (length src)
      in (SliceV (Some (b, 0, n)), store b (take m src @ drop m (mem h1 b)) h1))"
| "copy_flat_slice t v h = (v, h)"

text \<open>The statements of a body in order, each reading a field of \<^verbatim>\<open>*in\<close> and
  setting the field of \<^verbatim>\<open>*out\<close>; \<^verbatim>\<open>*out = *in\<close> comes first.\<close>

fun copy_fields :: "(string \<times> copier) list \<Rightarrow> gval \<Rightarrow> gval \<Rightarrow> heap \<Rightarrow> gval \<times> heap" where
  "copy_fields [] inp out h = (out, h)"
| "copy_fields ((n, f) # stmts) inp out h =
     (let (v, h1) = f (field n inp) h
      in copy_fields stmts inp (set_field n v out) h1)"

definition copy_struct :: "(string \<times> copier) list \<Rightarrow> copier" where
  "copy_struct stmts inp h = copy_fields stmts inp inp h"

section \<open>Reading is local\<close>

lemma Some_eq_map_option: "Some y = map_option f x \<longleftrightarrow> (\<exists>z. x = Some z \<and> y = f z)"
  by (cases x) auto

fun_cases view_ptrE: "view h (TPtr t) v = Some tr"

fun_cases view_sliceE: "view h (TSlice t) v = Some tr"

fun_cases view_structE: "view h (TStruct fts) v = Some tr"

lemma all_some_eq:
  "all_some xs = Some ys \<longleftrightarrow> list_all2 (\<lambda>x y. x = Some y) xs ys"
  by (induction xs arbitrary: ys) (auto split: option.splits simp: list_all2_Cons1)

lemma all_some_map_cong:
  assumes "all_some (map f xs) = Some ys" and "\<And>x y. x \<in> set xs \<Longrightarrow> f x = Some y \<Longrightarrow> g x = Some y"
  shows "all_some (map g xs) = Some ys"
  using assms by (induction xs arbitrary: ys) (auto split: option.splits)

lemma all_some_elem:
  "all_some (map f xs) = Some ys \<Longrightarrow> x \<in> set xs \<Longrightarrow> \<exists>y. f x = Some y"
  by (induction xs arbitrary: ys) (auto split: option.splits)

lemma footprint_bounds:
  "view h t v = Some tr \<Longrightarrow> footprint h t v \<subseteq> {..<free h}"
  "view_fields h fts fs = Some trs \<Longrightarrow> fields_footprint h fts fs \<subseteq> {..<free h}"
proof (induction h t v and h fts fs arbitrary: tr and trs rule: view_view_fields.induct)
  case (5 h t a off n)
  then show ?case
    by (auto split: if_splits dest!: all_some_elem)
qed (fastforce split: if_splits option.splits list.splits)+

text \<open>A heap that agrees on the cells a value reaches reads the value the same.\<close>

lemma view_frame:
  "view h t v = Some tr \<Longrightarrow> \<forall>a \<in> footprint h t v. mem h' a = mem h a \<and> a < free h' \<Longrightarrow>
     view h' t v = Some tr \<and> footprint h' t v = footprint h t v"
  "view_fields h fts fs = Some trs \<Longrightarrow>
     \<forall>a \<in> fields_footprint h fts fs. mem h' a = mem h a \<and> a < free h' \<Longrightarrow>
     view_fields h' fts fs = Some trs \<and> fields_footprint h' fts fs = fields_footprint h fts fs"
proof (induction h t v and h fts fs arbitrary: tr and trs rule: view_view_fields.induct)
  case (5 h t a off n)
  let ?xs = "slice_elems h (a, off, n)"
  from "5.prems" have a: "a < free h" "off + n \<le> length (mem h a)" "mem h' a = mem h a" "a < free h'"
    and elems: "slice_elems h' (a, off, n) = ?xs"
    by (auto split: if_splits simp: slice_elems_def)
  from "5.prems" a obtain ys where ys: "all_some (map (view h t) ?xs) = Some ys" "tr = SliceT ys"
    by (auto split: if_splits)
  have each: "view h' t x = Some y \<and> footprint h' t x = footprint h t x"
    if "x \<in> set ?xs" "view h t x = Some y" for x y
    using that "5.prems"(2) a by (intro "5.IH") auto
  have "all_some (map (view h' t) ?xs) = Some ys"
    using ys(1) by (rule all_some_map_cong) (use each in blast)
  moreover have "footprint h' t x = footprint h t x" if "x \<in> set ?xs" for x
    using each that all_some_elem [OF ys(1) that] by blast
  ultimately show ?case using a elems ys(2) by simp
qed (auto split: if_splits option.splits list.splits)

definition extends :: "heap \<Rightarrow> heap \<Rightarrow> bool" where
  "extends h h' \<longleftrightarrow> free h \<le> free h' \<and> (\<forall>a < free h. mem h' a = mem h a)"

lemma extends_refl [simp]: "extends h h"
  by (simp add: extends_def)

lemma extends_trans: "extends h h1 \<Longrightarrow> extends h1 h2 \<Longrightarrow> extends h h2"
  by (simp add: extends_def)

lemma extends_alloc: "alloc xs h = (b, h1) \<Longrightarrow> extends h h1 \<and> b = free h \<and> free h1 = Suc b \<and> mem h1 b = xs"
  by (auto simp: alloc_def extends_def)

lemma extends_store: "extends h h1 \<Longrightarrow> free h \<le> b \<Longrightarrow> extends h (store b xs h1)"
  by (auto simp: extends_def store_def)

lemma view_extends:
  "view h t v = Some tr \<Longrightarrow> extends h h' \<Longrightarrow>
     view h' t v = Some tr \<and> footprint h' t v = footprint h t v"
  using footprint_bounds(1) [of h t v tr] by (intro view_frame(1)) (auto simp: extends_def)

text \<open>A value whose every reachable cell was allocated since the heap \<open>h0\<close>.\<close>

definition fresh_view :: "heap \<Rightarrow> heap \<Rightarrow> gtype \<Rightarrow> gval \<Rightarrow> gtree \<Rightarrow> bool" where
  "fresh_view h0 h t v tr \<longleftrightarrow>
     view h t v = Some tr \<and> (\<forall>a \<in> footprint h t v. free h0 \<le> a)"

lemma fresh_view_extends:
  "fresh_view h0 h t v tr \<Longrightarrow> extends h h' \<Longrightarrow> fresh_view h0 h' t v tr"
  using view_extends [of h t v tr h'] by (simp add: fresh_view_def)

lemma view_store:
  assumes "view h t v = Some tr" and "b \<notin> footprint h t v"
  shows "view (store b xs h) t v = Some tr \<and> footprint (store b xs h) t v = footprint h t v"
  using assms(1)
proof (rule view_frame(1))
  show "\<forall>a \<in> footprint h t v. mem (store b xs h) a = mem h a \<and> a < free (store b xs h)"
    using assms(2) footprint_bounds(1) [OF assms(1)] by (auto simp: store_def)
qed

lemma fresh_view_store:
  "fresh_view h0 h t v tr \<Longrightarrow> b < free h0 \<Longrightarrow> fresh_view h0 (store b xs h) t v tr"
  using view_store [of h t v tr b xs] by (force simp: fresh_view_def)

lemma fresh_view_since:
  "fresh_view h0 h t v tr \<Longrightarrow> free h1 \<le> free h0 \<Longrightarrow> fresh_view h1 h t v tr"
  by (auto simp: fresh_view_def)

lemma plain_footprint:
  "plain t \<Longrightarrow> footprint h t v = {}"
  "plain_fields fts \<Longrightarrow> fields_footprint h fts fs = {}"
  by (induction h t v and h fts fs rule: footprint_fields_footprint.induct)
     (auto split: option.splits)

section \<open>The contract of a copy function\<close>

locale deep_copier =
  fixes t :: gtype and f :: copier
  assumes copies: "view h t v = Some tr \<Longrightarrow> f v h = (w, h') \<Longrightarrow>
    extends h h' \<and> fresh_view h h' t w tr"
begin

lemma original_kept:
  assumes "view h t v = Some tr" and "f v h = (w, h')"
  shows "view h' t v = Some tr \<and> footprint h' t v = footprint h t v"
  using assms(1) conjunct1 [OF copies [OF assms]] by (rule view_extends)

lemma copy_reads_same:
  assumes "view h t v = Some tr" and "f v h = (w, h')"
  shows "view h' t w = Some tr"
  using copies [OF assms] unfolding fresh_view_def by blast

lemma copy_is_disjoint:
  assumes "view h t v = Some tr" and "f v h = (w, h')"
  shows "footprint h' t v \<inter> footprint h' t w = {}"
proof -
  have "footprint h' t v \<subseteq> {..<free h}"
    using original_kept [OF assms] footprint_bounds(1) [OF assms(1)] by simp
  moreover have "\<forall>a \<in> footprint h' t w. free h \<le> a"
    using copies [OF assms] unfolding fresh_view_def by blast
  ultimately show ?thesis by force
qed

text \<open>Whatever is written to the cells of the copy, the original reads as
  before, and the other way round.\<close>

lemma write_to_copy:
  assumes "view h t v = Some tr" and "f v h = (w, h')" and "a \<in> footprint h' t w"
  shows "view (store a xs h') t v = Some tr"
proof -
  have "a \<notin> footprint h' t v" using copy_is_disjoint [OF assms(1,2)] assms(3) by blast
  then show ?thesis
    using view_store [OF conjunct1 [OF original_kept [OF assms(1,2)]]] by blast
qed

lemma write_to_original:
  assumes "view h t v = Some tr" and "f v h = (w, h')" and "a \<in> footprint h' t v"
  shows "view (store a xs h') t w = Some tr"
proof -
  have "a \<notin> footprint h' t w" using copy_is_disjoint [OF assms(1,2)] assms(3) by blast
  then show ?thesis
    using view_store [OF copy_reads_same [OF assms(1,2)]] by blast
qed

end

section \<open>The rules\<close>

named_theorems copier_rules \<open>one rule per statement form\<close>

lemma deep_copier_assign [copier_rules]: "plain t \<Longrightarrow> deep_copier t copy_assign"
  by unfold_locales (auto simp: copy_assign_def fresh_view_def plain_footprint)

lemma deep_copier_ptr [copier_rules]:
  assumes "deep_copier t f"
  shows "deep_copier (TPtr t) (copy_ptr t f)"
proof
  fix h v tr w h'
  assume view: "view h (TPtr t) v = Some tr" and run: "copy_ptr t f v h = (w, h')"
  show "extends h h' \<and> fresh_view h h' (TPtr t) w tr"
  proof (cases "v = PtrV None")
    case True
    then show ?thesis using view run by (auto simp: fresh_view_def)
  next
    case False
    with view obtain a x tr' where v: "v = PtrV (Some a)" "a < free h" "mem h a = [x]"
      and x: "view h t x = Some tr'" "tr = PtrT tr'"
      by (elim view_ptrE) (auto split: if_splits list.splits simp: Some_eq_map_option)
    obtain b h1 where b: "new_cell t h = (b, h1)" by fastforce
    obtain y h2 where y: "f x h1 = (y, h2)" by fastforce
    have alloc: "extends h h1" "b = free h" "free h1 = Suc b"
      using extends_alloc [OF b [unfolded new_cell_def]] by auto
    have "mem h1 a = [x]" using alloc v by (simp add: extends_def)
    then have res: "w = PtrV (Some b)" "h' = store b [y] h2"
      using run v(1) b y by auto
    have "view h1 t x = Some tr'" using view_extends [OF x(1) alloc(1)] by blast
    then have c: "extends h1 h2" "fresh_view h1 h2 t y tr'"
      using deep_copier.copies [OF assms _ y] by blast+
    have "fresh_view h1 h' t y tr'" using fresh_view_store [OF c(2)] alloc res by simp
    moreover have "extends h h'"
      using extends_store [OF extends_trans [OF alloc(1) c(1)]] alloc res by simp
    moreover have "mem h' b = [y]" "b < free h'"
      using res c(1) alloc by (auto simp: store_def extends_def)
    ultimately show ?thesis using alloc res x(2) by (auto simp: fresh_view_def)
  qed
qed

text \<open>The loop: after \<open>i\<close> iterations the first \<open>i\<close> elements of the new array are
  copies, in cells younger than the array itself.\<close>

definition copied_prefix :: "heap \<Rightarrow> heap \<Rightarrow> gtype \<Rightarrow> addr \<Rightarrow> gtree list \<Rightarrow> nat \<Rightarrow> bool" where
  "copied_prefix h1 h t b trs i \<longleftrightarrow>
     length (mem h b) = length trs \<and>
     (\<forall>j < i. fresh_view h1 h t (mem h b ! j) (trs ! j))"

lemma copy_loop_copies:
  assumes "deep_copier t f"
    and src: "\<forall>j < length trs. off + j < length (mem h0 a) \<and>
                view h0 t (mem h0 a ! (off + j)) = Some (trs ! j)"
    and b: "a < free h0" "free h0 \<le> b" "b < free h1"
  shows "i + k = length trs \<Longrightarrow> extends h0 h \<Longrightarrow> free h1 \<le> free h \<Longrightarrow>
     copied_prefix h1 h t b trs i \<Longrightarrow> copy_loop f a off b k i h = h' \<Longrightarrow>
     extends h0 h' \<and> free h1 \<le> free h' \<and> copied_prefix h1 h' t b trs (length trs)"
proof (induction k arbitrary: i h)
  case 0
  then show ?case by simp
next
  case (Suc k)
  let ?x = "mem h a ! (off + i)"
  obtain y h2 where y: "f ?x h = (y, h2)" by fastforce
  let ?h3 = "store b ((mem h2 b)[i := y]) h2"
  have i: "i < length trs" using Suc.prems(1) by simp
  have "mem h a = mem h0 a" using Suc.prems(2) b(1) by (simp add: extends_def)
  then have "view h t ?x = Some (trs ! i)"
    using src i view_extends [OF _ Suc.prems(2)] by simp
  then have c: "extends h h2" "fresh_view h h2 t y (trs ! i)"
    using deep_copier.copies [OF assms(1) _ y] by blast+
  have mem: "mem h2 b = mem h b" using c(1) b(3) Suc.prems(3) by (simp add: extends_def)
  have y3: "fresh_view h1 ?h3 t y (trs ! i)"
    using fresh_view_store [OF fresh_view_since [OF c(2) Suc.prems(3)] b(3)] .
  have old: "fresh_view h1 ?h3 t (mem h b ! j) (trs ! j)" if "j < i" for j
    using Suc.prems(4) that fresh_view_store [OF fresh_view_extends [OF _ c(1)] b(3)]
    by (simp add: copied_prefix_def)
  have "copied_prefix h1 ?h3 t b trs (Suc i)"
    using Suc.prems(4) y3 old i mem
    by (auto simp: copied_prefix_def store_def nth_list_update less_Suc_eq)
  moreover have "extends h0 ?h3" "free h1 \<le> free ?h3"
    using extends_store [OF extends_trans [OF Suc.prems(2) c(1)] b(2)] c(1) Suc.prems(3)
    by (auto simp: extends_def store_def)
  ultimately show ?case
    using Suc.IH [of "Suc i" ?h3] Suc.prems(1,5) y by simp
qed

lemma fresh_slice:
  assumes "copied_prefix h1 h t b trs (length trs)" and "free h0 \<le> b" "b < free h1" "free h1 \<le> free h"
  shows "fresh_view h0 h (TSlice t) (SliceV (Some (b, 0, length trs))) (SliceT trs)"
proof -
  have len: "length (mem h b) = length trs"
    and each: "\<And>j. j < length trs \<Longrightarrow> fresh_view h1 h t (mem h b ! j) (trs ! j)"
    using assms(1) by (auto simp: copied_prefix_def)
  have elems: "slice_elems h (b, 0, length trs) = mem h b" by (simp add: slice_elems_def len)
  have "all_some (map (view h t) (mem h b)) = Some trs"
    using each by (auto simp: all_some_eq list_all2_conv_all_nth len fresh_view_def)
  moreover have "\<forall>v \<in> set (mem h b). \<forall>a \<in> footprint h t v. free h0 \<le> a"
    using each assms(2,3) by (fastforce simp: in_set_conv_nth len fresh_view_def)
  ultimately show ?thesis using assms(2-4) len elems by (auto simp: fresh_view_def)
qed

lemma view_slice_elems:
  assumes "view h (TSlice t) v = Some tr" and "v \<noteq> SliceV None"
  obtains a off trs where "v = SliceV (Some (a, off, length trs))" and "tr = SliceT trs"
    and "a < free h" and "off + length trs \<le> length (mem h a)"
    and "\<forall>j < length trs. view h t (mem h a ! (off + j)) = Some (trs ! j)"
proof -
  obtain a off n trs where v: "v = SliceV (Some (a, off, n))" "tr = SliceT trs" "a < free h"
      "off + n \<le> length (mem h a)"
      "all_some (map (view h t) (slice_elems h (a, off, n))) = Some trs"
    using assms
    by (elim view_sliceE) (auto split: if_splits simp: Some_eq_map_option)
  then have "length trs = n" "\<forall>j < n. map (view h t) (slice_elems h (a, off, n)) ! j = Some (trs ! j)"
    unfolding all_some_eq list_all2_conv_all_nth by (auto simp: slice_elems_def)
  then have "length trs = n" "\<forall>j < n. view h t (mem h a ! (off + j)) = Some (trs ! j)"
    using v(4) by (auto simp: slice_elems_def)
  with v show thesis using that by blast
qed

lemma deep_copier_slice [copier_rules]:
  assumes "deep_copier t f"
  shows "deep_copier (TSlice t) (copy_slice t f)"
proof
  fix h v tr w h'
  assume view: "view h (TSlice t) v = Some tr" and run: "copy_slice t f v h = (w, h')"
  show "extends h h' \<and> fresh_view h h' (TSlice t) w tr"
  proof (cases "v = SliceV None")
    case True
    then show ?thesis using view run by (auto simp: fresh_view_def)
  next
    case False
    obtain a off trs where v: "v = SliceV (Some (a, off, length trs))" "tr = SliceT trs"
        "a < free h" "off + length trs \<le> length (mem h a)"
      and elems: "\<forall>j < length trs. view h t (mem h a ! (off + j)) = Some (trs ! j)"
      using view_slice_elems [OF view False] .
    obtain b h1 where b: "make_slice t (length trs) h = (b, h1)" by fastforce
    have alloc: "extends h h1" "b = free h" "free h1 = Suc b" "length (mem h1 b) = length trs"
      using extends_alloc [OF b [unfolded make_slice_def]] by auto
    have res: "w = SliceV (Some (b, 0, length trs))" "copy_loop f a off b (length trs) 0 h1 = h'"
      using run v(1) b by auto
    have "extends h h' \<and> free h1 \<le> free h' \<and> copied_prefix h1 h' t b trs (length trs)"
      by (rule copy_loop_copies [OF assms _ v(3) _ _ _ alloc(1) _ _ res(2)])
         (use elems v(4) alloc in \<open>auto simp: copied_prefix_def\<close>)
    then show ?thesis using fresh_slice [of h1 h' t b trs h] res(1) v(2) alloc by auto
  qed
qed

text \<open>The \<^verbatim>\<open>copy\<close> builtin does on pointer-free elements what the loop does.\<close>

lemma copy_loop_assign_Suc:
  "copy_loop copy_assign a off b (Suc k) i h =
     copy_loop copy_assign a off b k (Suc i) (store b ((mem h b)[i := mem h a ! (off + i)]) h)"
  by (simp add: copy_assign_def)

lemma copy_loop_assign:
  "i + k = n \<Longrightarrow> off + n \<le> length (mem h a) \<Longrightarrow> length (mem h b) = n \<Longrightarrow> a \<noteq> b \<Longrightarrow>
   copy_loop copy_assign a off b k i h =
     store b (take i (mem h b) @ take k (drop (off + i) (mem h a))) h"
proof (induction k arbitrary: i h)
  case 0
  then show ?case by (simp add: store_def)
next
  case (Suc k)
  let ?h = "store b ((mem h b)[i := mem h a ! (off + i)]) h"
  have "mem ?h a = mem h a" "length (mem ?h b) = n"
    using Suc.prems by (auto simp: store_def)
  then have "copy_loop copy_assign a off b (Suc k) i h =
      store b (take (Suc i) (mem ?h b) @ take k (drop (off + Suc i) (mem h a))) ?h"
    unfolding copy_loop_assign_Suc using Suc.IH [of "Suc i" ?h] Suc.prems by simp
  also have "take (Suc i) (mem ?h b) = take i (mem h b) @ [mem h a ! (off + i)]"
    using Suc.prems by (simp add: store_def take_Suc_conv_app_nth)
  also have "(take i (mem h b) @ [mem h a ! (off + i)]) @ take k (drop (off + Suc i) (mem h a)) =
      take i (mem h b) @ take (Suc k) (drop (off + i) (mem h a))"
    using Suc.prems by (simp add: Cons_nth_drop_Suc [symmetric])
  finally show ?case by (simp add: store_def)
qed

lemma copy_flat_slice_eq_loop:
  assumes "view h (TSlice t) v = Some tr"
  shows "copy_flat_slice t v h = copy_slice t copy_assign v h"
proof (cases "v = SliceV None")
  case False
  obtain a off and trs :: "gtree list" where v: "v = SliceV (Some (a, off, length trs))"
      "a < free h" "off + length trs \<le> length (mem h a)"
    by (rule view_slice_elems [OF assms False]) blast
  obtain b h1 where b: "make_slice t (length trs) h = (b, h1)" by fastforce
  have alloc: "extends h h1" "b = free h" "length (mem h1 b) = length trs"
    using extends_alloc [OF b [unfolded make_slice_def]] by auto
  have "mem h1 a = mem h a" "a \<noteq> b" using alloc v(2) by (auto simp: extends_def)
  then show ?thesis
    using v b alloc copy_loop_assign [of 0 "length trs" "length trs" off h1 a b]
    by (simp add: slice_elems_def Let_def)
qed simp

lemma deep_copier_flat_slice [copier_rules]:
  assumes "plain t"
  shows "deep_copier (TSlice t) (copy_flat_slice t)"
  using deep_copier.copies [OF deep_copier_slice [OF deep_copier_assign [OF assms]]]
    copy_flat_slice_eq_loop
  by unfold_locales metis

text \<open>A struct: every field is either assigned by \<^verbatim>\<open>*out = *in\<close> alone, and then it
  must be pointer-free, or copied by a statement that meets the contract at the
  field's type.\<close>

definition fields_copied ::
  "(string \<Rightarrow> gtype option) \<Rightarrow> (string \<Rightarrow> gtree option) \<Rightarrow> heap \<Rightarrow> heap \<Rightarrow> gval \<Rightarrow> string set \<Rightarrow> bool" where
  "fields_copied T V h0 h out N \<longleftrightarrow>
     (\<exists>fs. out = StructV fs) \<and>
     (\<forall>n \<in> N. \<forall>t tr. T n = Some t \<longrightarrow> V n = Some tr \<longrightarrow> fresh_view h0 h t (field n out) tr)"

lemma field_set_field:
  "out = StructV fs \<Longrightarrow> field m (set_field n v out) = (if m = n then v else field m out)"
  by (simp add: update_conv')

lemma copy_fields_copies:
  assumes inp: "\<forall>n t tr. T n = Some t \<longrightarrow> V n = Some tr \<longrightarrow> view h0 t (field n inp) = Some tr"
    and V: "\<forall>n t. T n = Some t \<longrightarrow> V n \<noteq> None"
  shows "\<forall>(n, f) \<in> set stmts. \<exists>t. T n = Some t \<and> deep_copier t f \<Longrightarrow>
     extends h0 h \<Longrightarrow> fields_copied T V h0 h out (- set (map fst stmts)) \<Longrightarrow>
     copy_fields stmts inp out h = (out', h') \<Longrightarrow>
     extends h0 h' \<and> fields_copied T V h0 h' out' UNIV"
proof (induction stmts arbitrary: out h)
  case (Cons s stmts)
  obtain n f where s: "s = (n, f)" by fastforce
  from Cons.prems(1) s obtain t where t: "T n = Some t" "deep_copier t f" by auto
  obtain tr where tr: "V n = Some tr" using V t(1) by auto
  obtain v h1 where v: "f (field n inp) h = (v, h1)" by fastforce
  have "view h t (field n inp) = Some tr"
    using inp t(1) tr view_extends [OF _ Cons.prems(2)] by blast
  then have c: "extends h h1" "fresh_view h h1 t v tr"
    using deep_copier.copies [OF t(2) _ v] by blast+
  have fresh: "fresh_view h0 h1 t v tr"
    using fresh_view_since [OF c(2)] Cons.prems(2) by (simp add: extends_def)
  obtain fs where fs: "out = StructV fs" using Cons.prems(3) by (auto simp: fields_copied_def)
  have "fields_copied T V h0 h1 (set_field n v out) (- set (map fst stmts))"
    using Cons.prems(3) fresh t(1) tr s fs fresh_view_extends [OF _ c(1)]
    unfolding fields_copied_def field_set_field [OF fs]
    by (auto simp: image_iff)
  then show ?case
    using Cons.IH [OF _ extends_trans [OF Cons.prems(2) c(1)]] Cons.prems(1,4) s v by simp
qed simp

lemma view_fields_map:
  "view_fields h fts fs = Some trs \<Longrightarrow> distinct (map fst fts) \<Longrightarrow>
     map fst trs = map fst fts \<and>
     (\<forall>n t. map_of fts n = Some t \<longrightarrow>
        (\<exists>v tr. map_of fs n = Some v \<and> map_of trs n = Some tr \<and> view h t v = Some tr))"
proof (induction fts arbitrary: trs)
  case (Cons ft fts)
  then show ?case by (cases ft) (auto split: option.splits)
qed simp

lemma fresh_view_fields:
  assumes "map fst trs = map fst fts" and "distinct (map fst fts)"
    and "\<forall>(n, t) \<in> set fts. \<exists>v tr. map_of fs n = Some v \<and> map_of trs n = Some tr \<and>
           fresh_view h0 h t v tr"
  shows "view_fields h fts fs = Some trs \<and> (\<forall>a \<in> fields_footprint h fts fs. free h0 \<le> a)"
  using assms
proof (induction fts arbitrary: trs)
  case (Cons ft fts)
  obtain n t where ft: "ft = (n, t)" by fastforce
  from Cons.prems(1) ft obtain tr trs' where trs: "trs = (n, tr) # trs'" "map fst trs' = map fst fts"
    by (cases trs) auto
  have "view_fields h fts fs = Some trs' \<and> (\<forall>a \<in> fields_footprint h fts fs. free h0 \<le> a)"
  proof (rule Cons.IH [OF trs(2)])
    show "distinct (map fst fts)" using Cons.prems(2) by simp
    show "\<forall>(n, t) \<in> set fts. \<exists>v tr. map_of fs n = Some v \<and> map_of trs' n = Some tr \<and>
        fresh_view h0 h t v tr"
      using Cons.prems(2,3) ft trs(1) by (auto simp: image_iff split: if_splits) force
  qed
  moreover obtain v where "map_of fs n = Some v" "fresh_view h0 h t v tr"
    using Cons.prems(3) ft trs(1) by auto
  ultimately show ?case using ft trs(1) by (auto simp: fresh_view_def)
qed simp

lemma set_field_keys:
  "\<exists>fs'. set_field n v (StructV fs) = StructV fs' \<and> insert n (dom (map_of fs)) = dom (map_of fs')"
  by (simp add: update_conv')

lemma copy_fields_keys:
  "copy_fields stmts inp (StructV fs) h = (out', h') \<Longrightarrow>
     \<exists>fs'. out' = StructV fs' \<and> dom (map_of fs) \<subseteq> dom (map_of fs')"
proof (induction stmts inp "StructV fs" h arbitrary: fs rule: copy_fields.induct)
  case (2 n f stmts inp h)
  obtain v h1 where v: "f (field n inp) h = (v, h1)" by fastforce
  show ?case
    using "2.hyps" [OF v [symmetric] refl, of "AList.update n v fs"] "2.prems" v
    by (auto simp: update_conv')
qed auto

text \<open>The side conditions of the struct rule, as a computable check of the
  statements against the field types that leaves the contracts of the
  statements.\<close>

definition covers_pointers :: "(string \<times> gtype) list \<Rightarrow> (string \<times> copier) list \<Rightarrow> bool" where
  "covers_pointers fts stmts \<longleftrightarrow>
     distinct (map fst fts) \<and>
     (\<forall>(n, t) \<in> set fts. plain t \<or> n \<in> set (map fst stmts))"

lemma deep_copier_struct:
  assumes cover: "covers_pointers fts stmts"
    and stmts: "\<forall>(n, f) \<in> set stmts. \<exists>t. map_of fts n = Some t \<and> deep_copier t f"
  shows "deep_copier (TStruct fts) (copy_struct stmts)"
proof
  fix h v tr w h'
  assume view: "view h (TStruct fts) v = Some tr" and run: "copy_struct stmts v h = (w, h')"
  obtain fs trs where v: "v = StructV fs" "tr = StructT trs" "view_fields h fts fs = Some trs"
    using view by (elim view_structE) (auto simp: Some_eq_map_option)
  have dist: "distinct (map fst fts)" using cover by (simp add: covers_pointers_def)
  note fields = view_fields_map [OF v(3) dist]
  have inp: "\<forall>n t tr. map_of fts n = Some t \<longrightarrow> map_of trs n = Some tr \<longrightarrow> view h t (field n v) = Some tr"
    using fields v(1) by fastforce
  have "fields_copied (map_of fts) (map_of trs) h h v (- set (map fst stmts))"
    using cover inp v(1) dist
    by (fastforce simp: fields_copied_def covers_pointers_def fresh_view_def plain_footprint
        dest: map_of_SomeD)
  then have c: "extends h h'" "fields_copied (map_of fts) (map_of trs) h h' w UNIV"
    using copy_fields_copies [OF inp _ stmts _ _ run [unfolded copy_struct_def]] fields by auto
  obtain fs' where w: "w = StructV fs'" "dom (map_of fs) \<subseteq> dom (map_of fs')"
    using copy_fields_keys [of stmts v fs h w h'] run v(1) by (auto simp: copy_struct_def)
  have "\<forall>(n, t) \<in> set fts. \<exists>v tr. map_of fs' n = Some v \<and> map_of trs n = Some tr \<and>
      fresh_view h h' t v tr"
  proof clarify
    fix n t assume "(n, t) \<in> set fts"
    then have t: "map_of fts n = Some t" using dist by simp
    with fields obtain v0 tr0 where "map_of fs n = Some v0" "map_of trs n = Some tr0" by blast
    moreover from this w(2) obtain v1 where "map_of fs' n = Some v1" by blast
    ultimately show "\<exists>v tr. map_of fs' n = Some v \<and> map_of trs n = Some tr \<and> fresh_view h h' t v tr"
      using c(2) t w(1) by (fastforce simp: fields_copied_def)
  qed
  then have "fresh_view h h' (TStruct fts) w tr"
    using fresh_view_fields [of trs fts fs' h h'] fields dist w(1) v(2)
    by (simp add: fresh_view_def)
  with c(1) show "extends h h' \<and> fresh_view h h' (TStruct fts) w tr" by blast
qed

text \<open>The same rule in the form the simplifier discharges statement by statement.\<close>

fun statements_copy :: "(string \<times> gtype) list \<Rightarrow> (string \<times> copier) list \<Rightarrow> bool" where
  "statements_copy fts [] \<longleftrightarrow> True"
| "statements_copy fts ((n, f) # stmts) \<longleftrightarrow>
     (case map_of fts n of None \<Rightarrow> False | Some t \<Rightarrow> deep_copier t f) \<and> statements_copy fts stmts"

lemma statements_copyD:
  "statements_copy fts stmts \<Longrightarrow> \<forall>(n, f) \<in> set stmts. \<exists>t. map_of fts n = Some t \<and> deep_copier t f"
  by (induction fts stmts rule: statements_copy.induct) (auto split: option.splits)

lemma struct_copierI:
  "covers_pointers fts stmts \<Longrightarrow> statements_copy fts stmts \<Longrightarrow>
     deep_copier (TStruct fts) (copy_struct stmts)"
  using deep_copier_struct statements_copyD by blast

end
