(* ===== verification/Deep_Copy.thy ===== *)
theory Deep_Copy
  imports Go_Heap
begin

text \<open>
  The copy functions of \<^verbatim>\<open>api/gtc/v1alpha1/zz_generated.deepcopy.go\<close> over the
  heap of \<^theory_text>\<open>Go_Heap\<close>.  Each struct of the API has its type (the fields of
  its declaration, in order), its \<^verbatim>\<open>DeepCopyInto\<close> (the statements of its body,
  in order) and its \<^verbatim>\<open>DeepCopy\<close> (allocate, then \<^verbatim>\<open>DeepCopyInto\<close>, nil staying
  nil).  \<^verbatim>\<open>TypeMeta\<close>, \<^verbatim>\<open>ObjectMeta\<close> and \<^verbatim>\<open>ListMeta\<close> belong to the API
  machinery: their types and copies are parameters.  A
  \<^verbatim>\<open>metav1.Duration\<close> is its count of nanoseconds.
\<close>

section \<open>The types and their copies\<close>

abbreviation uint_t :: gtype where "uint_t \<equiv> TPrim KInt"

abbreviation string_t :: gtype where "string_t \<equiv> TPrim KString"

abbreviation bool_t :: gtype where "bool_t \<equiv> TPrim KBool"

abbreviation Duration_t :: gtype where "Duration_t \<equiv> TPrim KInt"

definition RegexMatcher_t :: gtype where
  "RegexMatcher_t = TStruct
     [(''Regex'', string_t), (''Engine'', string_t)]"

definition RegexMatcher_DeepCopyInto :: copier where
  "RegexMatcher_DeepCopyInto = copy_assign"

definition RegexMatcher_DeepCopy :: copier where
  "RegexMatcher_DeepCopy = copy_ptr RegexMatcher_t RegexMatcher_DeepCopyInto"

definition RangeMatcher_t :: gtype where
  "RangeMatcher_t = TStruct
     [(''Start'', uint_t), (''End'', uint_t)]"

definition RangeMatcher_DeepCopyInto :: copier where
  "RangeMatcher_DeepCopyInto = copy_assign"

definition RangeMatcher_DeepCopy :: copier where
  "RangeMatcher_DeepCopy = copy_ptr RangeMatcher_t RangeMatcher_DeepCopyInto"

definition PathMatcher_t :: gtype where
  "PathMatcher_t = TStruct
     [(''Prefix'', string_t), (''Path'', string_t), (''Regex'', TPtr RegexMatcher_t)]"

definition PathMatcher_DeepCopyInto :: copier where
  "PathMatcher_DeepCopyInto = copy_struct
     [(''Regex'', copy_ptr RegexMatcher_t copy_assign)]"

definition PathMatcher_DeepCopy :: copier where
  "PathMatcher_DeepCopy = copy_ptr PathMatcher_t PathMatcher_DeepCopyInto"

definition HeaderMatcher_t :: gtype where
  "HeaderMatcher_t = TStruct
     [(''Name'', string_t), (''Exact'', TPtr string_t),
      (''Regex'', TPtr RegexMatcher_t), (''Range'', TPtr RangeMatcher_t),
      (''Present'', TPtr bool_t), (''Prefix'', TPtr string_t),
      (''Suffix'', TPtr string_t), (''Invert'', bool_t)]"

definition HeaderMatcher_DeepCopyInto :: copier where
  "HeaderMatcher_DeepCopyInto = copy_struct
     [(''Exact'', copy_ptr string_t copy_assign),
      (''Regex'', copy_ptr RegexMatcher_t copy_assign),
      (''Range'', copy_ptr RangeMatcher_t copy_assign),
      (''Present'', copy_ptr bool_t copy_assign),
      (''Prefix'', copy_ptr string_t copy_assign),
      (''Suffix'', copy_ptr string_t copy_assign)]"

definition HeaderMatcher_DeepCopy :: copier where
  "HeaderMatcher_DeepCopy = copy_ptr HeaderMatcher_t HeaderMatcher_DeepCopyInto"

definition MetadataMatcher_t :: gtype where
  "MetadataMatcher_t = TStruct
     [(''Name'', string_t), (''Exact'', TPtr string_t),
      (''Regex'', TPtr RegexMatcher_t), (''Range'', TPtr RangeMatcher_t),
      (''Present'', TPtr bool_t), (''Prefix'', TPtr string_t),
      (''Suffix'', TPtr string_t), (''Invert'', bool_t)]"

definition MetadataMatcher_DeepCopyInto :: copier where
  "MetadataMatcher_DeepCopyInto = copy_struct
     [(''Exact'', copy_ptr string_t copy_assign),
      (''Regex'', copy_ptr RegexMatcher_t copy_assign),
      (''Range'', copy_ptr RangeMatcher_t copy_assign),
      (''Present'', copy_ptr bool_t copy_assign),
      (''Prefix'', copy_ptr string_t copy_assign),
      (''Suffix'', copy_ptr string_t copy_assign)]"

definition MetadataMatcher_DeepCopy :: copier where
  "MetadataMatcher_DeepCopy = copy_ptr MetadataMatcher_t MetadataMatcher_DeepCopyInto"

definition Fraction_t :: gtype where
  "Fraction_t = TStruct
     [(''Numerator'', uint_t), (''Denominator'', string_t)]"

definition Fraction_DeepCopyInto :: copier where
  "Fraction_DeepCopyInto = copy_assign"

definition Fraction_DeepCopy :: copier where
  "Fraction_DeepCopy = copy_ptr Fraction_t Fraction_DeepCopyInto"

definition MetadataFault_t :: gtype where
  "MetadataFault_t = TStruct
     []"

definition MetadataFault_DeepCopyInto :: copier where
  "MetadataFault_DeepCopyInto = copy_assign"

definition MetadataFault_DeepCopy :: copier where
  "MetadataFault_DeepCopy = copy_ptr MetadataFault_t MetadataFault_DeepCopyInto"

definition FaultAbort_t :: gtype where
  "FaultAbort_t = TStruct
     [(''Code'', TPtr uint_t), (''Metadata'', TPtr MetadataFault_t),
      (''Percentage'', TPtr Fraction_t)]"

definition FaultAbort_DeepCopyInto :: copier where
  "FaultAbort_DeepCopyInto = copy_struct
     [(''Code'', copy_ptr uint_t copy_assign),
      (''Metadata'', copy_ptr MetadataFault_t copy_assign),
      (''Percentage'', copy_ptr Fraction_t copy_assign)]"

definition FaultAbort_DeepCopy :: copier where
  "FaultAbort_DeepCopy = copy_ptr FaultAbort_t FaultAbort_DeepCopyInto"

definition FaultDelay_t :: gtype where
  "FaultDelay_t = TStruct
     [(''Fixed'', TPtr Duration_t), (''Metadata'', TPtr MetadataFault_t),
      (''Percentage'', TPtr Fraction_t)]"

definition FaultDelay_DeepCopyInto :: copier where
  "FaultDelay_DeepCopyInto = copy_struct
     [(''Fixed'', copy_ptr Duration_t copy_assign),
      (''Metadata'', copy_ptr MetadataFault_t copy_assign),
      (''Percentage'', copy_ptr Fraction_t copy_assign)]"

definition FaultDelay_DeepCopy :: copier where
  "FaultDelay_DeepCopy = copy_ptr FaultDelay_t FaultDelay_DeepCopyInto"

definition FaultInterceptor_t :: gtype where
  "FaultInterceptor_t = TStruct
     [(''Delay'', TPtr FaultDelay_t), (''Abort'', TPtr FaultAbort_t),
      (''MaxActiveFaults'', TPtr uint_t), (''Headers'', TSlice HeaderMatcher_t)]"

definition FaultInterceptor_DeepCopyInto :: copier where
  "FaultInterceptor_DeepCopyInto = copy_struct
     [(''Delay'', copy_ptr FaultDelay_t FaultDelay_DeepCopyInto),
      (''Abort'', copy_ptr FaultAbort_t FaultAbort_DeepCopyInto),
      (''MaxActiveFaults'', copy_ptr uint_t copy_assign),
      (''Headers'', copy_slice HeaderMatcher_t HeaderMatcher_DeepCopyInto)]"

definition FaultInterceptor_DeepCopy :: copier where
  "FaultInterceptor_DeepCopy = copy_ptr FaultInterceptor_t FaultInterceptor_DeepCopyInto"

definition Interceptor_t :: gtype where
  "Interceptor_t = TStruct
     [(''Fault'', TPtr FaultInterceptor_t)]"

definition Interceptor_DeepCopyInto :: copier where
  "Interceptor_DeepCopyInto = copy_struct
     [(''Fault'', copy_ptr FaultInterceptor_t FaultInterceptor_DeepCopyInto)]"

definition Interceptor_DeepCopy :: copier where
  "Interceptor_DeepCopy = copy_ptr Interceptor_t Interceptor_DeepCopyInto"

definition MethodMatcher_t :: gtype where
  "MethodMatcher_t = TStruct
     [(''Namespace'', string_t), (''Service'', string_t), (''Method'', string_t)]"

definition MethodMatcher_DeepCopyInto :: copier where
  "MethodMatcher_DeepCopyInto = copy_assign"

definition MethodMatcher_DeepCopy :: copier where
  "MethodMatcher_DeepCopy = copy_ptr MethodMatcher_t MethodMatcher_DeepCopyInto"

definition ServiceMatcher_t :: gtype where
  "ServiceMatcher_t = TStruct
     [(''Namespace'', string_t), (''Service'', string_t)]"

definition ServiceMatcher_DeepCopyInto :: copier where
  "ServiceMatcher_DeepCopyInto = copy_assign"

definition ServiceMatcher_DeepCopy :: copier where
  "ServiceMatcher_DeepCopy = copy_ptr ServiceMatcher_t ServiceMatcher_DeepCopyInto"

definition RouteMatcher_t :: gtype where
  "RouteMatcher_t = TStruct
     [(''Method'', TPtr MethodMatcher_t), (''Service'', TPtr ServiceMatcher_t),
      (''Namespace'', TPtr string_t), (''Metadata'', TSlice MetadataMatcher_t),
      (''Fraction'', TPtr Fraction_t)]"

definition RouteMatcher_DeepCopyInto :: copier where
  "RouteMatcher_DeepCopyInto = copy_struct
     [(''Method'', copy_ptr MethodMatcher_t copy_assign),
      (''Service'', copy_ptr ServiceMatcher_t copy_assign),
      (''Namespace'', copy_ptr string_t copy_assign),
      (''Metadata'', copy_slice MetadataMatcher_t MetadataMatcher_DeepCopyInto),
      (''Fraction'', copy_ptr Fraction_t copy_assign)]"

definition RouteMatcher_DeepCopy :: copier where
  "RouteMatcher_DeepCopy = copy_ptr RouteMatcher_t RouteMatcher_DeepCopyInto"

definition RingHashConfig_t :: gtype where
  "RingHashConfig_t = TStruct
     [(''MinRingSize'', uint_t), (''MaxRingSize'', uint_t)]"

definition RingHashConfig_DeepCopyInto :: copier where
  "RingHashConfig_DeepCopyInto = copy_assign"

definition RingHashConfig_DeepCopy :: copier where
  "RingHashConfig_DeepCopy = copy_ptr RingHashConfig_t RingHashConfig_DeepCopyInto"

definition PortRef_t :: gtype where
  "PortRef_t = TStruct
     [(''Number'', uint_t), (''Name'', string_t)]"

definition PortRef_DeepCopyInto :: copier where
  "PortRef_DeepCopyInto = copy_assign"

definition PortRef_DeepCopy :: copier where
  "PortRef_DeepCopy = copy_ptr PortRef_t PortRef_DeepCopyInto"

definition ServiceRef_t :: gtype where
  "ServiceRef_t = TStruct
     [(''Name'', string_t), (''Namespace'', string_t), (''Port'', PortRef_t)]"

definition ServiceRef_DeepCopyInto :: copier where
  "ServiceRef_DeepCopyInto = copy_struct
     [(''Port'', copy_assign)]"

definition ServiceRef_DeepCopy :: copier where
  "ServiceRef_DeepCopy = copy_ptr ServiceRef_t ServiceRef_DeepCopyInto"

definition Locality_t :: gtype where
  "Locality_t = TStruct
     [(''Weight'', uint_t), (''Priority'', uint_t), (''Service'', TPtr ServiceRef_t)]"

definition Locality_DeepCopyInto :: copier where
  "Locality_DeepCopyInto = copy_struct
     [(''Service'', copy_ptr ServiceRef_t copy_assign)]"

definition Locality_DeepCopy :: copier where
  "Locality_DeepCopy = copy_ptr Locality_t Locality_DeepCopyInto"

definition Backend_t :: gtype where
  "Backend_t = TStruct
     [(''Weight'', uint_t), (''MaxRequests'', TPtr uint_t), (''LBPolicy'', string_t),
      (''RingHashConfig'', TPtr RingHashConfig_t),
      (''Interceptors'', TSlice Interceptor_t), (''Service'', TPtr ServiceRef_t),
      (''Localities'', TSlice Locality_t)]"

definition Backend_DeepCopyInto :: copier where
  "Backend_DeepCopyInto = copy_struct
     [(''MaxRequests'', copy_ptr uint_t copy_assign),
      (''RingHashConfig'', copy_ptr RingHashConfig_t copy_assign),
      (''Interceptors'', copy_slice Interceptor_t Interceptor_DeepCopyInto),
      (''Service'', copy_ptr ServiceRef_t copy_assign),
      (''Localities'', copy_slice Locality_t Locality_DeepCopyInto)]"

definition Backend_DeepCopy :: copier where
  "Backend_DeepCopy = copy_ptr Backend_t Backend_DeepCopyInto"

definition RetryBackoff_t :: gtype where
  "RetryBackoff_t = TStruct
     [(''BaseInterval'', Duration_t), (''MaxInterval'', TPtr Duration_t)]"

definition RetryBackoff_DeepCopyInto :: copier where
  "RetryBackoff_DeepCopyInto = copy_struct
     [(''BaseInterval'', copy_assign),
      (''MaxInterval'', copy_ptr Duration_t copy_assign)]"

definition RetryBackoff_DeepCopy :: copier where
  "RetryBackoff_DeepCopy = copy_ptr RetryBackoff_t RetryBackoff_DeepCopyInto"

definition RetryPolicy_t :: gtype where
  "RetryPolicy_t = TStruct
     [(''RetryOn'', TSlice string_t), (''NumRetries'', TPtr uint_t),
      (''Backoff'', TPtr RetryBackoff_t)]"

definition RetryPolicy_DeepCopyInto :: copier where
  "RetryPolicy_DeepCopyInto = copy_struct
     [(''RetryOn'', copy_flat_slice string_t),
      (''NumRetries'', copy_ptr uint_t copy_assign),
      (''Backoff'', copy_ptr RetryBackoff_t RetryBackoff_DeepCopyInto)]"

definition RetryPolicy_DeepCopy :: copier where
  "RetryPolicy_DeepCopy = copy_ptr RetryPolicy_t RetryPolicy_DeepCopyInto"

definition HashPolicy_t :: gtype where
  "HashPolicy_t = TStruct
     [(''Metadata'', string_t), (''Channel'', TPtr bool_t), (''Terminal'', bool_t)]"

definition HashPolicy_DeepCopyInto :: copier where
  "HashPolicy_DeepCopyInto = copy_struct
     [(''Channel'', copy_ptr bool_t copy_assign)]"

definition HashPolicy_DeepCopy :: copier where
  "HashPolicy_DeepCopy = copy_ptr HashPolicy_t HashPolicy_DeepCopyInto"

definition Route_t :: gtype where
  "Route_t = TStruct
     [(''Matcher'', TPtr RouteMatcher_t), (''Interceptors'', TSlice Interceptor_t),
      (''HashPolicy'', TSlice HashPolicy_t), (''MaxStreamDuration'', TPtr Duration_t),
      (''GrpcTimeoutHeaderMax'', TPtr Duration_t), (''Retry'', TPtr RetryPolicy_t),
      (''Backends'', TSlice Backend_t)]"

definition Route_DeepCopyInto :: copier where
  "Route_DeepCopyInto = copy_struct
     [(''Matcher'', copy_ptr RouteMatcher_t RouteMatcher_DeepCopyInto),
      (''Interceptors'', copy_slice Interceptor_t Interceptor_DeepCopyInto),
      (''HashPolicy'', copy_slice HashPolicy_t HashPolicy_DeepCopyInto),
      (''MaxStreamDuration'', copy_ptr Duration_t copy_assign),
      (''GrpcTimeoutHeaderMax'', copy_ptr Duration_t copy_assign),
      (''Retry'', copy_ptr RetryPolicy_t RetryPolicy_DeepCopyInto),
      (''Backends'', copy_slice Backend_t Backend_DeepCopyInto)]"

definition Route_DeepCopy :: copier where
  "Route_DeepCopy = copy_ptr Route_t Route_DeepCopyInto"

definition GRPCListenerSpec_t :: gtype where
  "GRPCListenerSpec_t = TStruct
     [(''MaxStreamDuration'', TPtr Duration_t),
      (''Interceptors'', TSlice Interceptor_t), (''Retry'', TPtr RetryPolicy_t),
      (''Routes'', TSlice Route_t)]"

definition GRPCListenerSpec_DeepCopyInto :: copier where
  "GRPCListenerSpec_DeepCopyInto = copy_struct
     [(''MaxStreamDuration'', copy_ptr Duration_t copy_assign),
      (''Interceptors'', copy_slice Interceptor_t Interceptor_DeepCopyInto),
      (''Retry'', copy_ptr RetryPolicy_t RetryPolicy_DeepCopyInto),
      (''Routes'', copy_slice Route_t Route_DeepCopyInto)]"

definition GRPCListenerSpec_DeepCopy :: copier where
  "GRPCListenerSpec_DeepCopy = copy_ptr GRPCListenerSpec_t GRPCListenerSpec_DeepCopyInto"

text \<open>The API machinery's part: the types of the embedded structs, and the two
  copy functions the generated code calls.\<close>

record meta_lib =
  TypeMeta_t :: gtype
  ObjectMeta_t :: gtype
  ListMeta_t :: gtype
  ObjectMeta_DeepCopyInto :: copier
  ListMeta_DeepCopyInto :: copier

definition GRPCListener_t :: "meta_lib \<Rightarrow> gtype" where
  "GRPCListener_t lib = TStruct
     [(''TypeMeta'', TypeMeta_t lib), (''ObjectMeta'', ObjectMeta_t lib),
      (''Spec'', GRPCListenerSpec_t)]"

definition GRPCListener_DeepCopyInto :: "meta_lib \<Rightarrow> copier" where
  "GRPCListener_DeepCopyInto lib = copy_struct
     [(''TypeMeta'', copy_assign), (''ObjectMeta'', ObjectMeta_DeepCopyInto lib),
      (''Spec'', GRPCListenerSpec_DeepCopyInto)]"

definition GRPCListener_DeepCopy :: "meta_lib \<Rightarrow> copier" where
  "GRPCListener_DeepCopy lib = copy_ptr (GRPCListener_t lib) (GRPCListener_DeepCopyInto lib)"

definition GRPCListenerList_t :: "meta_lib \<Rightarrow> gtype" where
  "GRPCListenerList_t lib = TStruct
     [(''TypeMeta'', TypeMeta_t lib), (''ListMeta'', ListMeta_t lib),
      (''Items'', TSlice (GRPCListener_t lib))]"

definition GRPCListenerList_DeepCopyInto :: "meta_lib \<Rightarrow> copier" where
  "GRPCListenerList_DeepCopyInto lib = copy_struct
     [(''TypeMeta'', copy_assign), (''ListMeta'', ListMeta_DeepCopyInto lib),
      (''Items'', copy_slice (GRPCListener_t lib) (GRPCListener_DeepCopyInto lib))]"

definition GRPCListenerList_DeepCopy :: "meta_lib \<Rightarrow> copier" where
  "GRPCListenerList_DeepCopy lib =
     copy_ptr (GRPCListenerList_t lib) (GRPCListenerList_DeepCopyInto lib)"

text \<open>A \<^verbatim>\<open>runtime.Object\<close> is an interface: \<^const>\<open>None\<close> is the nil interface, which
  an interface holding a nil pointer is not.\<close>

datatype runtime_Object = ListenerObject gval | ListenerListObject gval

definition GRPCListener_DeepCopyObject ::
  "meta_lib \<Rightarrow> gval \<Rightarrow> heap \<Rightarrow> runtime_Object option \<times> heap" where
  "GRPCListener_DeepCopyObject lib p h =
     (let (c, h') = GRPCListener_DeepCopy lib p h
      in (if c \<noteq> PtrV None then (Some (ListenerObject c), h') else (None, h')))"

definition GRPCListenerList_DeepCopyObject ::
  "meta_lib \<Rightarrow> gval \<Rightarrow> heap \<Rightarrow> runtime_Object option \<times> heap" where
  "GRPCListenerList_DeepCopyObject lib p h =
     (let (c, h') = GRPCListenerList_DeepCopy lib p h
      in (if c \<noteq> PtrV None then (Some (ListenerListObject c), h') else (None, h')))"

text \<open>Every struct of the package with its type and its \<^verbatim>\<open>DeepCopy\<close>.\<close>

definition api_copies :: "meta_lib \<Rightarrow> (string \<times> gtype \<times> copier) list" where
  "api_copies lib =
     [(''RegexMatcher'', RegexMatcher_t, RegexMatcher_DeepCopy),
      (''RangeMatcher'', RangeMatcher_t, RangeMatcher_DeepCopy),
      (''PathMatcher'', PathMatcher_t, PathMatcher_DeepCopy),
      (''HeaderMatcher'', HeaderMatcher_t, HeaderMatcher_DeepCopy),
      (''MetadataMatcher'', MetadataMatcher_t, MetadataMatcher_DeepCopy),
      (''Fraction'', Fraction_t, Fraction_DeepCopy),
      (''MetadataFault'', MetadataFault_t, MetadataFault_DeepCopy),
      (''FaultAbort'', FaultAbort_t, FaultAbort_DeepCopy),
      (''FaultDelay'', FaultDelay_t, FaultDelay_DeepCopy),
      (''FaultInterceptor'', FaultInterceptor_t, FaultInterceptor_DeepCopy),
      (''Interceptor'', Interceptor_t, Interceptor_DeepCopy),
      (''MethodMatcher'', MethodMatcher_t, MethodMatcher_DeepCopy),
      (''ServiceMatcher'', ServiceMatcher_t, ServiceMatcher_DeepCopy),
      (''RouteMatcher'', RouteMatcher_t, RouteMatcher_DeepCopy),
      (''RingHashConfig'', RingHashConfig_t, RingHashConfig_DeepCopy),
      (''PortRef'', PortRef_t, PortRef_DeepCopy),
      (''ServiceRef'', ServiceRef_t, ServiceRef_DeepCopy),
      (''Locality'', Locality_t, Locality_DeepCopy),
      (''Backend'', Backend_t, Backend_DeepCopy),
      (''RetryBackoff'', RetryBackoff_t, RetryBackoff_DeepCopy),
      (''RetryPolicy'', RetryPolicy_t, RetryPolicy_DeepCopy),
      (''HashPolicy'', HashPolicy_t, HashPolicy_DeepCopy),
      (''Route'', Route_t, Route_DeepCopy),
      (''GRPCListenerSpec'', GRPCListenerSpec_t, GRPCListenerSpec_DeepCopy),
      (''GRPCListener'', GRPCListener_t lib, GRPCListener_DeepCopy lib),
      (''GRPCListenerList'', GRPCListenerList_t lib, GRPCListenerList_DeepCopy lib)]"

section \<open>Every copy function meets the contract\<close>

named_theorems copier_simps \<open>contracts of the copy functions, for the simplifier\<close>

lemmas copier_side_conditions [copier_simps] =
  covers_pointers_def deep_copier_assign deep_copier_ptr deep_copier_slice deep_copier_flat_slice

lemma plain_RegexMatcher [simp]: "plain RegexMatcher_t"
  by (simp add: RegexMatcher_t_def)

lemma plain_RangeMatcher [simp]: "plain RangeMatcher_t"
  by (simp add: RangeMatcher_t_def)

lemma plain_Fraction [simp]: "plain Fraction_t"
  by (simp add: Fraction_t_def)

lemma plain_MetadataFault [simp]: "plain MetadataFault_t"
  by (simp add: MetadataFault_t_def)

lemma plain_MethodMatcher [simp]: "plain MethodMatcher_t"
  by (simp add: MethodMatcher_t_def)

lemma plain_ServiceMatcher [simp]: "plain ServiceMatcher_t"
  by (simp add: ServiceMatcher_t_def)

lemma plain_RingHashConfig [simp]: "plain RingHashConfig_t"
  by (simp add: RingHashConfig_t_def)

lemma plain_PortRef [simp]: "plain PortRef_t"
  by (simp add: PortRef_t_def)

lemma plain_ServiceRef [simp]: "plain ServiceRef_t"
  by (simp add: ServiceRef_t_def)

interpretation RegexMatcher_copy: deep_copier RegexMatcher_t RegexMatcher_DeepCopyInto
  unfolding RegexMatcher_DeepCopyInto_def by (simp add: copier_simps)

lemmas RegexMatcher_copies [copier_simps] = RegexMatcher_copy.deep_copier_axioms

interpretation RangeMatcher_copy: deep_copier RangeMatcher_t RangeMatcher_DeepCopyInto
  unfolding RangeMatcher_DeepCopyInto_def by (simp add: copier_simps)

lemmas RangeMatcher_copies [copier_simps] = RangeMatcher_copy.deep_copier_axioms

interpretation PathMatcher_copy: deep_copier PathMatcher_t PathMatcher_DeepCopyInto
  unfolding PathMatcher_t_def PathMatcher_DeepCopyInto_def by (rule struct_copierI) (simp_all add: copier_simps)

lemmas PathMatcher_copies [copier_simps] = PathMatcher_copy.deep_copier_axioms

interpretation HeaderMatcher_copy: deep_copier HeaderMatcher_t HeaderMatcher_DeepCopyInto
  unfolding HeaderMatcher_t_def HeaderMatcher_DeepCopyInto_def by (rule struct_copierI) (simp_all add: copier_simps)

lemmas HeaderMatcher_copies [copier_simps] = HeaderMatcher_copy.deep_copier_axioms

interpretation MetadataMatcher_copy: deep_copier MetadataMatcher_t MetadataMatcher_DeepCopyInto
  unfolding MetadataMatcher_t_def MetadataMatcher_DeepCopyInto_def by (rule struct_copierI) (simp_all add: copier_simps)

lemmas MetadataMatcher_copies [copier_simps] = MetadataMatcher_copy.deep_copier_axioms

interpretation Fraction_copy: deep_copier Fraction_t Fraction_DeepCopyInto
  unfolding Fraction_DeepCopyInto_def by (simp add: copier_simps)

lemmas Fraction_copies [copier_simps] = Fraction_copy.deep_copier_axioms

interpretation MetadataFault_copy: deep_copier MetadataFault_t MetadataFault_DeepCopyInto
  unfolding MetadataFault_DeepCopyInto_def by (simp add: copier_simps)

lemmas MetadataFault_copies [copier_simps] = MetadataFault_copy.deep_copier_axioms

interpretation FaultAbort_copy: deep_copier FaultAbort_t FaultAbort_DeepCopyInto
  unfolding FaultAbort_t_def FaultAbort_DeepCopyInto_def by (rule struct_copierI) (simp_all add: copier_simps)

lemmas FaultAbort_copies [copier_simps] = FaultAbort_copy.deep_copier_axioms

interpretation FaultDelay_copy: deep_copier FaultDelay_t FaultDelay_DeepCopyInto
  unfolding FaultDelay_t_def FaultDelay_DeepCopyInto_def by (rule struct_copierI) (simp_all add: copier_simps)

lemmas FaultDelay_copies [copier_simps] = FaultDelay_copy.deep_copier_axioms

interpretation FaultInterceptor_copy: deep_copier FaultInterceptor_t FaultInterceptor_DeepCopyInto
  unfolding FaultInterceptor_t_def FaultInterceptor_DeepCopyInto_def by (rule struct_copierI) (simp_all add: copier_simps)

lemmas FaultInterceptor_copies [copier_simps] = FaultInterceptor_copy.deep_copier_axioms

interpretation Interceptor_copy: deep_copier Interceptor_t Interceptor_DeepCopyInto
  unfolding Interceptor_t_def Interceptor_DeepCopyInto_def by (rule struct_copierI) (simp_all add: copier_simps)

lemmas Interceptor_copies [copier_simps] = Interceptor_copy.deep_copier_axioms

interpretation MethodMatcher_copy: deep_copier MethodMatcher_t MethodMatcher_DeepCopyInto
  unfolding MethodMatcher_DeepCopyInto_def by (simp add: copier_simps)

lemmas MethodMatcher_copies [copier_simps] = MethodMatcher_copy.deep_copier_axioms

interpretation ServiceMatcher_copy: deep_copier ServiceMatcher_t ServiceMatcher_DeepCopyInto
  unfolding ServiceMatcher_DeepCopyInto_def by (simp add: copier_simps)

lemmas ServiceMatcher_copies [copier_simps] = ServiceMatcher_copy.deep_copier_axioms

interpretation RouteMatcher_copy: deep_copier RouteMatcher_t RouteMatcher_DeepCopyInto
  unfolding RouteMatcher_t_def RouteMatcher_DeepCopyInto_def by (rule struct_copierI) (simp_all add: copier_simps)

lemmas RouteMatcher_copies [copier_simps] = RouteMatcher_copy.deep_copier_axioms

interpretation RingHashConfig_copy: deep_copier RingHashConfig_t RingHashConfig_DeepCopyInto
  unfolding RingHashConfig_DeepCopyInto_def by (simp add: copier_simps)

lemmas RingHashConfig_copies [copier_simps] = RingHashConfig_copy.deep_copier_axioms

interpretation PortRef_copy: deep_copier PortRef_t PortRef_DeepCopyInto
  unfolding PortRef_DeepCopyInto_def by (simp add: copier_simps)

lemmas PortRef_copies [copier_simps] = PortRef_copy.deep_copier_axioms

interpretation ServiceRef_copy: deep_copier ServiceRef_t ServiceRef_DeepCopyInto
  unfolding ServiceRef_t_def ServiceRef_DeepCopyInto_def by (rule struct_copierI) (simp_all add: copier_simps)

lemmas ServiceRef_copies [copier_simps] = ServiceRef_copy.deep_copier_axioms

interpretation Locality_copy: deep_copier Locality_t Locality_DeepCopyInto
  unfolding Locality_t_def Locality_DeepCopyInto_def by (rule struct_copierI) (simp_all add: copier_simps)

lemmas Locality_copies [copier_simps] = Locality_copy.deep_copier_axioms

interpretation Backend_copy: deep_copier Backend_t Backend_DeepCopyInto
  unfolding Backend_t_def Backend_DeepCopyInto_def by (rule struct_copierI) (simp_all add: copier_simps)

lemmas Backend_copies [copier_simps] = Backend_copy.deep_copier_axioms

interpretation RetryBackoff_copy: deep_copier RetryBackoff_t RetryBackoff_DeepCopyInto
  unfolding RetryBackoff_t_def RetryBackoff_DeepCopyInto_def by (rule struct_copierI) (simp_all add: copier_simps)

lemmas RetryBackoff_copies [copier_simps] = RetryBackoff_copy.deep_copier_axioms

interpretation RetryPolicy_copy: deep_copier RetryPolicy_t RetryPolicy_DeepCopyInto
  unfolding RetryPolicy_t_def RetryPolicy_DeepCopyInto_def by (rule struct_copierI) (simp_all add: copier_simps)

lemmas RetryPolicy_copies [copier_simps] = RetryPolicy_copy.deep_copier_axioms

interpretation HashPolicy_copy: deep_copier HashPolicy_t HashPolicy_DeepCopyInto
  unfolding HashPolicy_t_def HashPolicy_DeepCopyInto_def by (rule struct_copierI) (simp_all add: copier_simps)

lemmas HashPolicy_copies [copier_simps] = HashPolicy_copy.deep_copier_axioms

interpretation Route_copy: deep_copier Route_t Route_DeepCopyInto
  unfolding Route_t_def Route_DeepCopyInto_def by (rule struct_copierI) (simp_all add: copier_simps)

lemmas Route_copies [copier_simps] = Route_copy.deep_copier_axioms

interpretation GRPCListenerSpec_copy: deep_copier GRPCListenerSpec_t GRPCListenerSpec_DeepCopyInto
  unfolding GRPCListenerSpec_t_def GRPCListenerSpec_DeepCopyInto_def by (rule struct_copierI) (simp_all add: copier_simps)

lemmas GRPCListenerSpec_copies [copier_simps] = GRPCListenerSpec_copy.deep_copier_axioms

text \<open>What the generated code relies on: \<^verbatim>\<open>TypeMeta\<close> is pointer-free, since it is
  copied by assignment, and the two metadata copies are deep copies.\<close>

definition meta_lib_ok :: "meta_lib \<Rightarrow> bool" where
  "meta_lib_ok lib \<longleftrightarrow> plain (TypeMeta_t lib) \<and>
     deep_copier (ObjectMeta_t lib) (ObjectMeta_DeepCopyInto lib) \<and>
     deep_copier (ListMeta_t lib) (ListMeta_DeepCopyInto lib)"

lemma GRPCListener_copies:
  "meta_lib_ok lib \<Longrightarrow> deep_copier (GRPCListener_t lib) (GRPCListener_DeepCopyInto lib)"
  unfolding GRPCListener_t_def GRPCListener_DeepCopyInto_def
  by (rule struct_copierI) (simp_all add: copier_simps meta_lib_ok_def)

lemma GRPCListenerList_copies:
  "meta_lib_ok lib \<Longrightarrow> deep_copier (GRPCListenerList_t lib) (GRPCListenerList_DeepCopyInto lib)"
  using GRPCListener_copies [of lib]
  unfolding GRPCListenerList_t_def GRPCListenerList_DeepCopyInto_def
  by (intro struct_copierI) (simp_all add: copier_simps meta_lib_ok_def)

lemmas DeepCopy_defs = RegexMatcher_DeepCopy_def
  RangeMatcher_DeepCopy_def
  PathMatcher_DeepCopy_def
  HeaderMatcher_DeepCopy_def
  MetadataMatcher_DeepCopy_def
  Fraction_DeepCopy_def
  MetadataFault_DeepCopy_def
  FaultAbort_DeepCopy_def
  FaultDelay_DeepCopy_def
  FaultInterceptor_DeepCopy_def
  Interceptor_DeepCopy_def
  MethodMatcher_DeepCopy_def
  ServiceMatcher_DeepCopy_def
  RouteMatcher_DeepCopy_def
  RingHashConfig_DeepCopy_def
  PortRef_DeepCopy_def
  ServiceRef_DeepCopy_def
  Locality_DeepCopy_def
  Backend_DeepCopy_def
  RetryBackoff_DeepCopy_def
  RetryPolicy_DeepCopy_def
  HashPolicy_DeepCopy_def
  Route_DeepCopy_def
  GRPCListenerSpec_DeepCopy_def
  GRPCListener_DeepCopy_def GRPCListenerList_DeepCopy_def

lemma api_copies_copy:
  assumes "meta_lib_ok lib" and "(n, t, f) \<in> set (api_copies lib)"
  shows "deep_copier (TPtr t) f"
  using assms(2) GRPCListener_copies [OF assms(1)] GRPCListenerList_copies [OF assms(1)]
  unfolding api_copies_def DeepCopy_defs
  by (auto intro!: deep_copier_ptr simp: copier_simps)

section \<open>Properties\<close>

text \<open>C14: each of the generated \<^verbatim>\<open>DeepCopy\<close> functions returns an independent copy.
  Called on a pointer to a well-formed value it leaves every existing cell as
  it was, the copy reads the same as the original, no cell is reachable from
  both, and whatever is later written to a cell of the one, the other still
  reads the same.  This is what lets a client change an object it got from the
  shared informer cache after copying it.\<close>

theorem DeepCopy_is_independent:
  assumes "meta_lib_ok lib" and "(n, t, DeepCopy) \<in> set (api_copies lib)"
    and "view h (TPtr t) p = Some tr" and "DeepCopy p h = (q, h')"
  shows "(\<forall>a < free h. mem h' a = mem h a) \<and>
    view h' (TPtr t) p = Some tr \<and> view h' (TPtr t) q = Some tr \<and>
    footprint h' (TPtr t) p \<inter> footprint h' (TPtr t) q = {} \<and>
    (\<forall>a xs. a \<in> footprint h' (TPtr t) q \<longrightarrow> view (store a xs h') (TPtr t) p = Some tr) \<and>
    (\<forall>a xs. a \<in> footprint h' (TPtr t) p \<longrightarrow> view (store a xs h') (TPtr t) q = Some tr)"
proof -
  note c = api_copies_copy [OF assms(1,2)]
  have "extends h h'" using deep_copier.copies [OF c assms(3,4)] by blast
  then show ?thesis
    using deep_copier.original_kept [OF c assms(3,4)] deep_copier.copy_reads_same [OF c assms(3,4)]
      deep_copier.copy_is_disjoint [OF c assms(3,4)] deep_copier.write_to_copy [OF c assms(3,4)]
      deep_copier.write_to_original [OF c assms(3,4)]
    by (simp add: extends_def)
qed

text \<open>\<^verbatim>\<open>DeepCopyObject\<close> of a listener returns the nil interface exactly for the
  nil receiver, never an interface that holds a nil pointer, and otherwise
  the object is the result of \<^verbatim>\<open>DeepCopy\<close>, freshly allocated.\<close>

lemma DeepCopyObject_nil_iff:
  assumes "view h (TPtr (GRPCListener_t lib)) p = Some tr"
  shows "(p = PtrV None \<longrightarrow> GRPCListener_DeepCopyObject lib p h = (None, h)) \<and>
    (p \<noteq> PtrV None \<longrightarrow> (\<exists>h'. GRPCListener_DeepCopyObject lib p h =
        (Some (ListenerObject (PtrV (Some (free h)))), h') \<and>
      GRPCListener_DeepCopy lib p h = (PtrV (Some (free h)), h')))"
proof -
  have "GRPCListener_DeepCopyObject lib p h =
      (Some (ListenerObject (PtrV (Some (free h)))), snd (GRPCListener_DeepCopy lib p h)) \<and>
    GRPCListener_DeepCopy lib p h = (PtrV (Some (free h)), snd (GRPCListener_DeepCopy lib p h))"
    if "p = PtrV (Some a)" for a
    using that by (simp add: GRPCListener_DeepCopyObject_def GRPCListener_DeepCopy_def
        new_cell_def alloc_def Let_def case_prod_unfold)
  with assms show ?thesis
    by (elim view_ptrE) (auto simp: GRPCListener_DeepCopyObject_def GRPCListener_DeepCopy_def)
qed

section \<open>A concrete listener\<close>

definition sample_meta_lib :: meta_lib where
  "sample_meta_lib = \<lparr>TypeMeta_t = TStruct [(''Kind'', string_t), (''APIVersion'', string_t)],
     ObjectMeta_t = TStruct [(''Name'', string_t), (''DeletionGracePeriodSeconds'', TPtr uint_t)],
     ListMeta_t = TStruct [(''RemainingItemCount'', TPtr uint_t)],
     ObjectMeta_DeepCopyInto =
       copy_struct [(''DeletionGracePeriodSeconds'', copy_ptr uint_t copy_assign)],
     ListMeta_DeepCopyInto = copy_struct [(''RemainingItemCount'', copy_ptr uint_t copy_assign)]\<rparr>"

lemma sample_meta_lib_ok: "meta_lib_ok sample_meta_lib"
  unfolding meta_lib_ok_def sample_meta_lib_def
  by (auto intro!: struct_copierI simp: copier_simps)

definition sample_memory :: heap where
  "sample_memory = \<lparr>mem = (\<lambda>_. [])
     (0 := [PrimV (AInt 30)],
      1 := [StructV [(''RetryOn'', SliceV (Some (2, 1, 2))), (''NumRetries'', PtrV (Some 0)),
              (''Backoff'', PtrV None)]],
      2 := [PrimV (AString ''cancelled''), PrimV (AString ''internal''),
            PrimV (AString ''unavailable'')],
      3 := [StructV
        [(''TypeMeta'', StructV [(''Kind'', PrimV (AString ''GRPCListener'')),
            (''APIVersion'', PrimV (AString ''v1alpha1''))]),
         (''ObjectMeta'', StructV [(''Name'', PrimV (AString ''echo'')),
            (''DeletionGracePeriodSeconds'', PtrV (Some 0))]),
         (''Spec'', StructV [(''MaxStreamDuration'', PtrV (Some 0)), (''Interceptors'', SliceV None),
            (''Retry'', PtrV (Some 1)), (''Routes'', SliceV None)])]]),
     free = 4\<rparr>"

lemmas sample_view_defs = sample_memory_def sample_meta_lib_def GRPCListener_t_def
  GRPCListenerSpec_t_def RetryPolicy_t_def slice_elems_def

lemma sample_view:
  "\<exists>tr. view sample_memory (TPtr (GRPCListener_t sample_meta_lib)) (PtrV (Some 3)) = Some tr"
  by (simp add: sample_view_defs)

theorem DeepCopy_is_independent_witness:
  "meta_lib_ok sample_meta_lib \<and>
   (\<exists>tr q h'. view sample_memory (TPtr (GRPCListener_t sample_meta_lib)) (PtrV (Some 3)) = Some tr \<and>
      GRPCListener_DeepCopy sample_meta_lib (PtrV (Some 3)) sample_memory = (q, h') \<and>
      view h' (TPtr (GRPCListener_t sample_meta_lib)) q = Some tr \<and>
      footprint h' (TPtr (GRPCListener_t sample_meta_lib)) (PtrV (Some 3)) \<inter>
        footprint h' (TPtr (GRPCListener_t sample_meta_lib)) q = {})"
proof -
  obtain tr where tr: "view sample_memory (TPtr (GRPCListener_t sample_meta_lib)) (PtrV (Some 3)) = Some tr"
    using sample_view by blast
  obtain q h' where q: "GRPCListener_DeepCopy sample_meta_lib (PtrV (Some 3)) sample_memory = (q, h')"
    by fastforce
  have "(''GRPCListener'', GRPCListener_t sample_meta_lib, GRPCListener_DeepCopy sample_meta_lib)
      \<in> set (api_copies sample_meta_lib)"
    by (simp add: api_copies_def)
  from DeepCopy_is_independent [OF sample_meta_lib_ok this tr q]
  show ?thesis using sample_meta_lib_ok tr q by blast
qed

end
