(* ===== verification/Informer_Factory.thy ===== *)
theory Informer_Factory
  imports Gtc_Prelude "HOL-Library.Multiset"
begin

text \<open>
  The generated informer factory, \<^verbatim>\<open>client/informers/externalversions\<close>: one shared
  informer per object type, created on first request, started at most once, and
  awaited by \<^verbatim>\<open>Shutdown\<close> through a wait group.  The informers themselves, the
  API client and their list options are client-go code: type variables, with
  the calls the factory makes on them as the parameter \<open>informer_lib\<close>.  A
  \<^verbatim>\<open>reflect.Type\<close> is its name.  Go ranges over a map in an unspecified order, so
  the order is an argument of the loops.
\<close>

section \<open>The factory\<close>

type_synonym rtype = string

record ('c, 'o, 'i) sharedInformerFactory =
  sif_client :: 'c
  sif_namespace :: string
  sif_tweakListOptions :: "('o \<Rightarrow> 'o) option"
  sif_defaultResync :: int
  sif_customResync :: "rtype \<rightharpoonup> int"
  sif_informers :: "rtype \<rightharpoonup> 'i"
  sif_startedInformers :: "rtype \<rightharpoonup> bool"
  sif_wg :: nat
  sif_shuttingDown :: bool

type_synonym ('c, 'o, 'i) SharedInformerOption =
  "('c, 'o, 'i) sharedInformerFactory \<Rightarrow> ('c, 'o, 'i) sharedInformerFactory"

text \<open>\<open>resyncConfig\<close> lists the entries of the Go map in the order of the range loop.\<close>

definition WithCustomResyncConfig :: "(rtype \<times> int) list \<Rightarrow> ('c, 'o, 'i) SharedInformerOption" where
  "WithCustomResyncConfig resyncConfig factory =
     fold (\<lambda>(k, v) f. f\<lparr>sif_customResync := (sif_customResync f)(k \<mapsto> v)\<rparr>) resyncConfig factory"

definition WithTweakListOptions :: "('o \<Rightarrow> 'o) option \<Rightarrow> ('c, 'o, 'i) SharedInformerOption" where
  "WithTweakListOptions tweak factory = factory\<lparr>sif_tweakListOptions := tweak\<rparr>"

definition WithNamespace :: "string \<Rightarrow> ('c, 'o, 'i) SharedInformerOption" where
  "WithNamespace namespace factory = factory\<lparr>sif_namespace := namespace\<rparr>"

definition NewSharedInformerFactoryWithOptions ::
  "'c \<Rightarrow> int \<Rightarrow> ('c, 'o, 'i) SharedInformerOption list \<Rightarrow> ('c, 'o, 'i) sharedInformerFactory" where
  "NewSharedInformerFactoryWithOptions client defaultResync options =
     fold (\<lambda>opt factory. opt factory) options
       \<lparr>sif_client = client, sif_namespace = [], sif_tweakListOptions = None,
        sif_defaultResync = defaultResync, sif_customResync = Map.empty,
        sif_informers = Map.empty, sif_startedInformers = Map.empty,
        sif_wg = 0, sif_shuttingDown = False\<rparr>"

definition NewSharedInformerFactory :: "'c \<Rightarrow> int \<Rightarrow> ('c, 'o, 'i) sharedInformerFactory" where
  "NewSharedInformerFactory client defaultResync =
     NewSharedInformerFactoryWithOptions client defaultResync []"

definition NewFilteredSharedInformerFactory ::
  "'c \<Rightarrow> int \<Rightarrow> string \<Rightarrow> ('o \<Rightarrow> 'o) option \<Rightarrow> ('c, 'o, 'i) sharedInformerFactory" where
  "NewFilteredSharedInformerFactory client defaultResync namespace tweak =
     NewSharedInformerFactoryWithOptions client defaultResync
       [WithNamespace namespace, WithTweakListOptions tweak]"

text \<open>A read of a Go map of booleans: an absent key reads false.\<close>

definition started :: "('c, 'o, 'i) sharedInformerFactory \<Rightarrow> rtype \<Rightarrow> bool" where
  "started f t = (case sif_startedInformers f t of Some b \<Rightarrow> b | None \<Rightarrow> False)"

text \<open>The loop of \<^verbatim>\<open>Start\<close>; the goroutines it spawns are returned in order, each with
  its informer and the stop channel it runs under.\<close>

fun start_loop ::
  "'ch \<Rightarrow> rtype list \<Rightarrow> ('c, 'o, 'i) sharedInformerFactory \<Rightarrow>
     ('c, 'o, 'i) sharedInformerFactory \<times> (rtype \<times> 'i \<times> 'ch) list" where
  "start_loop stopCh [] f = (f, [])"
| "start_loop stopCh (informerType # order) f =
     (case sif_informers f informerType of
        None \<Rightarrow> start_loop stopCh order f
      | Some informer \<Rightarrow>
          if \<not> started f informerType
          then
            (let f1 = f\<lparr>sif_wg := sif_wg f + 1,
                        sif_startedInformers := (sif_startedInformers f)(informerType \<mapsto> True)\<rparr>;
                 (f2, gs) = start_loop stopCh order f1
             in (f2, (informerType, informer, stopCh) # gs))
          else start_loop stopCh order f)"

definition Start ::
  "'ch \<Rightarrow> rtype list \<Rightarrow> ('c, 'o, 'i) sharedInformerFactory \<Rightarrow>
     ('c, 'o, 'i) sharedInformerFactory \<times> (rtype \<times> 'i \<times> 'ch) list" where
  "Start stopCh order f =
     (if sif_shuttingDown f then (f, []) else start_loop stopCh order f)"

text \<open>\<^verbatim>\<open>Shutdown\<close> is two steps: the flag is set under the lock, then the wait group is
  awaited without it.\<close>

definition Shutdown_mark :: "('c, 'o, 'i) sharedInformerFactory \<Rightarrow> ('c, 'o, 'i) sharedInformerFactory" where
  "Shutdown_mark f = f\<lparr>sif_shuttingDown := True\<rparr>"

definition Shutdown_returns :: "('c, 'o, 'i) sharedInformerFactory \<Rightarrow> bool" where
  "Shutdown_returns f \<longleftrightarrow> sif_wg f = 0"

text \<open>\<^verbatim>\<open>defer f.wg.Done()\<close> of a goroutine of \<^verbatim>\<open>Start\<close>.\<close>

definition wg_Done :: "('c, 'o, 'i) sharedInformerFactory \<Rightarrow> ('c, 'o, 'i) sharedInformerFactory" where
  "wg_Done f = f\<lparr>sif_wg := sif_wg f - 1\<rparr>"

text \<open>The copy taken under the lock, then the wait for each informer of the copy.
  \<open>cacheSync stopCh informer\<close> is what \<^verbatim>\<open>cache.WaitForCacheSync\<close> returns.\<close>

definition started_informers :: "('c, 'o, 'i) sharedInformerFactory \<Rightarrow> (rtype \<rightharpoonup> 'i)" where
  "started_informers f = (\<lambda>t. if started f t then sif_informers f t else None)"

definition WaitForCacheSync ::
  "('ch \<Rightarrow> 'i \<Rightarrow> bool) \<Rightarrow> 'ch \<Rightarrow> ('c, 'o, 'i) sharedInformerFactory \<Rightarrow> (rtype \<rightharpoonup> bool)" where
  "WaitForCacheSync cacheSync stopCh f =
     (\<lambda>t. map_option (cacheSync stopCh) (started_informers f t))"

text \<open>\<open>newFunc\<close> allocates an informer: it threads the state of the informer library.\<close>

definition InformerFor ::
  "rtype \<Rightarrow> ('c \<Rightarrow> int \<Rightarrow> 'w \<Rightarrow> 'i \<times> 'w) \<Rightarrow> ('c, 'o, 'i) sharedInformerFactory \<Rightarrow> 'w \<Rightarrow>
     'i \<times> ('c, 'o, 'i) sharedInformerFactory \<times> 'w" where
  "InformerFor informerType newFunc f w =
     (case sif_informers f informerType of
        Some informer \<Rightarrow> (informer, f, w)
      | None \<Rightarrow>
          let resyncPeriod = (case sif_customResync f informerType of
                                Some d \<Rightarrow> d | None \<Rightarrow> sif_defaultResync f);
              (informer, w') = newFunc (sif_client f) resyncPeriod w
          in (informer, f\<lparr>sif_informers := (sif_informers f)(informerType \<mapsto> informer)\<rparr>, w'))"

section \<open>The informer of GRPCListener objects\<close>

record ('o, 'r) informer_config =
  ic_ListFunc :: "'o \<Rightarrow> 'r"
  ic_WatchFunc :: "'o \<Rightarrow> 'r"
  ic_objectType :: rtype
  ic_resyncPeriod :: int
  ic_indexers :: "string list"

record ('c, 'o, 'i, 'r, 'w, 'x) informer_lib =
  il_NewSharedIndexInformer :: "('o, 'r) informer_config \<Rightarrow> 'w \<Rightarrow> 'i \<times> 'w"
  il_List :: "'c \<Rightarrow> string \<Rightarrow> 'o \<Rightarrow> 'r"
  il_Watch :: "'c \<Rightarrow> string \<Rightarrow> 'o \<Rightarrow> 'r"
  il_GetIndexer :: "'i \<Rightarrow> 'x"

definition listenerType :: rtype where
  "listenerType = ''*v1alpha1.GRPCListener''"

definition tweaked :: "('o \<Rightarrow> 'o) option \<Rightarrow> 'o \<Rightarrow> 'o" where
  "tweaked tweak options = (case tweak of None \<Rightarrow> options | Some g \<Rightarrow> g options)"

definition NewFilteredGRPCListenerInformer ::
  "('c, 'o, 'i, 'r, 'w, 'x) informer_lib \<Rightarrow> 'c \<Rightarrow> string \<Rightarrow> int \<Rightarrow> string list \<Rightarrow>
     ('o \<Rightarrow> 'o) option \<Rightarrow> 'w \<Rightarrow> 'i \<times> 'w" where
  "NewFilteredGRPCListenerInformer lib client namespace resyncPeriod indexers tweak =
     il_NewSharedIndexInformer lib
       \<lparr>ic_ListFunc = (\<lambda>options. il_List lib client namespace (tweaked tweak options)),
        ic_WatchFunc = (\<lambda>options. il_Watch lib client namespace (tweaked tweak options)),
        ic_objectType = listenerType, ic_resyncPeriod = resyncPeriod, ic_indexers = indexers\<rparr>"

definition NewGRPCListenerInformer ::
  "('c, 'o, 'i, 'r, 'w, 'x) informer_lib \<Rightarrow> 'c \<Rightarrow> string \<Rightarrow> int \<Rightarrow> string list \<Rightarrow> 'w \<Rightarrow> 'i \<times> 'w" where
  "NewGRPCListenerInformer lib client namespace resyncPeriod indexers =
     NewFilteredGRPCListenerInformer lib client namespace resyncPeriod indexers None"

text \<open>The accessor objects carry the namespace and the tweak; the factory they point
  to is the state the calls thread.\<close>

record 'o gRPCListenerInformer =
  gi_tweakListOptions :: "('o \<Rightarrow> 'o) option"
  gi_namespace :: string

record 'o informer_group =
  grp_namespace :: string
  grp_tweakListOptions :: "('o \<Rightarrow> 'o) option"

record 'o informer_version =
  ver_namespace :: string
  ver_tweakListOptions :: "('o \<Rightarrow> 'o) option"

definition factory_Api :: "('c, 'o, 'i) sharedInformerFactory \<Rightarrow> 'o informer_group" where
  "factory_Api f = \<lparr>grp_namespace = sif_namespace f, grp_tweakListOptions = sif_tweakListOptions f\<rparr>"

definition group_V1alpha1 :: "'o informer_group \<Rightarrow> 'o informer_version" where
  "group_V1alpha1 g = \<lparr>ver_namespace = grp_namespace g, ver_tweakListOptions = grp_tweakListOptions g\<rparr>"

definition version_GRPCListeners :: "'o informer_version \<Rightarrow> 'o gRPCListenerInformer" where
  "version_GRPCListeners v =
     \<lparr>gi_tweakListOptions = ver_tweakListOptions v, gi_namespace = ver_namespace v\<rparr>"

definition defaultInformer ::
  "('c, 'o, 'i, 'r, 'w, 'x) informer_lib \<Rightarrow> 'o gRPCListenerInformer \<Rightarrow> 'c \<Rightarrow> int \<Rightarrow> 'w \<Rightarrow> 'i \<times> 'w" where
  "defaultInformer lib gi client resyncPeriod =
     NewFilteredGRPCListenerInformer lib client (gi_namespace gi) resyncPeriod [''namespace'']
       (gi_tweakListOptions gi)"

definition listener_Informer ::
  "('c, 'o, 'i, 'r, 'w, 'x) informer_lib \<Rightarrow> 'o gRPCListenerInformer \<Rightarrow>
     ('c, 'o, 'i) sharedInformerFactory \<Rightarrow> 'w \<Rightarrow> 'i \<times> ('c, 'o, 'i) sharedInformerFactory \<times> 'w" where
  "listener_Informer lib gi f w = InformerFor listenerType (defaultInformer lib gi) f w"

definition listener_Lister ::
  "('c, 'o, 'i, 'r, 'w, 'x) informer_lib \<Rightarrow> 'o gRPCListenerInformer \<Rightarrow>
     ('c, 'o, 'i) sharedInformerFactory \<Rightarrow> 'w \<Rightarrow> 'x \<times> ('c, 'o, 'i) sharedInformerFactory \<times> 'w" where
  "listener_Lister lib gi f w =
     (let (informer, f', w') = listener_Informer lib gi f w in (il_GetIndexer lib informer, f', w'))"

text \<open>\<^verbatim>\<open>ForResource\<close> knows one resource.\<close>

record GroupVersionResource =
  gvr_Group :: string
  gvr_Version :: string
  gvr_Resource :: string

record 'i genericInformer =
  gen_informer :: 'i
  gen_resource :: "string \<times> string"

definition ForResource ::
  "('c, 'o, 'i, 'r, 'w, 'x) informer_lib \<Rightarrow> GroupVersionResource \<Rightarrow>
     ('c, 'o, 'i) sharedInformerFactory \<Rightarrow> 'w \<Rightarrow>
     (go_error + 'i genericInformer) \<times> ('c, 'o, 'i) sharedInformerFactory \<times> 'w" where
  "ForResource lib resource f w =
     (if resource = \<lparr>gvr_Group = ''api.gtc.dev'', gvr_Version = ''v1alpha1'',
                     gvr_Resource = ''grpclisteners''\<rparr>
      then
        (let (informer, f', w') =
           listener_Informer lib (version_GRPCListeners (group_V1alpha1 (factory_Api f))) f w
         in (Inr \<lparr>gen_informer = informer, gen_resource = (gvr_Group resource, gvr_Resource resource)\<rparr>, f', w'))
      else
        (Inl (ErrorsNew ''no informer found for ''), f, w))"

section \<open>The factory among its callers\<close>

text \<open>
  The calls on a factory from any number of goroutines, one step per critical
  section, with the goroutines \<^verbatim>\<open>Start\<close> spawned (\<open>fs_running\<close>), the closed stop
  channels, the calls of \<^verbatim>\<open>Shutdown\<close> that wait and that have returned, and the
  goroutines ever launched (\<open>fs_launched\<close>).  An informer runs until its stop
  channel is closed.
\<close>

record ('c, 'o, 'i, 'ch, 'w) factory_sys =
  fs_factory :: "('c, 'o, 'i) sharedInformerFactory"
  fs_lib :: 'w
  fs_running :: "(rtype \<times> 'i \<times> 'ch) list"
  fs_launched :: "(rtype \<times> 'i \<times> 'ch) list"
  fs_closed :: "'ch list"
  fs_waiting :: nat
  fs_returned :: nat

text \<open>An order in which Go may range over the informers.\<close>

definition range_order :: "('c, 'o, 'i) sharedInformerFactory \<Rightarrow> rtype list \<Rightarrow> bool" where
  "range_order f order \<longleftrightarrow> distinct order \<and> set order = dom (sif_informers f)"

inductive factory_step ::
  "('c, 'o, 'i, 'ch, 'w) factory_sys \<Rightarrow> ('c, 'o, 'i, 'ch, 'w) factory_sys \<Rightarrow> bool" where
  step_Start:
    "range_order (fs_factory s) order \<Longrightarrow> Start stopCh order (fs_factory s) = (f, gs) \<Longrightarrow>
     factory_step s (s\<lparr>fs_factory := f, fs_running := fs_running s @ gs,
                       fs_launched := fs_launched s @ gs\<rparr>)"
| step_InformerFor:
    "InformerFor t newFunc (fs_factory s) (fs_lib s) = (informer, f, w) \<Longrightarrow>
     factory_step s (s\<lparr>fs_factory := f, fs_lib := w\<rparr>)"
| step_Shutdown:
    "factory_step s (s\<lparr>fs_factory := Shutdown_mark (fs_factory s), fs_waiting := Suc (fs_waiting s)\<rparr>)"
| step_Shutdown_return:
    "fs_waiting s = Suc n \<Longrightarrow> Shutdown_returns (fs_factory s) \<Longrightarrow>
     factory_step s (s\<lparr>fs_waiting := n, fs_returned := Suc (fs_returned s)\<rparr>)"
| step_close:
    "factory_step s (s\<lparr>fs_closed := ch # fs_closed s\<rparr>)"
| step_exit:
    "(t, informer, ch) \<in> set (fs_running s) \<Longrightarrow> ch \<in> set (fs_closed s) \<Longrightarrow>
     factory_step s (s\<lparr>fs_factory := wg_Done (fs_factory s),
                       fs_running := remove1 (t, informer, ch) (fs_running s)\<rparr>)"

definition factory_init ::
  "'c \<Rightarrow> int \<Rightarrow> ('c, 'o, 'i) SharedInformerOption list \<Rightarrow> 'w \<Rightarrow> ('c, 'o, 'i, 'ch, 'w) factory_sys" where
  "factory_init client defaultResync options w =
     \<lparr>fs_factory = NewSharedInformerFactoryWithOptions client defaultResync options, fs_lib = w,
      fs_running = [], fs_launched = [], fs_closed = [], fs_waiting = 0, fs_returned = 0\<rparr>"

text \<open>The options the package offers.\<close>

inductive package_option :: "('c, 'o, 'i) SharedInformerOption \<Rightarrow> bool" where
  "package_option (WithCustomResyncConfig cfg)"
| "package_option (WithTweakListOptions tweak)"
| "package_option (WithNamespace namespace)"

section \<open>Invariant\<close>

definition fresh_factory :: "('c, 'o, 'i) sharedInformerFactory \<Rightarrow> bool" where
  "fresh_factory f \<longleftrightarrow> sif_informers f = Map.empty \<and> sif_startedInformers f = Map.empty \<and>
     sif_wg f = 0 \<and> \<not> sif_shuttingDown f"

lemma fresh_option:
  assumes "package_option opt" and "fresh_factory f"
  shows "fresh_factory (opt f)"
  using assms(1)
proof cases
  case (1 cfg)
  have "fresh_factory (fold (\<lambda>(k, v) f. f\<lparr>sif_customResync := (sif_customResync f)(k \<mapsto> v)\<rparr>) cfg f)"
    by (rule fold_invariant [where Q = "\<lambda>_. True" and P = fresh_factory])
       (use assms(2) in \<open>simp_all add: fresh_factory_def case_prod_unfold\<close>)
  with 1 show ?thesis by (simp add: WithCustomResyncConfig_def)
qed (use assms(2) in \<open>auto simp: fresh_factory_def WithTweakListOptions_def WithNamespace_def\<close>)

lemma fresh_NewSharedInformerFactoryWithOptions:
  assumes "\<forall>opt \<in> set options. package_option opt"
  shows "fresh_factory (NewSharedInformerFactoryWithOptions client defaultResync options)"
proof -
  have "fresh_factory (fold (\<lambda>opt f. opt f) options g)" if "fresh_factory g" for g
    by (rule fold_invariant [where Q = package_option and P = fresh_factory])
       (use assms fresh_option that in auto)
  then show ?thesis
    by (simp add: NewSharedInformerFactoryWithOptions_def fresh_factory_def)
qed

definition factory_inv :: "('c, 'o, 'i, 'ch, 'w) factory_sys \<Rightarrow> bool" where
  "factory_inv s \<longleftrightarrow>
     sif_wg (fs_factory s) = length (fs_running s) \<and>
     distinct (map fst (fs_launched s)) \<and>
     set (map fst (fs_launched s)) = {t. started (fs_factory s) t} \<and>
     (\<forall>(t, informer, ch) \<in> set (fs_launched s). sif_informers (fs_factory s) t = Some informer) \<and>
     mset (fs_running s) \<subseteq># mset (fs_launched s) \<and>
     (0 < fs_waiting s + fs_returned s \<longrightarrow> sif_shuttingDown (fs_factory s)) \<and>
     (0 < fs_returned s \<longrightarrow> fs_running s = [])"

text \<open>What the loop of \<^verbatim>\<open>Start\<close> launches: each informer that was not started, once.\<close>

lemma start_loop_spec:
  assumes "distinct order" and "start_loop stopCh order f = (f', gs)"
  shows "sif_wg f' = sif_wg f + length gs \<and> sif_informers f' = sif_informers f \<and>
    sif_shuttingDown f' = sif_shuttingDown f \<and> distinct (map fst gs) \<and>
    set (map fst gs) = {t \<in> set order. t \<in> dom (sif_informers f) \<and> \<not> started f t} \<and>
    (\<forall>t. started f' t \<longleftrightarrow> started f t \<or> t \<in> set (map fst gs)) \<and>
    (\<forall>(t, informer, ch) \<in> set gs. sif_informers f t = Some informer \<and> ch = stopCh)"
  using assms
proof (induction stopCh order f arbitrary: f' gs rule: start_loop.induct)
  case (1 stopCh f)
  then show ?case by auto
next
  case (2 stopCh t order f)
  show ?case
  proof (cases "sif_informers f t")
    case None
    have "start_loop stopCh order f = (f', gs)" "distinct order"
      using "2.prems" None by simp_all
    moreover have "{x \<in> set (t # order). x \<in> dom (sif_informers f) \<and> \<not> started f x} =
        {x \<in> set order. x \<in> dom (sif_informers f) \<and> \<not> started f x}"
      using None by auto
    ultimately show ?thesis using "2.IH"(1) [OF None] by presburger
  next
    case (Some informer)
    show ?thesis
    proof (cases "started f t")
      case True
      have run: "start_loop stopCh order f = (f', gs)" and t: "distinct order"
        using "2.prems" Some True by simp_all
      have "{x \<in> set (t # order). x \<in> dom (sif_informers f) \<and> \<not> started f x} =
          {x \<in> set order. x \<in> dom (sif_informers f) \<and> \<not> started f x}"
        using True by auto
      moreover have "\<not> \<not> started f t" using True by simp
      ultimately show ?thesis using "2.IH"(3) [OF Some _ t run] by presburger
    next
      case False
      define f1 where "f1 = f\<lparr>sif_wg := sif_wg f + 1,
        sif_startedInformers := (sif_startedInformers f)(t \<mapsto> True)\<rparr>"
      obtain gs1 where gs: "start_loop stopCh order f1 = (f', gs1)" "gs = (t, informer, stopCh) # gs1"
        using "2.prems"(2) Some False unfolding f1_def
        by (auto simp: Let_def split: prod.splits)
      have st: "started f1 x \<longleftrightarrow> x = t \<or> started f x" for x
        by (simp add: f1_def started_def)
      have f1: "sif_informers f1 = sif_informers f" "sif_wg f1 = Suc (sif_wg f)"
          "sif_shuttingDown f1 = sif_shuttingDown f"
        by (simp_all add: f1_def)
      have t: "t \<notin> set order" "distinct order" using "2.prems"(1) by auto
      note IH = "2.IH"(2) [OF Some False f1_def t(2) gs(1), unfolded f1 st]
      then have "set (map fst gs) =
          {x \<in> set (t # order). x \<in> dom (sif_informers f) \<and> \<not> started f x}"
        unfolding gs(2) using t(1) Some False by auto
      moreover have "distinct (map fst gs)" using IH gs(2) by auto
      ultimately show ?thesis using IH gs(2) Some by auto
    qed
  qed
qed

lemma factory_inv_init:
  "\<forall>opt \<in> set options. package_option opt \<Longrightarrow> factory_inv (factory_init client defaultResync options w)"
  using fresh_NewSharedInformerFactoryWithOptions [of options client defaultResync]
  by (simp add: factory_inv_def factory_init_def fresh_factory_def started_def)

lemma Start_spec:
  assumes "distinct order" and "Start stopCh order f = (f', gs)"
  shows "sif_wg f' = sif_wg f + length gs \<and> sif_informers f' = sif_informers f \<and>
    sif_shuttingDown f' = sif_shuttingDown f \<and> distinct (map fst gs) \<and>
    (\<forall>t \<in> set (map fst gs). \<not> started f t) \<and>
    (\<forall>t. started f' t \<longleftrightarrow> started f t \<or> t \<in> set (map fst gs)) \<and>
    (\<forall>(t, informer, ch) \<in> set gs. sif_informers f t = Some informer) \<and>
    (sif_shuttingDown f \<longrightarrow> gs = [])"
proof (cases "sif_shuttingDown f")
  case True
  then show ?thesis using assms(2) by (auto simp: Start_def)
next
  case False
  with assms(2) have run: "start_loop stopCh order f = (f', gs)" by (simp add: Start_def)
  show ?thesis using start_loop_spec [OF assms(1) run] False by auto
qed

lemma InformerFor_spec:
  assumes "InformerFor t newFunc f w = (informer, f', w')"
  shows "sif_informers f' t = Some informer \<and>
    (\<forall>t' i. sif_informers f t' = Some i \<longrightarrow> sif_informers f' t' = Some i) \<and>
    (sif_informers f t \<noteq> None \<longrightarrow> f' = f \<and> w' = w) \<and>
    sif_wg f' = sif_wg f \<and> sif_shuttingDown f' = sif_shuttingDown f \<and> started f' = started f"
  using assms
  by (auto simp: InformerFor_def Let_def started_def fun_eq_iff split: option.splits prod.splits)

lemma factory_inv_step:
  assumes "factory_inv s" and "factory_step s s'"
  shows "factory_inv s'"
  using assms(2)
proof cases
  case (step_Start order stopCh f gs)
  have spec: "distinct order" "Start stopCh order (fs_factory s) = (f, gs)"
    using step_Start by (auto simp: range_order_def)
  note Start_spec [OF spec]
  moreover have "mset (fs_running s @ gs) \<subseteq># mset (fs_launched s @ gs)"
    using assms(1) by (simp add: factory_inv_def)
  ultimately show ?thesis
    using assms(1) unfolding factory_inv_def step_Start(1) by (auto simp: case_prod_unfold)
next
  case (step_InformerFor t newFunc informer f w)
  show ?thesis
    using assms(1) InformerFor_spec [OF step_InformerFor(2)]
    unfolding factory_inv_def step_InformerFor(1) by auto
next
  case step_Shutdown
  then show ?thesis
    using assms(1) by (auto simp: factory_inv_def Shutdown_mark_def started_def)
next
  case (step_Shutdown_return n)
  then show ?thesis
    using assms(1) by (auto simp: factory_inv_def Shutdown_returns_def)
next
  case (step_close ch)
  then show ?thesis using assms(1) by (simp add: factory_inv_def)
next
  case (step_exit t informer ch)
  have "mset (remove1 (t, informer, ch) (fs_running s)) \<subseteq># mset (fs_launched s)"
    using assms(1) by (auto simp: factory_inv_def intro: subset_mset.order_trans diff_subset_eq_self)
  then show ?thesis
    using assms(1) step_exit
    by (auto simp: factory_inv_def wg_Done_def started_def length_remove1)
qed

abbreviation factory_run ::
  "('c, 'o, 'i, 'ch, 'w) factory_sys \<Rightarrow> ('c, 'o, 'i, 'ch, 'w) factory_sys \<Rightarrow> bool" where
  "factory_run \<equiv> factory_step\<^sup>*\<^sup>*"

lemma factory_inv_run:
  "factory_run s s' \<Longrightarrow> factory_inv s \<Longrightarrow> factory_inv s'"
  by (induction rule: rtranclp_induct) (auto intro: factory_inv_step)

lemma informers_kept_step:
  "factory_step s s' \<Longrightarrow> sif_informers (fs_factory s) t = Some i \<Longrightarrow>
     sif_informers (fs_factory s') t = Some i"
proof (induction rule: factory_step.induct)
  case (step_Start s order stopCh f gs)
  then show ?case using Start_spec [of order stopCh "fs_factory s" f gs]
    by (auto simp: range_order_def)
next
  case (step_InformerFor t newFunc s informer f w)
  then show ?case using InformerFor_spec by fastforce
qed (auto simp: Shutdown_mark_def wg_Done_def)

lemma informers_kept:
  "factory_run s s' \<Longrightarrow> sif_informers (fs_factory s) t = Some i \<Longrightarrow>
     sif_informers (fs_factory s') t = Some i"
  by (induction rule: rtranclp_induct) (auto intro: informers_kept_step)

lemma shutting_down_step:
  "factory_step s s' \<Longrightarrow> sif_shuttingDown (fs_factory s) \<Longrightarrow>
     sif_shuttingDown (fs_factory s') \<and> fs_launched s' = fs_launched s \<and> fs_returned s \<le> fs_returned s'"
proof (induction rule: factory_step.induct)
  case (step_Start s order stopCh f gs)
  then show ?case by (auto simp: Start_def)
next
  case (step_InformerFor t newFunc s informer f w)
  then show ?case using InformerFor_spec by fastforce
qed (auto simp: Shutdown_mark_def wg_Done_def)

lemma shutting_down_run:
  "factory_run s s' \<Longrightarrow> sif_shuttingDown (fs_factory s) \<Longrightarrow>
     sif_shuttingDown (fs_factory s') \<and> fs_launched s' = fs_launched s \<and> fs_returned s \<le> fs_returned s'"
  by (induction rule: rtranclp_induct) (use shutting_down_step in fastforce)+

text \<open>The exits of goroutines whose stop channels are closed.\<close>

lemma drain_running:
  "\<forall>(t, informer, ch) \<in> set (fs_running s). ch \<in> set (fs_closed s) \<Longrightarrow>
   sif_wg (fs_factory s) = length (fs_running s) \<Longrightarrow>
   \<exists>s'. (factory_step ^^ length (fs_running s)) s s' \<and> fs_running s' = [] \<and>
     sif_wg (fs_factory s') = 0 \<and> fs_waiting s' = fs_waiting s \<and> fs_returned s' = fs_returned s"
proof (induction "length (fs_running s)" arbitrary: s)
  case 0
  then show ?case by auto
next
  case (Suc n)
  obtain t informer ch gs where run: "fs_running s = (t, informer, ch) # gs"
    using Suc.hyps(2) by (metis length_Suc_conv prod_cases3)
  define s1 where "s1 = s\<lparr>fs_factory := wg_Done (fs_factory s), fs_running := gs\<rparr>"
  have "factory_step s s1"
    using step_exit [of t informer ch s] Suc.prems(1) run by (simp add: s1_def)
  moreover obtain s' where "(factory_step ^^ length (fs_running s1)) s1 s'" "fs_running s' = []"
      "sif_wg (fs_factory s') = 0" "fs_waiting s' = fs_waiting s1" "fs_returned s' = fs_returned s1"
    using Suc.hyps(1) [of s1] Suc.hyps(2) Suc.prems run by (auto simp: s1_def wg_Done_def)
  ultimately show ?case
    using run by (auto simp: s1_def simp del: relpowp.simps intro: relpowp_Suc_I2)
qed

section \<open>Properties\<close>

text \<open>C19: over any interleaving of calls on a factory, every informer is run at most
  once however often \<^verbatim>\<open>Start\<close> is called, the wait group counts exactly the running
  goroutines, \<^verbatim>\<open>WaitForCacheSync\<close> reports on exactly the informers that were
  started, and once a \<^verbatim>\<open>Shutdown\<close> has returned no informer runs or is ever started
  again.\<close>

theorem factory_lifecycle:
  assumes "\<forall>opt \<in> set options. package_option opt"
    and "factory_run (factory_init client defaultResync options w) s"
  shows "distinct (map fst (fs_launched s)) \<and>
    sif_wg (fs_factory s) = length (fs_running s) \<and>
    dom (WaitForCacheSync cacheSync stopCh (fs_factory s)) = set (map fst (fs_launched s)) \<and>
    (0 < fs_returned s \<longrightarrow> fs_running s = [] \<and>
      (\<forall>s'. factory_run s s' \<longrightarrow> fs_running s' = [] \<and> fs_launched s' = fs_launched s))"
proof -
  have inv: "factory_inv s"
    by (rule factory_inv_run [OF assms(2) factory_inv_init [OF assms(1)]])
  then have st: "set (map fst (fs_launched s)) = {t. started (fs_factory s) t}"
    and known: "\<forall>t \<in> set (map fst (fs_launched s)). sif_informers (fs_factory s) t \<noteq> None"
    by (fastforce simp: factory_inv_def)+
  have "dom (WaitForCacheSync cacheSync stopCh (fs_factory s)) = set (map fst (fs_launched s))"
    using known unfolding st by (auto simp: WaitForCacheSync_def started_informers_def split: if_splits)
  moreover have "fs_running s' = [] \<and> fs_launched s' = fs_launched s"
    if "0 < fs_returned s" "factory_run s s'" for s'
  proof -
    have "sif_shuttingDown (fs_factory s)" using inv that(1) by (simp add: factory_inv_def)
    from shutting_down_run [OF that(2) this] that(1)
    show ?thesis using factory_inv_run [OF that(2) inv] by (auto simp: factory_inv_def)
  qed
  moreover have "distinct (map fst (fs_launched s))" "sif_wg (fs_factory s) = length (fs_running s)"
      "0 < fs_returned s \<longrightarrow> fs_running s = []"
    using inv by (simp_all add: factory_inv_def)
  ultimately show ?thesis by blast
qed

text \<open>A waiting \<^verbatim>\<open>Shutdown\<close> returns once the stop channels are closed: from any
  reachable state where a call waits and the stop channel of every running
  informer is closed, the exits of these goroutines and the return are all the
  steps it takes, one per goroutine and one more.\<close>

lemma factory_shutdown_returns:
  assumes "\<forall>opt \<in> set options. package_option opt"
    and "factory_run (factory_init client defaultResync options w) s"
    and "0 < fs_waiting s"
    and "\<forall>(t, informer, ch) \<in> set (fs_running s). ch \<in> set (fs_closed s)"
  shows "\<exists>s'. (factory_step ^^ Suc (length (fs_running s))) s s' \<and>
    fs_returned s' = Suc (fs_returned s) \<and> fs_running s' = []"
proof -
  have "factory_inv s"
    by (rule factory_inv_run [OF assms(2) factory_inv_init [OF assms(1)]])
  then have "sif_wg (fs_factory s) = length (fs_running s)" by (simp add: factory_inv_def)
  from drain_running [OF assms(4) this] obtain s1 where s1:
    "(factory_step ^^ length (fs_running s)) s s1" "fs_running s1 = []"
    "sif_wg (fs_factory s1) = 0" "fs_waiting s1 = fs_waiting s" "fs_returned s1 = fs_returned s"
    by blast
  obtain n where n: "fs_waiting s1 = Suc n" using assms(3) s1(4) by (metis gr0_conv_Suc)
  let ?s' = "s1\<lparr>fs_waiting := n, fs_returned := Suc (fs_returned s1)\<rparr>"
  have "factory_step s1 ?s'"
    using step_Shutdown_return [OF n] s1(3) by (simp add: Shutdown_returns_def)
  then have "(factory_step ^^ Suc (length (fs_running s))) s ?s'"
    using s1(1) by (rule relpowp_Suc_I [rotated])
  then show ?thesis
    using s1(2,5) by (intro exI [of _ ?s']) simp
qed

text \<open>Informers are shared: once a request for a type has been answered, every
  later request for that type, after any calls in between and with whatever
  constructor, returns the same informer, and neither constructs another nor
  changes the factory.\<close>

lemma informer_is_shared:
  assumes "InformerFor t newFunc (fs_factory s) (fs_lib s) = (informer, f, w)"
    and "factory_run (s\<lparr>fs_factory := f, fs_lib := w\<rparr>) s'"
  shows "InformerFor t newFunc' (fs_factory s') (fs_lib s') = (informer, fs_factory s', fs_lib s')"
proof -
  have "sif_informers (fs_factory s') t = Some informer"
    using informers_kept [OF assms(2)] InformerFor_spec [OF assms(1)] by simp
  then show ?thesis by (simp add: InformerFor_def)
qed

section \<open>A concrete run\<close>

text \<open>Informers are numbered by the library as they are created.\<close>

definition sample_new :: "unit \<Rightarrow> int \<Rightarrow> nat \<Rightarrow> nat \<times> nat" where
  "sample_new client resync n = (n, Suc n)"

definition sample_factory :: "(unit, unit, nat, string, nat) factory_sys" where
  "sample_factory = factory_init () 3600 [WithNamespace ''default''] 0"

definition sample_shutdown :: "(unit, unit, nat, string, nat) factory_sys" where
  "sample_shutdown =
     (let (informer, f, w) = InformerFor listenerType sample_new (fs_factory sample_factory) 0;
          (f1, gs) = Start ''stop'' [listenerType] f
      in sample_factory\<lparr>fs_factory := Shutdown_mark f1, fs_lib := w, fs_running := gs,
           fs_launched := gs, fs_waiting := 1, fs_closed := [''stop'']\<rparr>)"

lemmas sample_factory_defs = sample_factory_def factory_init_def WithNamespace_def
  NewSharedInformerFactoryWithOptions_def InformerFor_def sample_new_def Start_def started_def
  Shutdown_mark_def

lemma sample_factory_options: "\<forall>opt \<in> set [WithNamespace ''default'']. package_option opt"
  by (simp add: package_option.intros)

lemma sample_shutdown_running: "fs_running sample_shutdown = [(listenerType, 0, ''stop'')]"
  by (simp add: sample_shutdown_def sample_factory_defs)

lemma sample_shutdown_run: "factory_run sample_factory sample_shutdown"
proof -
  obtain f w where i: "InformerFor listenerType sample_new (fs_factory sample_factory) 0 = (0, f, w)"
    by (simp add: sample_factory_defs)
  obtain f1 gs where g: "Start ''stop'' [listenerType] f = (f1, gs)" by fastforce
  define s1 where "s1 = sample_factory\<lparr>fs_factory := f, fs_lib := w\<rparr>"
  define s2 where "s2 = s1\<lparr>fs_factory := f1, fs_running := fs_running s1 @ gs,
    fs_launched := fs_launched s1 @ gs\<rparr>"
  define s3 where "s3 = s2\<lparr>fs_closed := ''stop'' # fs_closed s2\<rparr>"
  have lib: "fs_lib sample_factory = 0" by (simp add: sample_factory_defs)
  have "range_order f [listenerType]"
    using i by (auto simp: range_order_def sample_factory_defs split: if_splits)
  then have "factory_run sample_factory s3"
    using step_InformerFor [of listenerType sample_new sample_factory 0 f w]
      step_Start [of s1 "[listenerType]" "''stop''" f1 gs] step_close [of s2 "''stop''"] i g lib
    by (simp add: s1_def s2_def s3_def)
  moreover have "factory_step s3 sample_shutdown"
    using step_Shutdown [of s3] i g
    by (simp add: s1_def s2_def s3_def sample_shutdown_def sample_factory_def factory_init_def)
  ultimately show ?thesis by (rule rtranclp.rtrancl_into_rtrancl)
qed

theorem factory_lifecycle_witness:
  "factory_run sample_factory sample_shutdown \<and>
   distinct (map fst (fs_launched sample_shutdown)) \<and> sif_wg (fs_factory sample_shutdown) = 1"
  using factory_lifecycle [OF sample_factory_options sample_shutdown_run [unfolded sample_factory_def],
      of "\<lambda>ch informer. True" "''stop''"]
    sample_shutdown_run sample_shutdown_running
  by simp

end
