(* ===== verification/Worker_Pool.thy ===== *)
theory Worker_Pool
  imports Queued_Handler Settling "HOL-Library.Multiset"
begin

text \<open>
  \<^verbatim>\<open>QueuedEventHandler.Run\<close> of \<^verbatim>\<open>pkg/controllersupport/handler.go\<close>: the worker
  goroutines that share a queue and a handler, from their start to the return
  of \<^verbatim>\<open>Run\<close> and the end of the last worker.  A step is what a goroutine does
  between two points where another can observe it: taking an item, handling it,
  the deferred \<^verbatim>\<open>Forget\<close> and \<^verbatim>\<open>Done\<close>.  The work queue is the parameter of
  \<^theory_text>\<open>Queued_Handler\<close>; \<^verbatim>\<open>wait.UntilWithContext\<close> calls a function again, after a
  pause, until the context is done, which it checks before each call.
\<close>

section \<open>The pool\<close>

text \<open>A worker between two calls of \<^verbatim>\<open>runWorker\<close> is \<open>Paused\<close>; inside one it is about
  to take an item, holds one, or has handled one.\<close>

datatype 'o worker =
    Paused
  | Idle
  | Holding "'o item"
  | Finishing "'o item"
  | Stopped
  | Panicked go_panic

datatype run_phase = Starting | AwaitingDone | Returned

record ('o, 'q, 's) pool =
  pl_queue :: 'q
  pl_state :: 's
  pl_workers :: "'o worker list"
  pl_run :: run_phase
  pl_ctxDone :: bool

definition NewQueuedEventHandler :: "'q \<Rightarrow> 's \<Rightarrow> ('o, 'q, 's) pool" where
  "NewQueuedEventHandler q s =
     \<lparr>pl_queue = q, pl_state = s, pl_workers = [], pl_run = Starting, pl_ctxDone = False\<rparr>"

text \<open>The goroutine of \<^verbatim>\<open>Run\<close>: it starts \<open>n\<close> workers, waits for the context and shuts
  the queue down as it returns.  It does not wait for the workers.\<close>

inductive Run_step ::
  "('o, 'q) workqueue \<Rightarrow> nat \<Rightarrow> ('o, 'q, 's) pool \<Rightarrow> ('o, 'q, 's) pool \<Rightarrow> bool"
  for wq n where
  run_worker:
    "pl_run p = Starting \<Longrightarrow> length (pl_workers p) < n \<Longrightarrow>
     Run_step wq n p (p\<lparr>pl_workers := pl_workers p @ [Paused]\<rparr>)"
| run_started:
    "pl_run p = Starting \<Longrightarrow> \<not> length (pl_workers p) < n \<Longrightarrow>
     Run_step wq n p (p\<lparr>pl_run := AwaitingDone\<rparr>)"
| run_return:
    "pl_run p = AwaitingDone \<Longrightarrow> pl_ctxDone p \<Longrightarrow>
     Run_step wq n p (p\<lparr>pl_run := Returned, pl_queue := wq_ShutDown wq (pl_queue p)\<rparr>)"

text \<open>The worker goroutines.\<close>

inductive worker_step ::
  "('o, 'q) workqueue \<Rightarrow> ('o, 's) EventHandler \<Rightarrow> ('o, 'q, 's) pool \<Rightarrow> ('o, 'q, 's) pool \<Rightarrow> bool"
  for wq h where
  worker_call:
    "i < length (pl_workers p) \<Longrightarrow> pl_workers p ! i = Paused \<Longrightarrow> \<not> pl_ctxDone p \<Longrightarrow>
     worker_step wq h p (p\<lparr>pl_workers := (pl_workers p)[i := Idle]\<rparr>)"
| worker_stop:
    "i < length (pl_workers p) \<Longrightarrow> pl_workers p ! i = Paused \<Longrightarrow> pl_ctxDone p \<Longrightarrow>
     worker_step wq h p (p\<lparr>pl_workers := (pl_workers p)[i := Stopped]\<rparr>)"
| worker_get:
    "i < length (pl_workers p) \<Longrightarrow> pl_workers p ! i = Idle \<Longrightarrow>
     wq_Get wq (pl_queue p) = Some (Some x, q) \<Longrightarrow>
     worker_step wq h p (p\<lparr>pl_workers := (pl_workers p)[i := Holding x], pl_queue := q\<rparr>)"
| worker_shutdown:
    "i < length (pl_workers p) \<Longrightarrow> pl_workers p ! i = Idle \<Longrightarrow>
     wq_Get wq (pl_queue p) = Some (None, q) \<Longrightarrow>
     worker_step wq h p (p\<lparr>pl_workers := (pl_workers p)[i := Paused], pl_queue := q\<rparr>)"
| worker_handle:
    "i < length (pl_workers p) \<Longrightarrow> pl_workers p ! i = Holding x \<Longrightarrow>
     dispatchEvent h x (pl_state p) = Ok s \<Longrightarrow>
     worker_step wq h p (p\<lparr>pl_workers := (pl_workers p)[i := Finishing x], pl_state := s\<rparr>)"
| worker_panic:
    "i < length (pl_workers p) \<Longrightarrow> pl_workers p ! i = Holding x \<Longrightarrow>
     dispatchEvent h x (pl_state p) = Panic e \<Longrightarrow>
     worker_step wq h p (p\<lparr>pl_workers := (pl_workers p)[i := Panicked e],
       pl_queue := wq_Done wq x (wq_Forget wq x (pl_queue p))\<rparr>)"
| worker_done:
    "i < length (pl_workers p) \<Longrightarrow> pl_workers p ! i = Finishing x \<Longrightarrow>
     worker_step wq h p (p\<lparr>pl_workers := (pl_workers p)[i := Idle],
       pl_queue := wq_Done wq x (wq_Forget wq x (pl_queue p))\<rparr>)"

text \<open>With the rest of the program: the informer adds events, the context is cancelled.\<close>

inductive pool_step ::
  "('o, 'q) workqueue \<Rightarrow> ('o, 's) EventHandler \<Rightarrow> nat \<Rightarrow> ('o, 'q, 's) pool \<Rightarrow> ('o, 'q, 's) pool \<Rightarrow> bool"
  for wq h n where
  pool_run: "Run_step wq n p p' \<Longrightarrow> pool_step wq h n p p'"
| pool_work: "worker_step wq h p p' \<Longrightarrow> pool_step wq h n p p'"
| pool_add: "pool_step wq h n p (p\<lparr>pl_queue := wq_Add wq x (pl_queue p)\<rparr>)"
| pool_cancel: "pool_step wq h n p (p\<lparr>pl_ctxDone := True\<rparr>)"

inductive_simps worker_step_simps: "worker_step wq h p p'"

section \<open>The documented queue under the pool\<close>

fun held :: "'o worker \<Rightarrow> 'o item list" where
  "held (Holding x) = [x]"
| "held (Finishing x) = [x]"
| "held w = []"

definition held_items :: "('o, 'q, 's) pool \<Rightarrow> 'o item multiset" where
  "held_items p = mset (concat (map held (pl_workers p)))"

text \<open>The items being processed, as the queue knows them, are those the workers
  hold, and no item is held twice.\<close>

definition pool_inv :: "('q \<Rightarrow> 'o wq_state) \<Rightarrow> nat \<Rightarrow> ('o, 'q, 's) pool \<Rightarrow> bool" where
  "pool_inv st n p \<longleftrightarrow>
     wqs_inv (st (pl_queue p)) \<and> distinct (wqs_processing (st (pl_queue p))) \<and>
     mset (wqs_processing (st (pl_queue p))) = held_items p \<and>
     (wqs_shutdown (st (pl_queue p)) \<longleftrightarrow> pl_run p = Returned) \<and>
     (pl_run p = Returned \<longrightarrow> pl_ctxDone p) \<and> length (pl_workers p) \<le> n"

lemma held_update:
  assumes "i < length ws"
  shows "mset (concat (map held (ws[i := v]))) + mset (held (ws ! i)) =
     mset (concat (map held ws)) + mset (held v)"
proof -
  have ws: "ws = take i ws @ ws ! i # drop (Suc i) ws" using assms by (rule id_take_nth_drop)
  show ?thesis
    unfolding upd_conv_take_nth_drop [OF assms] by (subst (4) ws) simp
qed

text \<open>How the queue's methods act on the items being processed.\<close>

lemma wqs_get_inv:
  assumes "wqs_inv q" and "wqs_get q = Some (Some x, q')"
  shows "wqs_inv q' \<and> wqs_processing q' = x # wqs_processing q \<and> x \<notin> set (wqs_processing q) \<and>
    wqs_shutdown q' = wqs_shutdown q \<and> wqs_queue q = x # wqs_queue q' \<and>
    set (wqs_dirty q') = set (wqs_dirty q) - {x}"
  using assms by (cases "wqs_queue q") (auto simp: wqs_get_def wqs_inv_def split: if_splits)

lemma wqs_done_inv:
  assumes "wqs_inv q" and "x \<in> set (wqs_processing q)"
  shows "wqs_inv (wqs_done x q)"
  using assms by (auto simp: wqs_inv_def wqs_done_def Let_def)

lemma wqs_done_simps [simp]:
  "wqs_processing (wqs_done x q) = removeAll x (wqs_processing q)"
  "wqs_shutdown (wqs_done x q) = wqs_shutdown q"
  "wqs_dirty (wqs_done x q) = wqs_dirty q"
  "wqs_queue (wqs_done x q) = (if x \<in> set (wqs_dirty q) then wqs_queue q @ [x] else wqs_queue q)"
  by (simp_all add: wqs_done_def Let_def)

lemma wqs_add_simps [simp]:
  "wqs_processing (wqs_add x q) = wqs_processing q"
  "wqs_shutdown (wqs_add x q) = wqs_shutdown q"
  by (simp_all add: wqs_add_def)

lemma wq_get_item:
  "workqueue_ok wq st \<Longrightarrow> wq_Get wq q = Some (y, q') \<Longrightarrow> wqs_get (st q) = Some (y, st q')"
  by (auto simp: workqueue_ok_def dest: spec [of _ q])

lemma wq_get_shutdown:
  assumes "workqueue_ok wq st" and "wq_Get wq q = Some (None, q')"
  shows "st q' = st q \<and> wqs_queue (st q) = [] \<and> wqs_shutdown (st q)"
  using wq_get_item [OF assms] by (auto simp: wqs_get_def split: list.splits if_splits)

lemma pool_inv_finish:
  assumes inv: "pool_inv st n p" and i: "i < length (pl_workers p)" and x: "held (pl_workers p ! i) = [x]"
    and w: "held w = []" and ok: "workqueue_ok wq st"
  shows "pool_inv st n (p\<lparr>pl_workers := (pl_workers p)[i := w],
    pl_queue := wq_Done wq x (wq_Forget wq x (pl_queue p))\<rparr>)"
proof -
  let ?q = "st (pl_queue p)"
  have q: "st (wq_Done wq x (wq_Forget wq x (pl_queue p))) = wqs_done x ?q"
    using ok by (simp add: workqueue_ok_def)
  have proc: "mset (wqs_processing ?q) = mset (concat (map held ((pl_workers p)[i := w]))) + {#x#}"
    using inv held_update [OF i, of w] x w by (simp add: pool_inv_def held_items_def)
  then have mem: "x \<in> set (wqs_processing ?q)" by (metis add_mset_add_single union_single_eq_member set_mset_mset)
  have "distinct (wqs_processing ?q)" using inv by (simp add: pool_inv_def)
  then have "mset (removeAll x (wqs_processing ?q)) = mset (wqs_processing ?q) - {#x#}"
    by (simp flip: distinct_remove1_removeAll)
  then have "mset (removeAll x (wqs_processing ?q)) = mset (concat (map held ((pl_workers p)[i := w])))"
    unfolding proc by simp
  then show ?thesis
    using inv wqs_done_inv [OF _ mem] q
    by (simp add: pool_inv_def held_items_def distinct_removeAll)
qed

lemma pool_inv_move:
  assumes "pool_inv st n p" and "i < length (pl_workers p)" and "held w = held (pl_workers p ! i)"
  shows "pool_inv st n (p\<lparr>pl_workers := (pl_workers p)[i := w]\<rparr>)"
  using assms held_update [OF assms(2), of w] by (simp add: pool_inv_def held_items_def)

lemma pool_inv_cong:
  "pool_inv st n p \<Longrightarrow> st q = st (pl_queue p) \<Longrightarrow> pool_inv st n (p\<lparr>pl_queue := q\<rparr>)"
  by (simp add: pool_inv_def held_items_def)

lemma pool_inv_work:
  assumes ok: "workqueue_ok wq st" and inv: "pool_inv st n p" and "worker_step wq h p p'"
  shows "pool_inv st n p'"
  using assms(3)
proof cases
  case (worker_get i x q)
  note get = wqs_get_inv [OF _ wq_get_item [OF ok worker_get(4)]]
  have "mset (concat (map held ((pl_workers p)[i := Holding x]))) = add_mset x (held_items p)"
    using held_update [OF worker_get(2), of "Holding x"] worker_get(3) by (simp add: held_items_def)
  then show ?thesis
    using inv get worker_get(1) by (simp add: pool_inv_def held_items_def)
next
  case (worker_shutdown i q)
  then show ?thesis
    using pool_inv_cong [OF pool_inv_move [OF inv worker_shutdown(2), of Paused], of q]
      wq_get_shutdown [OF ok worker_shutdown(4)] by simp
next
  case (worker_handle i x s)
  then show ?thesis
    using pool_inv_move [OF inv worker_handle(2), of "Finishing x"]
    by (simp add: pool_inv_def held_items_def)
next
  case (worker_panic i x e)
  then show ?thesis using pool_inv_finish [OF inv worker_panic(2) _ _ ok] by simp
next
  case (worker_done i x)
  then show ?thesis using pool_inv_finish [OF inv worker_done(2) _ _ ok] by simp
qed (use pool_inv_move [OF inv] in auto)

lemma pool_inv_step:
  assumes ok: "workqueue_ok wq st" and inv: "pool_inv st n p" and "pool_step wq h n p p'"
  shows "pool_inv st n p'"
  using assms(3)
proof cases
  case pool_run
  then show ?thesis
    using inv ok
    by cases (auto simp: pool_inv_def held_items_def workqueue_ok_def wqs_inv_def)
next
  case pool_work
  then show ?thesis using pool_inv_work [OF ok inv] by blast
next
  case (pool_add x)
  then show ?thesis
    using inv ok wqs_add_inv by (auto simp: pool_inv_def held_items_def workqueue_ok_def)
next
  case pool_cancel
  then show ?thesis using inv by (simp add: pool_inv_def held_items_def)
qed

lemma pool_inv_run:
  assumes "workqueue_ok wq st" and "(pool_step wq h n)\<^sup>*\<^sup>* p p'" and "pool_inv st n p"
  shows "pool_inv st n p'"
  using assms(2,3) by (induction rule: rtranclp_induct) (auto intro: pool_inv_step [OF assms(1)])

lemma pool_inv_init:
  "wqs_inv (st q) \<Longrightarrow> wqs_processing (st q) = [] \<Longrightarrow> \<not> wqs_shutdown (st q) \<Longrightarrow>
     pool_inv st n (NewQueuedEventHandler q s)"
  by (simp add: pool_inv_def NewQueuedEventHandler_def held_items_def)

section \<open>Draining\<close>

text \<open>The steps a worker still has to make once the queue is shut down, and the items
  still to be handled: those queued and those added again while being processed.\<close>

fun worker_work :: "'o worker \<Rightarrow> nat" where
  "worker_work Stopped = 0"
| "worker_work (Panicked e) = 0"
| "worker_work Paused = 1"
| "worker_work Idle = 2"
| "worker_work (Finishing x) = 3"
| "worker_work (Holding x) = 4"

definition queue_work :: "'o wq_state \<Rightarrow> nat" where
  "queue_work q = length (wqs_queue q) + card (set (wqs_dirty q) \<inter> set (wqs_processing q))"

definition pool_work_left :: "('q \<Rightarrow> 'o wq_state) \<Rightarrow> ('o, 'q, 's) pool \<Rightarrow> nat" where
  "pool_work_left st p =
     sum_list (map worker_work (pl_workers p)) + 3 * queue_work (st (pl_queue p))"

lemma work_update:
  "i < length ws \<Longrightarrow> sum_list (map worker_work (ws[i := w])) + worker_work (ws ! i) =
     sum_list (map worker_work ws) + worker_work w"
  using sum_list_update [of i "map worker_work ws" "worker_work w"] member_le_sum_list [of "worker_work (ws ! i)" "map worker_work ws"]
  by (simp add: map_update)

lemma queue_work_get:
  assumes "wqs_inv q" and "wqs_get q = Some (Some x, q')"
  shows "queue_work q = Suc (queue_work q')"
proof -
  note get = wqs_get_inv [OF assms]
  have "set (wqs_dirty q') \<inter> set (wqs_processing q') = set (wqs_dirty q) \<inter> set (wqs_processing q)"
    using get by auto
  then show ?thesis using get by (simp add: queue_work_def)
qed

lemma queue_work_done:
  assumes "x \<in> set (wqs_processing q)"
  shows "queue_work (wqs_done x q) = queue_work q"
proof (cases "x \<in> set (wqs_dirty q)")
  case True
  let ?S = "set (wqs_dirty q) \<inter> set (wqs_processing q)"
  have "set (wqs_dirty q) \<inter> set (removeAll x (wqs_processing q)) = ?S - {x}" by auto
  moreover have "Suc (card (?S - {x})) = card ?S"
    using assms True by (intro card_Suc_Diff1) auto
  ultimately show ?thesis using True by (simp add: queue_work_def)
next
  case False
  then have "set (wqs_dirty q) \<inter> set (removeAll x (wqs_processing q)) =
      set (wqs_dirty q) \<inter> set (wqs_processing q)" by auto
  then show ?thesis using False by (simp add: queue_work_def)
qed

lemma held_processing:
  assumes "pool_inv st n p" and "i < length (pl_workers p)" and "x \<in> set (held (pl_workers p ! i))"
  shows "x \<in> set (wqs_processing (st (pl_queue p)))"
proof -
  have "x \<in> set (concat (map held (pl_workers p)))" using assms(2,3) nth_mem by fastforce
  then have "x \<in># held_items p" by (simp add: held_items_def)
  then show ?thesis using assms(1) by (simp add: pool_inv_def flip: set_mset_mset)
qed

lemma queue_work_finish:
  assumes "workqueue_ok wq st" and "pool_inv st n p" and "i < length (pl_workers p)"
    and "held (pl_workers p ! i) = [x]"
  shows "queue_work (st (wq_Done wq x (wq_Forget wq x (pl_queue p)))) = queue_work (st (pl_queue p))"
  using queue_work_done [OF held_processing [OF assms(2,3)]] assms(1,4)
  by (simp add: workqueue_ok_def)

lemma drain_measure:
  assumes ok: "workqueue_ok wq st" and inv: "pool_inv st n p" and done_: "pl_ctxDone p"
    and "worker_step wq h p p'"
  shows "pool_work_left st p' < pool_work_left st p"
  using assms(4)
proof cases
  case (worker_call i)
  then show ?thesis using done_ by simp
next
  case (worker_stop i)
  then show ?thesis using work_update [of i "pl_workers p" Stopped] by (simp add: pool_work_left_def)
next
  case (worker_get i x q)
  have "queue_work (st (pl_queue p)) = Suc (queue_work (st q))"
    using queue_work_get [OF _ wq_get_item [OF ok worker_get(4)]] inv by (simp add: pool_inv_def)
  then show ?thesis
    using worker_get work_update [of i "pl_workers p" "Holding x"] by (simp add: pool_work_left_def)
next
  case (worker_shutdown i q)
  then show ?thesis
    using work_update [of i "pl_workers p" Paused] wq_get_shutdown [OF ok worker_shutdown(4)]
    by (simp add: pool_work_left_def)
next
  case (worker_handle i x s)
  then show ?thesis
    using work_update [of i "pl_workers p" "Finishing x"] by (simp add: pool_work_left_def)
next
  case (worker_panic i x e)
  then show ?thesis
    using work_update [of i "pl_workers p" "Panicked e"] queue_work_finish [OF ok inv worker_panic(2)]
    by (simp add: pool_work_left_def)
next
  case (worker_done i x)
  then show ?thesis
    using work_update [of i "pl_workers p" Idle] queue_work_finish [OF ok inv worker_done(2)]
    by (simp add: pool_work_left_def)
qed

text \<open>A worker that has not left \<^verbatim>\<open>runWorker\<close>; as long as one is there, what is queued
  will be taken.\<close>

fun active :: "'o worker \<Rightarrow> bool" where
  "active Idle = True"
| "active (Holding x) = True"
| "active (Finishing x) = True"
| "active w = False"

definition calm :: "('o, 'q, 's) pool \<Rightarrow> bool" where
  "calm p \<longleftrightarrow> (\<forall>e. Panicked e \<notin> set (pl_workers p))"

definition attended :: "('q \<Rightarrow> 'o wq_state) \<Rightarrow> ('o, 'q, 's) pool \<Rightarrow> bool" where
  "attended st p \<longleftrightarrow> wqs_queue (st (pl_queue p)) \<noteq> [] \<longrightarrow> (\<exists>w \<in> set (pl_workers p). active w)"

lemma active_update: "i < length ws \<Longrightarrow> active w \<Longrightarrow> \<exists>v \<in> set (ws[i := w]). active v"
  by (metis length_list_update nth_list_update_eq nth_mem)

text \<open>A panicked worker stays one.\<close>

lemma calm_before:
  assumes "worker_step wq h p p'" and "calm p'"
  shows "calm p"
proof (rule ccontr)
  assume "\<not> calm p"
  then obtain e j where j: "j < length (pl_workers p)" "pl_workers p ! j = Panicked e"
    by (auto simp: calm_def in_set_conv_nth)
  from assms(1) j have "j < length (pl_workers p') \<and> pl_workers p' ! j = Panicked e"
    by cases (auto simp: nth_list_update)
  then show False using assms(2) nth_mem by (fastforce simp: calm_def)
qed

lemma attended_step:
  assumes ok: "workqueue_ok wq st" and "worker_step wq h p p'" and "attended st p" and "pl_ctxDone p" and "calm p'"
  shows "attended st p'"
  using assms(2)
proof cases
  case (worker_stop i)
  have "\<exists>v \<in> set ((pl_workers p)[i := Stopped]). active v" if "\<exists>w \<in> set (pl_workers p). active w"
    using that worker_stop(2,3)
    by (metis active.simps(4) in_set_conv_nth length_list_update nth_list_update_neq)
  then show ?thesis using worker_stop(1) assms(3) by (auto simp: attended_def)
next
  case (worker_shutdown i q)
  then show ?thesis using wq_get_shutdown [OF ok worker_shutdown(4)] by (simp add: attended_def)
next
  case (worker_panic i x e)
  then show ?thesis using assms(5) set_update_memI [of i "pl_workers p" "Panicked e"] by (auto simp: calm_def)
qed (use assms(4) in \<open>auto simp: attended_def intro!: active_update\<close>)

text \<open>When nobody is left in \<^verbatim>\<open>runWorker\<close>, the queue stays as it is.\<close>

lemma unattended_step:
  assumes "worker_step wq h p p'" and "pl_ctxDone p" and "\<not> (\<exists>w \<in> set (pl_workers p). active w)"
  shows "pl_queue p' = pl_queue p \<and> \<not> (\<exists>w \<in> set (pl_workers p'). active w)"
  using assms(1)
proof cases
  case (worker_stop i)
  then show ?thesis using assms(3) set_update_subset_insert [of "pl_workers p" i Stopped] by auto
qed (use assms(2,3) in \<open>auto dest!: nth_mem\<close>)

lemma worker_not_stuck:
  assumes ok: "workqueue_ok wq st" and "pool_inv st n p" and "pl_run p = Returned"
    and "i < length (pl_workers p)" and "worker_work (pl_workers p ! i) \<noteq> 0"
  shows "\<exists>p'. worker_step wq h p p'"
proof (cases "pl_workers p ! i")
  case Paused
  then show ?thesis using assms(4) by (metis worker_call worker_stop)
next
  case Idle
  have "wqs_shutdown (st (pl_queue p))" using assms(2,3) by (simp add: pool_inv_def)
  then have "wqs_get (st (pl_queue p)) \<noteq> None" by (auto simp: wqs_get_def split: list.splits)
  moreover have "map_option (\<lambda>(x, q). (x, st q)) (wq_Get wq (pl_queue p)) = wqs_get (st (pl_queue p))"
    using ok by (simp add: workqueue_ok_def)
  ultimately have "wq_Get wq (pl_queue p) \<noteq> None" by (metis option.map_disc_iff)
  then obtain y q where "wq_Get wq (pl_queue p) = Some (y, q)" by auto
  with Idle assms(4) show ?thesis by (cases y) (blast intro: worker_get worker_shutdown)+
next
  case (Holding x)
  with assms(4) show ?thesis
    using dispatchEvent_not_Err [of h x "pl_state p"]
    by (cases "dispatchEvent h x (pl_state p)") (blast intro: worker_handle worker_panic)+
next
  case (Finishing x)
  with assms(4) show ?thesis by (blast intro: worker_done)
qed (use assms(5) in auto)

text \<open>
  The workers after \<^verbatim>\<open>Run\<close> has returned come to rest.
\<close>

definition draining_pool ::
    "('o, 'q) workqueue \<Rightarrow> ('q \<Rightarrow> 'o wq_state) \<Rightarrow> nat \<Rightarrow> ('o, 'q, 's) pool \<Rightarrow> bool" where
  "draining_pool wq st n p \<longleftrightarrow> workqueue_ok wq st \<and> pool_inv st n p \<and> pl_run p = Returned"

definition workers_over :: "('o, 'q, 's) pool \<Rightarrow> bool" where
  "workers_over p \<longleftrightarrow> (\<forall>w \<in> set (pl_workers p). w = Stopped \<or> (\<exists>e. w = Panicked e))"

lemma draining_pool_ctxDone: "draining_pool wq st n p \<Longrightarrow> pl_ctxDone p"
  by (simp add: draining_pool_def pool_inv_def)

lemma draining_pool_step:
  assumes "draining_pool wq st n p" and "worker_step wq h p p'"
  shows "draining_pool wq st n p' \<and> pool_work_left st p' < pool_work_left st p"
proof -
  have "pl_run p' = pl_run p" using assms(2) by cases simp_all
  then show ?thesis
    using assms drain_measure [OF _ _ draining_pool_ctxDone assms(2)] pool_inv_work [OF _ _ assms(2)]
    by (auto simp: draining_pool_def)
qed

lemma draining_pool_progress:
  assumes "draining_pool wq st n p" and stuck: "\<not> (\<exists>p'. worker_step wq h p p')"
  shows "workers_over p"
  unfolding workers_over_def
proof
  fix w
  assume w: "w \<in> set (pl_workers p)"
  obtain i where "i < length (pl_workers p)" and "pl_workers p ! i = w"
    using w by (auto simp: in_set_conv_nth)
  then have "worker_work w = 0"
    using worker_not_stuck [of wq st n p i h] assms by (auto simp: draining_pool_def)
  then show "w = Stopped \<or> (\<exists>e. w = Panicked e)" by (cases w) auto
qed

interpretation pool_drain: bounded_settling "worker_step wq h" "draining_pool wq st n" "pool_work_left st" workers_over
  for wq h st n
  by unfold_locales (use draining_pool_step draining_pool_progress in blast)+

lemma drain_attended:
  assumes "(worker_step wq h ^^ k) p p'" and "draining_pool wq st n p" and "attended st p" and "calm p'"
  shows "attended st p'"
  using assms(1,4)
proof (induction k arbitrary: p')
  case (Suc k)
  then obtain u where run: "(worker_step wq h ^^ k) p u" and st: "worker_step wq h u p'" by auto
  have u: "draining_pool wq st n u" using pool_drain.run_works [OF run assms(2)] by simp
  then have "workqueue_ok wq st" by (simp add: draining_pool_def)
  from attended_step [OF this st Suc.IH [OF run calm_before [OF st Suc.prems(2)]] draining_pool_ctxDone [OF u] Suc.prems(2)]
  show ?case .
qed (use assms(3) in simp)

lemma drain_unattended:
  assumes "(worker_step wq h ^^ k) p p'" and "draining_pool wq st n p" and "\<not> (\<exists>w \<in> set (pl_workers p). active w)"
  shows "pl_queue p' = pl_queue p \<and> \<not> (\<exists>w \<in> set (pl_workers p'). active w)"
  using assms(1)
proof (induction k arbitrary: p')
  case (Suc k)
  then obtain u where run: "(worker_step wq h ^^ k) p u" and st: "worker_step wq h u p'" by auto
  have "draining_pool wq st n u" using pool_drain.run_works [OF run assms(2)] by simp
  then show ?case using unattended_step [OF st draining_pool_ctxDone] Suc.IH [OF run] by simp
qed (use assms(3) in simp)

context event_handler
begin

text \<open>Any number of workers leave the invariant of the handler's state in place.\<close>

lemma pool_step_keeps:
  "pool_step wq handler n p p' \<Longrightarrow> state_inv (pl_state p) \<Longrightarrow>
     state_inv (pl_state p') \<and> evolves (pl_state p) (pl_state p')"
proof (induction rule: pool_step.induct)
  case (pool_run p p')
  then have "pl_state p' = pl_state p" by cases simp_all
  then show ?case using pool_run.prems evolves_refl by simp
next
  case (pool_work p p')
  then show ?case
  proof cases
    case (worker_handle i x s)
    then show ?thesis using dispatch_ok [OF pool_work.prems worker_handle(4)] by simp
  qed (use pool_work.prems evolves_refl in auto)
qed (use evolves_refl in auto)

lemma pool_keeps:
  assumes "(pool_step wq handler n)\<^sup>*\<^sup>* p p'" and "state_inv (pl_state p)"
  shows "state_inv (pl_state p') \<and> evolves (pl_state p) (pl_state p')"
  using assms
proof (induction rule: rtranclp_induct)
  case (step p1 p2)
  then show ?case using pool_step_keeps [OF step.hyps(2)] evolves_trans by blast
qed (use evolves_refl in auto)

end

lemma distinct_concat_disjoint:
  assumes "distinct (concat (map f xs))" and "i < j" and "j < length xs"
  shows "set (f (xs ! i)) \<inter> set (f (xs ! j)) = {}"
proof -
  have "xs = take j xs @ xs ! j # drop (Suc j) xs" using assms(3) by (rule id_take_nth_drop)
  then have "concat (map f xs) = (concat (map f (take j xs)) @ f (xs ! j)) @ concat (map f (drop (Suc j) xs))"
    by (metis append_assoc concat.simps(2) concat_append list.simps(9) map_append)
  then have "distinct (concat (map f (take j xs)) @ f (xs ! j))"
    using assms(1) by (metis distinct_append)
  moreover have "set (f (xs ! i)) \<subseteq> set (concat (map f (take j xs)))"
  proof -
    have "xs ! i \<in> set (take j xs)" using assms(2,3) by (auto simp: in_set_conv_nth intro!: exI [of _ i])
    then show ?thesis by auto
  qed
  ultimately show ?thesis by auto
qed

section \<open>Properties\<close>

text \<open>C16: the workers of a pool never work on the same event at the same time, whatever
  the interleaving of workers, informer and shutdown: the queue's record of the
  items being processed is exactly what the workers hold, no two workers hold
  the same item, and there are never more than the configured workers.\<close>

theorem workers_hold_distinct_events:
  assumes "workqueue_ok wq st" and "wqs_inv (st q)" and "wqs_processing (st q) = []"
    and "\<not> wqs_shutdown (st q)"
    and "(pool_step wq h n)\<^sup>*\<^sup>* (NewQueuedEventHandler q s) p"
  shows "mset (wqs_processing (st (pl_queue p))) = mset (concat (map held (pl_workers p))) \<and>
    (\<forall>i j. i < j \<longrightarrow> j < length (pl_workers p) \<longrightarrow>
      set (held (pl_workers p ! i)) \<inter> set (held (pl_workers p ! j)) = {}) \<and>
    length (pl_workers p) \<le> n"
proof -
  have inv: "pool_inv st n p"
    by (rule pool_inv_run [OF assms(1,5) pool_inv_init [of st q, OF assms(2-4)]])
  then have "distinct (concat (map held (pl_workers p)))"
    by (metis held_items_def mset_eq_imp_distinct_iff pool_inv_def)
  from distinct_concat_disjoint [OF this] show ?thesis
    using inv by (simp add: pool_inv_def held_items_def)
qed

text \<open>C17: how a pool ends.  Once \<^verbatim>\<open>Run\<close> has returned, the workers can make only a bounded
  number of further steps, and when none can make another, each has stopped or its handler
  has panicked.  What becomes of the queue depends on whether a worker was still inside
  \<^verbatim>\<open>runWorker\<close> when \<^verbatim>\<open>Run\<close> returned: if one was, and no handler panicked, every event that
  was queued has been taken; if none was (they had not begun, or sat between two
  calls), the queue keeps what it held and those events are never handled.\<close>

theorem pool_drains_after_shutdown:
  assumes ok: "workqueue_ok wq st" and "wqs_inv (st q)" and "wqs_processing (st q) = []"
    and "\<not> wqs_shutdown (st q)"
    and run: "(pool_step wq h n)\<^sup>*\<^sup>* (NewQueuedEventHandler q s) p"
    and "pl_run p = Returned" and "(worker_step wq h ^^ k) p p'"
  shows "k \<le> pool_work_left st p \<and>
    (\<not> (\<exists>p''. worker_step wq h p' p'') \<longrightarrow>
      (\<forall>w \<in> set (pl_workers p'). w = Stopped \<or> (\<exists>e. w = Panicked e)) \<and>
      ((\<exists>w \<in> set (pl_workers p). active w) \<and> set (pl_workers p') \<subseteq> {Stopped} \<longrightarrow>
        wqs_queue (st (pl_queue p')) = []) \<and>
      (\<not> (\<exists>w \<in> set (pl_workers p). active w) \<longrightarrow> pl_queue p' = pl_queue p))"
proof -
  have "pool_inv st n p"
    by (rule pool_inv_run [OF ok run pool_inv_init [of st q, OF assms(2-4)]])
  then have drain: "draining_pool wq st n p" using ok assms(6) by (simp add: draining_pool_def)
  have "wqs_queue (st (pl_queue p')) = []"
    if "\<exists>w \<in> set (pl_workers p). active w" and stopped: "set (pl_workers p') \<subseteq> {Stopped}"
  proof -
    have "calm p'" using stopped by (auto simp: calm_def)
    then have "attended st p'" using drain_attended [OF assms(7) drain] that(1) by (simp add: attended_def)
    then show ?thesis using stopped by (auto simp: attended_def)
  qed
  then show ?thesis
    using pool_drain.run_bounded [OF assms(7) drain] pool_drain.stuck_run_is_settled [OF assms(7) drain]
      drain_unattended [OF assms(7) drain]
    unfolding workers_over_def by blast
qed

section \<open>A concrete pool\<close>

definition sample_event :: "nat item" where
  "sample_event = Event \<lparr>qe_kind = kindAdd, qe_object = Some 0, qe_oldObj = None, qe_newObj = None\<rparr>"

definition sample_queue :: "nat wq_state" where
  "sample_queue =
     \<lparr>wqs_queue = [sample_event], wqs_dirty = [sample_event], wqs_processing = [], wqs_shutdown = False\<rparr>"

text \<open>One worker has taken the event; the context is cancelled and \<^verbatim>\<open>Run\<close> returns.\<close>

definition sample_pool :: "(nat, nat wq_state, nat) pool" where
  "sample_pool =
     \<lparr>pl_queue = \<lparr>wqs_queue = [], wqs_dirty = [], wqs_processing = [sample_event], wqs_shutdown = True\<rparr>,
      pl_state = 0, pl_workers = [Holding sample_event], pl_run = Returned, pl_ctxDone = True\<rparr>"

lemma sample_queue_ok:
  "wqs_inv sample_queue" "wqs_processing sample_queue = []" "\<not> wqs_shutdown sample_queue"
  by (simp_all add: sample_queue_def wqs_inv_def)

lemma sample_pool_run:
  "(pool_step documented_queue counting_handler 1)\<^sup>*\<^sup>* (NewQueuedEventHandler sample_queue 0) sample_pool"
proof -
  let ?step = "pool_step documented_queue counting_handler 1"
  define p0 :: "(nat, nat wq_state, nat) pool" where "p0 = NewQueuedEventHandler sample_queue 0"
  define p1 where "p1 = p0\<lparr>pl_workers := [Paused]\<rparr>"
  define p2 where "p2 = p1\<lparr>pl_run := AwaitingDone\<rparr>"
  define p3 where "p3 = p2\<lparr>pl_workers := [Idle]\<rparr>"
  define p4 where "p4 = p3\<lparr>pl_workers := [Holding sample_event],
    pl_queue := \<lparr>wqs_queue = [], wqs_dirty = [], wqs_processing = [sample_event], wqs_shutdown = False\<rparr>\<rparr>"
  define p5 where "p5 = p4\<lparr>pl_ctxDone := True\<rparr>"
  note defs = p0_def p1_def p2_def p3_def p4_def p5_def NewQueuedEventHandler_def
  have "?step p0 p1"
    using run_worker [of p0 1 documented_queue] by (intro pool_run) (simp add: defs)
  moreover have "?step p1 p2"
    using run_started [of p1 1 documented_queue] by (intro pool_run) (simp add: defs)
  moreover have "?step p2 p3"
    using worker_call [of 0 p2 documented_queue counting_handler] by (intro pool_work) (simp add: defs)
  moreover have "?step p3 p4"
    using worker_get [of 0 p3 documented_queue sample_event _ counting_handler]
    by (intro pool_work)
       (simp add: defs documented_queue_def wqs_get_def sample_queue_def)
  moreover have "?step p4 p5"
    using pool_cancel [of documented_queue counting_handler 1 p4] by (simp add: p5_def)
  moreover have "?step p5 sample_pool"
    using run_return [of p5 documented_queue 1]
    by (intro pool_run) (simp add: defs documented_queue_def sample_pool_def)
  ultimately show ?thesis
    unfolding p0_def [symmetric] by (meson converse_rtranclp_into_rtranclp rtranclp.rtrancl_refl)
qed

theorem workers_hold_distinct_events_witness:
  "(pool_step documented_queue counting_handler 1)\<^sup>*\<^sup>* (NewQueuedEventHandler sample_queue 0) sample_pool \<and>
   mset (wqs_processing (pl_queue sample_pool)) = {#sample_event#} \<and> length (pl_workers sample_pool) \<le> 1"
  using workers_hold_distinct_events [OF documented_queue_ok _ _ _ sample_pool_run] sample_queue_ok
    sample_pool_run
  by (simp add: sample_pool_def)

definition sample_drained :: "(nat, nat wq_state, nat) pool" where
  "sample_drained = sample_pool\<lparr>pl_workers := [Stopped], pl_state := 1,
     pl_queue := \<lparr>wqs_queue = [], wqs_dirty = [], wqs_processing = [], wqs_shutdown = True\<rparr>\<rparr>"

lemma sample_drain: "(worker_step documented_queue counting_handler ^^ 4) sample_pool sample_drained"
proof -
  let ?step = "worker_step documented_queue counting_handler"
  define p1 where "p1 = sample_pool\<lparr>pl_workers := [Finishing sample_event], pl_state := 1\<rparr>"
  define p2 where "p2 = p1\<lparr>pl_workers := [Idle],
    pl_queue := \<lparr>wqs_queue = [], wqs_dirty = [], wqs_processing = [], wqs_shutdown = True\<rparr>\<rparr>"
  define p3 where "p3 = p2\<lparr>pl_workers := [Paused]\<rparr>"
  note defs = p1_def p2_def p3_def sample_pool_def sample_drained_def documented_queue_def
  have "?step sample_pool p1"
    using worker_handle [of 0 sample_pool sample_event counting_handler 1 documented_queue]
    by (simp add: defs sample_event_def dispatchEvent_def counting_handler_def)
  moreover have "?step p1 p2"
    using worker_done [of 0 p1 sample_event documented_queue counting_handler]
    by (simp add: defs wqs_done_def)
  moreover have "?step p2 p3"
    using worker_shutdown [of 0 p2 documented_queue "pl_queue p2" counting_handler]
    by (simp add: defs wqs_get_def)
  moreover have "?step p3 sample_drained"
    using worker_stop [of 0 p3 documented_queue counting_handler] by (simp add: defs)
  ultimately show ?thesis by (auto simp: numeral_eq_Suc)
qed

theorem pool_drains_after_shutdown_witness:
  "(pool_step documented_queue counting_handler 1)\<^sup>*\<^sup>* (NewQueuedEventHandler sample_queue 0) sample_pool \<and>
   (worker_step documented_queue counting_handler ^^ 4) sample_pool sample_drained \<and>
   4 \<le> pool_work_left id sample_pool \<and> set (pl_workers sample_drained) \<subseteq> {Stopped} \<and>
   wqs_queue (pl_queue sample_drained) = []"
proof -
  have stuck: "\<not> (\<exists>p''. worker_step documented_queue counting_handler sample_drained p'')"
    by (auto simp: worker_step_simps sample_drained_def)
  have "pl_run sample_pool = Returned" and active: "\<exists>w \<in> set (pl_workers sample_pool). active w"
    by (simp_all add: sample_pool_def)
  from pool_drains_after_shutdown [OF documented_queue_ok _ _ _ sample_pool_run this(1) sample_drain]
  have "4 \<le> pool_work_left id sample_pool \<and> set (pl_workers sample_drained) \<subseteq> {Stopped} \<and>
      wqs_queue (pl_queue sample_drained) = []"
    using sample_queue_ok stuck active by (simp add: sample_drained_def)
  then show ?thesis using sample_pool_run sample_drain by blast
qed

text \<open>\<^verbatim>\<open>Run\<close> does not wait for completion, as its comment says it does: it can return
  while a worker still holds an event its handler has not seen, and that worker
  goes on to change the handler's state afterwards.\<close>

lemma Run_returns_before_the_workers:
  "\<exists>p p'. (pool_step documented_queue counting_handler 1)\<^sup>*\<^sup>* (NewQueuedEventHandler sample_queue 0) p \<and>
     pl_run p = Returned \<and> pl_workers p = [Holding sample_event] \<and>
     worker_step documented_queue counting_handler p p' \<and> pl_state p = 0 \<and> pl_state p' = 1"
proof -
  let ?p' = "sample_pool\<lparr>pl_workers := (pl_workers sample_pool)[0 := Finishing sample_event], pl_state := 1\<rparr>"
  have "worker_step documented_queue counting_handler sample_pool ?p'"
    by (rule worker_handle)
       (simp_all add: sample_pool_def sample_event_def dispatchEvent_def counting_handler_def)
  then show ?thesis
    using sample_pool_run
    by (intro exI [of _ sample_pool] exI [of _ ?p'] conjI) (simp_all add: sample_pool_def)
qed

text \<open>A context that is cancelled before the workers have begun leaves the queued events where they are.\<close>

lemma early_cancel_leaves_events:
  "\<exists>p. (pool_step documented_queue counting_handler 1)\<^sup>*\<^sup>* (NewQueuedEventHandler sample_queue 0) p \<and>
     pl_run p = Returned \<and> pl_workers p = [Stopped] \<and> wqs_queue (pl_queue p) = [sample_event]"
proof -
  let ?step = "pool_step documented_queue counting_handler 1"
  define p0 :: "(nat, nat wq_state, nat) pool" where "p0 = NewQueuedEventHandler sample_queue 0"
  define p1 where "p1 = p0\<lparr>pl_workers := [Paused]\<rparr>"
  define p2 where "p2 = p1\<lparr>pl_run := AwaitingDone\<rparr>"
  define p3 where "p3 = p2\<lparr>pl_ctxDone := True\<rparr>"
  define p4 where "p4 = p3\<lparr>pl_workers := [Stopped]\<rparr>"
  define p5 where "p5 = p4\<lparr>pl_run := Returned, pl_queue := wq_ShutDown documented_queue (pl_queue p4)\<rparr>"
  note defs = p0_def p1_def p2_def p3_def p4_def p5_def NewQueuedEventHandler_def
  have "?step p0 p1" using run_worker [of p0 1 documented_queue] by (intro pool_run) (simp add: defs)
  moreover have "?step p1 p2" using run_started [of p1 1 documented_queue] by (intro pool_run) (simp add: defs)
  moreover have "?step p2 p3" using pool_cancel [of documented_queue counting_handler 1 p2] by (simp add: p3_def)
  moreover have "?step p3 p4"
    using worker_stop [of 0 p3 documented_queue counting_handler] by (intro pool_work) (simp add: defs)
  moreover have "?step p4 p5" using run_return [of p4 documented_queue 1] by (intro pool_run) (simp add: defs)
  ultimately have "?step\<^sup>*\<^sup>* p0 p5" by (meson converse_rtranclp_into_rtranclp rtranclp.rtrancl_refl)
  then show ?thesis
    by (intro exI [of _ p5]) (simp add: defs documented_queue_def sample_queue_def)
qed

end
