(* ===== verification/Server.thy ===== *)
theory Server
  imports Config_Watcher Notify Informer_Factory Worker_Pool
begin

text \<open>
  How the parts are put together: \<^verbatim>\<open>gtc/server.go\<close> (the xDS server, its queues, its
  run), \<^verbatim>\<open>gtc/logger.go\<close> (the stream callbacks) and the set-up in
  \<^verbatim>\<open>cmd/controller/main.go\<close>.  The gRPC server, the go-control-plane stream
  server, \<^verbatim>\<open>errgroup\<close> and the Kubernetes informers are libraries: what the code
  asks of them are parameters or steps that follow their documentation.
\<close>

section \<open>The stream callbacks\<close>

record StreamRequest = DiscoveryRequest +
  sq_VersionInfo :: string
  sq_ResponseNonce :: string
  sq_ErrorDetail :: "string option"

record StreamResponse = DiscoveryResponse +
  sp_Nonce :: string

datatype log_level = DebugLevel | InfoLevel | ErrorLevel

datatype log_value = LogInt int | LogString string | LogStrings "string list" | LogError go_error

record log_entry =
  le_level :: log_level
  le_message :: string
  le_fields :: "(string \<times> log_value) list"

definition OnStreamOpen :: "int \<Rightarrow> string \<Rightarrow> log_entry list outcome" where
  "OnStreamOpen streamID typ =
     Ok [\<lparr>le_level = DebugLevel, le_message = ''New stream opened'',
          le_fields = [(''stream_id'', LogInt streamID)]\<rparr>]"

definition OnStreamClosed :: "int \<Rightarrow> Node option \<Rightarrow> log_entry list outcome" where
  "OnStreamClosed streamID n =
     and_then (deref n) (\<lambda>node.
       Ok [\<lparr>le_level = DebugLevel, le_message = ''Stream closed'',
            le_fields = [(''stream_id'', LogInt streamID), (''node_id'', LogString (nd_Id node))]\<rparr>])"

definition OnStreamRequest :: "int \<Rightarrow> StreamRequest \<Rightarrow> log_entry list outcome" where
  "OnStreamRequest streamID req =
     Ok ((case sq_ErrorDetail req of
            None \<Rightarrow> []
          | Some msg \<Rightarrow> [\<lparr>le_level = ErrorLevel, le_message = ''Client NACKed a response'',
                           le_fields = [(''err'', LogString msg), (''stream_id'', LogInt streamID)]\<rparr>]) @
         [\<lparr>le_level = DebugLevel, le_message = ''Received a new stream request'',
           le_fields = [(''resources'', LogStrings (dq_ResourceNames req)),
             (''type'', LogString (dq_TypeUrl req)), (''version'', LogString (sq_VersionInfo req)),
             (''nonce'', LogString (sq_ResponseNonce req)), (''stream_id'', LogInt streamID)]\<rparr>])"

definition OnStreamResponse :: "int \<Rightarrow> StreamRequest \<Rightarrow> StreamResponse \<Rightarrow> log_entry list outcome" where
  "OnStreamResponse streamID req resp =
     Ok [\<lparr>le_level = DebugLevel, le_message = ''Sending a new response'',
          le_fields = [(''stream_id'', LogInt streamID), (''type'', LogString (dq_TypeUrl req)),
            (''resources'', LogStrings (dq_ResourceNames req)),
            (''response_version'', LogString (ds_VersionInfo resp)),
            (''response_nonce'', LogString (sp_Nonce resp))]\<rparr>]"

section \<open>Construction\<close>

text \<open>The options of the gRPC server, durations in seconds.\<close>

record grpc_options =
  go_MaxConcurrentStreams :: nat
  go_KeepaliveTime :: nat
  go_KeepaliveTimeout :: nat
  go_KeepaliveMinTime :: nat
  go_PermitWithoutStream :: bool

definition grpcKeepaliveTime :: nat where "grpcKeepaliveTime = 30"

definition grpcKeepaliveTimeout :: nat where "grpcKeepaliveTimeout = 5"

definition grpcKeepaliveMinTime :: nat where "grpcKeepaliveMinTime = 30"

definition grpcMaxConcurrentStreams :: nat where "grpcMaxConcurrentStreams = 1000000"

text \<open>A queue in front of a change handler: the handler, the number of workers, the
  name.  Objects reach the handlers as pointers into the memory \<open>mem\<close>.\<close>

record 'p handler_queue =
  hq_handler :: "('p, watches) EventHandler"
  hq_workers :: nat
  hq_name :: string

text \<open>\<open>xs_streamCtx\<close> is the context the stream server of the library was built with; when it is done, the
  library ends every open stream.\<close>

record ('p, 'ctx) xds_server =
  xs_bindAddr :: string
  xs_options :: grpc_options
  xs_streamCtx :: 'ctx
  xs_configWatcher :: resourceResolver
  xs_watches :: watches
  xs_grpcListenerChangedQueue :: "'p handler_queue"
  xs_endpointSliceChangedQueue :: "'p handler_queue"

definition grpcListenerChangedHandler :: "xdslib \<Rightarrow> ('p \<Rightarrow> k8s_object) \<Rightarrow> ('p, watches) EventHandler" where
  "grpcListenerChangedHandler lib mem =
     \<lparr>eh_OnAdd = (\<lambda>p. grpcListenerChangedHandler_OnAdd lib (load mem p)),
      eh_OnUpdate = (\<lambda>p p'. grpcListenerChangedHandler_OnUpdate lib (load mem p) (load mem p')),
      eh_OnDelete = (\<lambda>p. grpcListenerChangedHandler_OnDelete lib (load mem p))\<rparr>"

definition endpointSliceChangedHandler ::
  "xdslib \<Rightarrow> meta_accessor \<Rightarrow> listener_cache \<Rightarrow> ('p \<Rightarrow> k8s_object) \<Rightarrow> ('p, watches) EventHandler" where
  "endpointSliceChangedHandler lib acc listenersLister mem =
     \<lparr>eh_OnAdd = (\<lambda>p. endpointSliceChangedHandler_OnAdd lib acc listenersLister (load mem p)),
      eh_OnUpdate = (\<lambda>p p'.
        endpointSliceChangedHandler_OnUpdate lib acc listenersLister (load mem p) (load mem p')),
      eh_OnDelete = (\<lambda>p. endpointSliceChangedHandler_OnDelete lib acc listenersLister (load mem p))\<rparr>"

text \<open>The informer library with event registration, and the Kubernetes informer
  factory, of which the server uses the endpoint slices.\<close>

record ('c, 'o, 'i, 'r, 'w, 'p) server_lib =
  sl_informers :: "('c, 'o, 'i, 'r, 'w, listener_cache) informer_lib"
  sl_AddEventHandler :: "'i \<Rightarrow> 'p handler_queue \<Rightarrow> 'w \<Rightarrow> go_error + 'w"

record ('k, 'p, 'ch) kube_lib =
  kl_EndpointSlicesLister :: "'k \<Rightarrow> slice_lister \<times> 'k"
  kl_AddEventHandler :: "'p handler_queue \<Rightarrow> 'k \<Rightarrow> go_error + 'k"
  kl_Start :: "'ch \<Rightarrow> 'k \<Rightarrow> 'k"

abbreviation listeners_accessor :: "('c, 'o, 'i) sharedInformerFactory \<Rightarrow> 'o gRPCListenerInformer" where
  "listeners_accessor f \<equiv> version_GRPCListeners (group_V1alpha1 (factory_Api f))"

definition NewXDSServer ::
  "xdslib \<Rightarrow> meta_accessor \<Rightarrow> ('p \<Rightarrow> k8s_object) \<Rightarrow> ('c, 'o, 'i, 'r, 'w, 'p) server_lib \<Rightarrow>
     ('k, 'p, 'ch) kube_lib \<Rightarrow> 'ctx \<Rightarrow> string \<Rightarrow> ('c, 'o, 'i) sharedInformerFactory \<Rightarrow> 'w \<Rightarrow> 'k \<Rightarrow>
     ('p, 'ctx) xds_server outcome \<times> ('c, 'o, 'i) sharedInformerFactory \<times> 'w \<times> 'k" where
  "NewXDSServer lib acc mem sl kl ctx bindAddr f w k =
     (let options = \<lparr>go_MaxConcurrentStreams = grpcMaxConcurrentStreams,
            go_KeepaliveTime = grpcKeepaliveTime, go_KeepaliveTimeout = grpcKeepaliveTimeout,
            go_KeepaliveMinTime = grpcKeepaliveMinTime, go_PermitWithoutStream = True\<rparr>;
          watches = newWatches;
          (endpointSlicesLister, k) = kl_EndpointSlicesLister kl k;
          (grpcListenersLister, f, w) = listener_Lister (sl_informers sl) (listeners_accessor f) f w;
          configWatcher = newConfigWatcher lib endpointSlicesLister grpcListenersLister;
          listenerQueue = \<lparr>hq_handler = grpcListenerChangedHandler lib mem, hq_workers = 10,
            hq_name = ''grpc-listeners-changes''\<rparr>;
          (listenersLister, f, w) = listener_Lister (sl_informers sl) (listeners_accessor f) f w;
          sliceQueue = \<lparr>hq_handler = endpointSliceChangedHandler lib acc listenersLister mem,
            hq_workers = 10, hq_name = ''endpointslices-changes''\<rparr>;
          (informer, f, w) = listener_Informer (sl_informers sl) (listeners_accessor f) f w
      in case sl_AddEventHandler sl informer listenerQueue w of
           Inl err \<Rightarrow> (Err err, f, w, k)
         | Inr w \<Rightarrow>
             (case kl_AddEventHandler kl sliceQueue k of
                Inl err \<Rightarrow> (Err err, f, w, k)
              | Inr k \<Rightarrow>
                  (Ok \<lparr>xs_bindAddr = bindAddr, xs_options = options, xs_streamCtx = ctx,
                       xs_configWatcher = configWatcher, xs_watches = watches, xs_grpcListenerChangedQueue = listenerQueue,
                       xs_endpointSliceChangedQueue = sliceQueue\<rparr>, f, w, k)))"

text \<open>The stream service: state-of-the-world streams go to the library's handler with
  any type URL, delta streams are refused.\<close>

definition StreamAggregatedResources ::
  "string \<Rightarrow> ('s \<Rightarrow> string \<Rightarrow> 's outcome) \<Rightarrow> 's \<Rightarrow> 's outcome" where
  "StreamAggregatedResources AnyType StreamHandler stream = StreamHandler stream AnyType"

definition DeltaAggregatedResources :: "'s \<Rightarrow> unit outcome" where
  "DeltaAggregatedResources stream = Err (ErrorsNew ''unsupported'')"

text \<open>The set-up of the controller, up to the started informers: the server is built,
  which requests the informers, and only then the two factories are started.  The stream
  server gets the context of the signals, \<open>ctx\<close>; the informers run until the context of the
  error group, \<open>ctxDone\<close>, is done.\<close>

definition controller_setup ::
  "xdslib \<Rightarrow> meta_accessor \<Rightarrow> ('p \<Rightarrow> k8s_object) \<Rightarrow> ('c, 'o, 'i, 'r, 'w, 'p) server_lib \<Rightarrow>
     ('k, 'p, 'ch) kube_lib \<Rightarrow> 'ctx \<Rightarrow> string \<Rightarrow> 'c \<Rightarrow> 'ch \<Rightarrow> rtype list \<Rightarrow> 'w \<Rightarrow> 'k \<Rightarrow>
     (('p, 'ctx) xds_server \<times> ('c, 'o, 'i) sharedInformerFactory \<times> (rtype \<times> 'i \<times> 'ch) list \<times> 'k) outcome" where
  "controller_setup lib acc mem sl kl ctx xdsAddr gtcClient ctxDone order w k =
     (let gtcInformerFactory = NewSharedInformerFactory gtcClient 3600;
          (server, f, w, k) = NewXDSServer lib acc mem sl kl ctx xdsAddr gtcInformerFactory w k
      in and_then server (\<lambda>srv.
           let (f, goroutines) = Start ctxDone order f; k = kl_Start kl ctxDone k
           in Ok (srv, f, goroutines, k)))"

section \<open>The health endpoints\<close>

definition web_handler :: "string \<Rightarrow> nat \<times> string" where
  "web_handler path =
     (if path = ''/healthz'' then (200, ''ok'')
      else if path = ''/readyz'' then (200, ''ok'')
      else (404, ''404 page not found'' @ [CHR 0x0A]))"

section \<open>The run of the server\<close>

text \<open>
  \<^verbatim>\<open>XDSServer.Run\<close>: an error group of the two queues and the gRPC server, and the
  goroutine that stops the server when the group's context is done.  The group's
  context is done when the caller's is or when a member has failed; the group
  keeps the first error.  \<^verbatim>\<open>GracefulStop\<close> ends once no stream is open, \<^verbatim>\<open>Serve\<close> returns
  nil after it, and \<^verbatim>\<open>Serve\<close> on a server already stopped fails.  The server ends a stream
  only when the context given to \<^verbatim>\<open>NewXDSServer\<close> is done, \<open>sr_streamCtxDone\<close>, which need not be
  the one \<^verbatim>\<open>Run\<close> was called with.
\<close>

datatype serve_phase = Binding | Bound | Serving | ServeReturned

datatype stopper_phase = NotStarted | StopperWaiting | Stopping | ServerStopped

record server_run =
  sr_ctxDone :: bool
  sr_streamCtxDone :: bool
  sr_groupErr :: "go_error option"
  sr_listenerQueue :: run_phase
  sr_sliceQueue :: run_phase
  sr_serve :: serve_phase
  sr_stopper :: stopper_phase
  sr_streams :: nat
  sr_result :: "go_error option option"

definition group_done :: "server_run \<Rightarrow> bool" where
  "group_done s \<longleftrightarrow> sr_ctxDone s \<or> sr_groupErr s \<noteq> None"

definition first_error :: "go_error option \<Rightarrow> go_error \<Rightarrow> go_error option" where
  "first_error old err = (case old of None \<Rightarrow> Some err | Some e \<Rightarrow> Some e)"

definition server_init :: server_run where
  "server_init = \<lparr>sr_ctxDone = False, sr_streamCtxDone = False, sr_groupErr = None, sr_listenerQueue = Starting,
     sr_sliceQueue = Starting, sr_serve = Binding, sr_stopper = NotStarted, sr_streams = 0,
     sr_result = None\<rparr>"

text \<open>The phases of a queue's \<^verbatim>\<open>Run\<close>.\<close>

inductive queue_phase_step :: "bool \<Rightarrow> run_phase \<Rightarrow> run_phase \<Rightarrow> bool" for ctxDone where
  "queue_phase_step ctxDone Starting AwaitingDone"
| "ctxDone \<Longrightarrow> queue_phase_step ctxDone AwaitingDone Returned"

inductive server_step :: "server_run \<Rightarrow> server_run \<Rightarrow> bool" where
  listener_queue:
    "queue_phase_step (group_done s) (sr_listenerQueue s) ph \<Longrightarrow>
     server_step s (s\<lparr>sr_listenerQueue := ph\<rparr>)"
| slice_queue:
    "queue_phase_step (group_done s) (sr_sliceQueue s) ph \<Longrightarrow>
     server_step s (s\<lparr>sr_sliceQueue := ph\<rparr>)"
| bind_failed:
    "sr_serve s = Binding \<Longrightarrow>
     server_step s (s\<lparr>sr_serve := ServeReturned,
       sr_groupErr := first_error (sr_groupErr s) (ErrorsNew ''unable to bind'')\<rparr>)"
| bind:
    "sr_serve s = Binding \<Longrightarrow>
     server_step s (s\<lparr>sr_serve := Bound, sr_stopper := StopperWaiting\<rparr>)"
| serve:
    "sr_serve s = Bound \<Longrightarrow> sr_stopper s = StopperWaiting \<Longrightarrow>
     server_step s (s\<lparr>sr_serve := Serving\<rparr>)"
| serve_refused:
    "sr_serve s = Bound \<Longrightarrow> sr_stopper s \<noteq> StopperWaiting \<Longrightarrow>
     server_step s (s\<lparr>sr_serve := ServeReturned,
       sr_groupErr := first_error (sr_groupErr s) (LibraryError ''grpc: the server has been stopped'')\<rparr>)"
| serve_stopped:
    "sr_serve s = Serving \<Longrightarrow> sr_stopper s = ServerStopped \<Longrightarrow>
     server_step s (s\<lparr>sr_serve := ServeReturned\<rparr>)"
| graceful_stop:
    "sr_stopper s = StopperWaiting \<Longrightarrow> group_done s \<Longrightarrow>
     server_step s (s\<lparr>sr_stopper := Stopping\<rparr>)"
| stop_ends:
    "sr_stopper s = Stopping \<Longrightarrow> sr_streams s = 0 \<Longrightarrow>
     server_step s (s\<lparr>sr_stopper := ServerStopped\<rparr>)"
| stream_ends:
    "sr_streams s = Suc n \<Longrightarrow> sr_streamCtxDone s \<Longrightarrow> server_step s (s\<lparr>sr_streams := n\<rparr>)"
| wait_returns:
    "sr_listenerQueue s = Returned \<Longrightarrow> sr_sliceQueue s = Returned \<Longrightarrow> sr_serve s = ServeReturned \<Longrightarrow>
     sr_result s = None \<Longrightarrow>
     server_step s (s\<lparr>sr_result := Some (sr_groupErr s)\<rparr>)"

text \<open>
  What happens around it: a client opens a stream or leaves it, one of the two contexts is cancelled, or
  the listener fails while it serves. A failure of the listener is no step of the server, so that a run cannot owe its end to one.
\<close>

inductive server_env :: "server_run \<Rightarrow> server_run \<Rightarrow> bool" where
  open_stream:
    "sr_serve s = Serving \<Longrightarrow> sr_stopper s = StopperWaiting \<Longrightarrow>
     server_env s (s\<lparr>sr_streams := Suc (sr_streams s)\<rparr>)"
| close_stream: "sr_streams s = Suc n \<Longrightarrow> server_env s (s\<lparr>sr_streams := n\<rparr>)"
| cancel_ctx: "server_env s (s\<lparr>sr_ctxDone := True\<rparr>)"
| cancel_streams: "server_env s (s\<lparr>sr_streamCtxDone := True\<rparr>)"
| serve_failed:
    "sr_serve s = Serving \<Longrightarrow> sr_stopper s = StopperWaiting \<Longrightarrow>
     server_env s (s\<lparr>sr_serve := ServeReturned,
       sr_groupErr := first_error (sr_groupErr s) (LibraryError err)\<rparr>)"

definition server_reaches :: "server_run \<Rightarrow> server_run \<Rightarrow> bool" where
  "server_reaches = (\<lambda>s s'. server_step s s' \<or> server_env s s')\<^sup>*\<^sup>*"

section \<open>Lemmas on the run\<close>

definition server_inv :: "server_run \<Rightarrow> bool" where
  "server_inv s \<longleftrightarrow>
     (sr_listenerQueue s = Returned \<or> sr_sliceQueue s = Returned \<longrightarrow> group_done s) \<and>
     (sr_stopper s \<in> {Stopping, ServerStopped} \<longrightarrow> group_done s) \<and>
     (sr_stopper s = ServerStopped \<longrightarrow> sr_streams s = 0) \<and>
     (sr_serve s \<in> {Bound, Serving} \<longrightarrow> sr_stopper s \<noteq> NotStarted) \<and>
     (sr_serve s = Binding \<longrightarrow> sr_stopper s = NotStarted) \<and>
     (sr_serve s = ServeReturned \<and> sr_groupErr s = None \<longrightarrow> sr_stopper s = ServerStopped) \<and>
     (\<forall>r. sr_result s = Some r \<longrightarrow> sr_listenerQueue s = Returned \<and> sr_sliceQueue s = Returned \<and>
        sr_serve s = ServeReturned \<and> r = sr_groupErr s)"

lemma server_inv_init: "server_inv server_init"
  by (simp add: server_inv_def server_init_def)

lemma first_error_not_None [simp]: "first_error old err \<noteq> None"
  by (simp add: first_error_def split: option.splits)

lemma server_inv_step:
  assumes "server_inv s" and "server_step s s'"
  shows "server_inv s'"
  using assms(2)
proof cases
  case (listener_queue ph)
  have "sr_listenerQueue s \<noteq> Returned \<and> (ph = Returned \<longrightarrow> group_done s)"
    using listener_queue(2) by cases auto
  then show ?thesis
    using assms(1) listener_queue(1) by (auto simp: server_inv_def group_done_def)
next
  case (slice_queue ph)
  have "sr_sliceQueue s \<noteq> Returned \<and> (ph = Returned \<longrightarrow> group_done s)"
    using slice_queue(2) by cases auto
  then show ?thesis
    using assms(1) slice_queue(1) by (auto simp: server_inv_def group_done_def)
qed (use assms(1) in \<open>auto simp: server_inv_def group_done_def\<close>)

lemma server_inv_env: "server_inv s \<Longrightarrow> server_env s s' \<Longrightarrow> server_inv s'"
  by (elim server_env.cases) (auto simp: server_inv_def group_done_def)

lemma server_inv_reaches: "server_reaches server_init s \<Longrightarrow> server_inv s"
  unfolding server_reaches_def
  by (induction rule: rtranclp_induct) (auto intro: server_inv_init server_inv_step server_inv_env)

text \<open>The work a run has left.\<close>

primrec phase_work :: "run_phase \<Rightarrow> nat" where
  "phase_work Starting = 2"
| "phase_work AwaitingDone = 1"
| "phase_work Returned = 0"

primrec serve_work :: "serve_phase \<Rightarrow> nat" where
  "serve_work Binding = 6"
| "serve_work Bound = 2"
| "serve_work Serving = 1"
| "serve_work ServeReturned = 0"

primrec stopper_work :: "stopper_phase \<Rightarrow> nat" where
  "stopper_work NotStarted = 0"
| "stopper_work StopperWaiting = 2"
| "stopper_work Stopping = 1"
| "stopper_work ServerStopped = 0"

definition server_work :: "server_run \<Rightarrow> nat" where
  "server_work s = phase_work (sr_listenerQueue s) + phase_work (sr_sliceQueue s) +
     serve_work (sr_serve s) + stopper_work (sr_stopper s) + sr_streams s +
     (if sr_result s = None then 1 else 0)"

lemma phase_work_step: "queue_phase_step b ph ph' \<Longrightarrow> phase_work ph' < phase_work ph"
  by (elim queue_phase_step.cases) auto

lemma server_work_step:
  assumes "server_step s s'" and "server_inv s"
  shows "server_work s' < server_work s"
  using assms(1)
proof cases
  case (listener_queue ph)
  then show ?thesis using phase_work_step by (fastforce simp: server_work_def)
next
  case (slice_queue ph)
  then show ?thesis using phase_work_step by (fastforce simp: server_work_def)
qed (use assms(2) in \<open>auto simp: server_work_def server_inv_def\<close>)

lemma group_done_step: "server_step s s' \<Longrightarrow> group_done s \<Longrightarrow> group_done s'"
  by (elim server_step.cases) (auto simp: group_done_def)

lemma queue_phase_not_stuck: "ph \<noteq> Returned \<Longrightarrow> \<exists>ph'. queue_phase_step True ph ph'"
  by (cases ph) (auto intro: queue_phase_step.intros)

text \<open>A server that waits for its clients: it is told to stop, and a stream is open that nothing ends.\<close>

definition awaits_clients :: "server_run \<Rightarrow> bool" where
  "awaits_clients s \<longleftrightarrow>
     sr_serve s = Serving \<and> sr_stopper s = Stopping \<and> 0 < sr_streams s \<and> \<not> sr_streamCtxDone s"

lemma server_not_stuck:
  assumes inv: "server_inv s" and gd: "group_done s" and "sr_result s = None" and "\<not> awaits_clients s"
  shows "\<exists>s'. server_step s s'"
proof (cases "sr_listenerQueue s = Returned \<and> sr_sliceQueue s = Returned")
  case False
  then show ?thesis
    using queue_phase_not_stuck [of "sr_listenerQueue s"] queue_phase_not_stuck [of "sr_sliceQueue s"]
      listener_queue [of s] slice_queue [of s] gd by auto
next
  case queues: True
  show ?thesis
  proof (cases "sr_serve s")
    case Binding
    then show ?thesis using bind by blast
  next
    case Bound
    then show ?thesis using serve serve_refused by blast
  next
    case Serving
    then show ?thesis
      using inv gd assms(4) graceful_stop [of s] stop_ends [of s] stream_ends [of s] serve_stopped [of s]
      by (cases "sr_stopper s"; cases "sr_streams s") (auto simp: server_inv_def awaits_clients_def)
  next
    case ServeReturned
    then show ?thesis using wait_returns queues assms(3) by blast
  qed
qed

interpretation server_end: bounded_settling server_step "\<lambda>s. server_inv s \<and> group_done s" server_work
    "\<lambda>s. sr_result s \<noteq> None \<or> awaits_clients s"
  by unfold_locales (use server_inv_step group_done_step server_work_step server_not_stuck in blast)+

lemma server_step_streamCtx: "server_step s s' \<Longrightarrow> sr_streamCtxDone s' = sr_streamCtxDone s"
  by (induction rule: server_step.induct) simp_all

lemma server_run_streamCtx: "(server_step ^^ k) s s' \<Longrightarrow> sr_streamCtxDone s' = sr_streamCtxDone s"
  by (induction k arbitrary: s') (auto dest: server_step_streamCtx)

lemma awaiting_has_no_result: "server_inv s \<Longrightarrow> awaits_clients s \<Longrightarrow> sr_result s = None"
  by (cases "sr_result s") (auto simp: server_inv_def awaits_clients_def)

section \<open>Properties\<close>

text \<open>What \<^verbatim>\<open>Run\<close> returns.  When the run of the server has returned, both queues have
  been shut down and the gRPC server has left \<^verbatim>\<open>Serve\<close>; it returns no error only
  after the caller's context was cancelled and the server was stopped
  gracefully with no stream left open.\<close>

lemma server_Run_result:
  assumes "server_reaches server_init s" and "sr_result s = Some r"
  shows "sr_listenerQueue s = Returned \<and> sr_sliceQueue s = Returned \<and> sr_serve s = ServeReturned \<and>
    group_done s \<and>
    (r = None \<longrightarrow> sr_ctxDone s \<and> sr_stopper s = ServerStopped \<and> sr_streams s = 0)"
  using server_inv_reaches [OF assms(1)] assms(2) by (auto simp: server_inv_def group_done_def)

text \<open>C22: how \<^verbatim>\<open>Run\<close> ends.  Once the group's context is done (the caller cancelled, or the
  server could not bind or failed), the steps of the server are bounded in number.
  When none is left \<^verbatim>\<open>Run\<close> has returned, except in one case: it was serving, a client
  still has a stream open, and the context given to \<^verbatim>\<open>NewXDSServer\<close> is not done; then it
  waits in \<^verbatim>\<open>GracefulStop\<close>.  So \<^verbatim>\<open>Run\<close> returns whenever that context is done too.\<close>

theorem server_Run_returns:
  assumes "server_reaches server_init s" and "group_done s" and "(server_step ^^ k) s s'"
  shows "k \<le> server_work s \<and>
    (\<not> (\<exists>s''. server_step s' s'') \<longrightarrow>
      (sr_result s' = None \<longleftrightarrow>
        sr_serve s' = Serving \<and> sr_stopper s' = Stopping \<and> 0 < sr_streams s' \<and> \<not> sr_streamCtxDone s'))
    \<and> sr_streamCtxDone s' = sr_streamCtxDone s"
proof -
  have ok: "server_inv s \<and> group_done s" using server_inv_reaches [OF assms(1)] assms(2) by simp
  then have "server_inv s'" using server_end.run_works [OF assms(3)] by simp
  from awaiting_has_no_result [OF this] show ?thesis
    using server_end.run_bounded [OF assms(3) ok] server_end.stuck_run_is_settled [OF assms(3) ok]
      server_run_streamCtx [OF assms(3)]
    unfolding awaits_clients_def by blast
qed

text \<open>C15: the parts of the running controller read one cache.  After the set-up, for any
  order in which the factory ranges over its informers, exactly one informer is
  known and exactly one goroutine runs it, under the controller's context; the
  resolvers and the endpoint slice handler both read that informer's cache, and
  the queue of listener changes is registered with that informer.  The queue of slice
  changes is registered with the Kubernetes informers before these are started.\<close>

theorem controller_reads_one_informer:
  fixes f :: "('c, 'o, 'i) sharedInformerFactory"
  assumes "controller_setup lib acc mem sl kl ctx xdsAddr gtcClient ctxDone order w k = Ok (srv, f, goroutines, k')"
    and "range_order f order"
  shows "\<exists>informer slices w0 w1 k0 k1.
    sif_informers f = [listenerType \<mapsto> informer] \<and>
    goroutines = [(listenerType, informer, ctxDone)] \<and>
    xs_configWatcher srv = newConfigWatcher lib slices (il_GetIndexer (sl_informers sl) informer) \<and>
    hq_handler (xs_endpointSliceChangedQueue srv) =
      endpointSliceChangedHandler lib acc (il_GetIndexer (sl_informers sl) informer) mem \<and>
    sl_AddEventHandler sl informer (xs_grpcListenerChangedQueue srv) w0 = Inr w1 \<and>
    kl_AddEventHandler kl (xs_endpointSliceChangedQueue srv) k0 = Inr k1 \<and> k' = kl_Start kl ctxDone k1"
proof -
  define f0 :: "('c, 'o, 'i) sharedInformerFactory" where "f0 = NewSharedInformerFactory gtcClient 3600"
  obtain informer f1 w1 where new:
    "listener_Informer (sl_informers sl) (listeners_accessor f0) f0 w = (informer, f1, w1)"
    by (metis prod_cases3)
  have empty: "sif_informers f0 = Map.empty" "sif_startedInformers f0 = Map.empty" "\<not> sif_shuttingDown f0"
    by (simp_all add: f0_def NewSharedInformerFactory_def NewSharedInformerFactoryWithOptions_def)
  then have f1: "f1 = f0\<lparr>sif_informers := [listenerType \<mapsto> informer]\<rparr>"
    using new by (auto simp: listener_Informer_def InformerFor_def Let_def split: prod.splits)
  have again: "listener_Informer (sl_informers sl) gi f1 w1 = (informer, f1, w1)" for gi
    by (simp add: listener_Informer_def InformerFor_def f1)
  obtain slices k1 where k1: "kl_EndpointSlicesLister kl k = (slices, k1)" by fastforce
  let ?ix = "il_GetIndexer (sl_informers sl) informer"
  have built: "xs_configWatcher srv = newConfigWatcher lib slices ?ix \<and>
      hq_handler (xs_endpointSliceChangedQueue srv) = endpointSliceChangedHandler lib acc ?ix mem \<and>
      (\<exists>w2. sl_AddEventHandler sl informer (xs_grpcListenerChangedQueue srv) w1 = Inr w2) \<and>
      (\<exists>k2. kl_AddEventHandler kl (xs_endpointSliceChangedQueue srv) k1 = Inr k2 \<and> k' = kl_Start kl ctxDone k2) \<and>
      Start ctxDone order f1 = (f, goroutines)"
    using assms(1)
    by (auto simp: controller_setup_def NewXDSServer_def listener_Lister_def k1 new again
        f0_def [symmetric] Let_def split: sum.splits prod.splits)
  then have start: "Start ctxDone order f1 = (f, goroutines)" by blast
  have inf: "sif_informers f = [listenerType \<mapsto> informer]"
    using Start_spec [OF _ start] assms(2) f1 by (simp add: range_order_def)
  have "order = [listenerType]"
    using assms(2) unfolding range_order_def inf by (cases order; cases "tl order") auto
  then have "goroutines = [(listenerType, informer, ctxDone)]"
    using start empty f1 by (simp add: Start_def started_def split: prod.splits)
  then show ?thesis using built inf by blast
qed

text \<open>A cancellation during the start can be reported as a failure: when the caller
  cancels between the bind and the call of \<^verbatim>\<open>Serve\<close>, the server is stopped first and
  \<^verbatim>\<open>Run\<close> returns the error of a stopped server, although nothing failed.\<close>

lemma early_cancel_is_an_error:
  "\<exists>s. server_reaches server_init s \<and> sr_ctxDone s \<and>
     sr_result s = Some (Some (LibraryError ''grpc: the server has been stopped''))"
proof -
  let ?step = "\<lambda>s s'. server_step s s' \<or> server_env s s'"
  let ?err = "LibraryError ''grpc: the server has been stopped''"
  define s1 where "s1 = server_init\<lparr>sr_serve := Bound, sr_stopper := StopperWaiting\<rparr>"
  define s2 where "s2 = s1\<lparr>sr_ctxDone := True\<rparr>"
  define s3 where "s3 = s2\<lparr>sr_stopper := Stopping\<rparr>"
  define s4 where "s4 = s3\<lparr>sr_serve := ServeReturned, sr_groupErr := first_error (sr_groupErr s3) ?err\<rparr>"
  define s5 where "s5 = s4\<lparr>sr_listenerQueue := AwaitingDone\<rparr>"
  define s6 where "s6 = s5\<lparr>sr_listenerQueue := Returned\<rparr>"
  define s7 where "s7 = s6\<lparr>sr_sliceQueue := AwaitingDone\<rparr>"
  define s8 where "s8 = s7\<lparr>sr_sliceQueue := Returned\<rparr>"
  define s9 where "s9 = s8\<lparr>sr_result := Some (sr_groupErr s8)\<rparr>"
  note defs = server_init_def s1_def s2_def s3_def s4_def s5_def s6_def s7_def s8_def s9_def
  note go = rtranclp.rtrancl_into_rtrancl [where r = ?step]
  have "?step\<^sup>*\<^sup>* server_init s1" using bind [of server_init] by (auto simp: defs)
  then have "?step\<^sup>*\<^sup>* server_init s2" by (rule go) (simp add: cancel_ctx s2_def)
  then have "?step\<^sup>*\<^sup>* server_init s3"
    by (rule go) (use graceful_stop [of s2] in \<open>simp add: defs group_done_def\<close>)
  then have "?step\<^sup>*\<^sup>* server_init s4" by (rule go) (use serve_refused [of s3] in \<open>simp add: defs\<close>)
  then have "?step\<^sup>*\<^sup>* server_init s5"
    by (rule go) (use listener_queue [of s4 AwaitingDone] queue_phase_step.intros in \<open>simp add: defs\<close>)
  then have "?step\<^sup>*\<^sup>* server_init s6"
    by (rule go) (use listener_queue [of s5 Returned] queue_phase_step.intros in
        \<open>simp add: defs group_done_def\<close>)
  then have "?step\<^sup>*\<^sup>* server_init s7"
    by (rule go) (use slice_queue [of s6 AwaitingDone] queue_phase_step.intros in \<open>simp add: defs\<close>)
  then have "?step\<^sup>*\<^sup>* server_init s8"
    by (rule go) (use slice_queue [of s7 Returned] queue_phase_step.intros in
        \<open>simp add: defs group_done_def\<close>)
  then have "?step\<^sup>*\<^sup>* server_init s9" by (rule go) (use wait_returns [of s8] in \<open>simp add: defs\<close>)
  moreover have "sr_ctxDone s9" "sr_result s9 = Some (Some ?err)"
    by (simp_all add: defs first_error_def)
  ultimately show ?thesis unfolding server_reaches_def by blast
qed

section \<open>Concrete runs\<close>

theorem server_Run_returns_witness:
  "\<exists>s s' k. server_reaches server_init s \<and> group_done s \<and> (server_step ^^ k) s s' \<and> k \<le> server_work s \<and>
     (\<exists>r. sr_result s' = Some r)"
proof -
  let ?s = "server_init\<lparr>sr_ctxDone := True, sr_streamCtxDone := True\<rparr>"
  have "server_env server_init (server_init\<lparr>sr_ctxDone := True\<rparr>)"
    and "server_env (server_init\<lparr>sr_ctxDone := True\<rparr>) ?s"
    using cancel_streams [of "server_init\<lparr>sr_ctxDone := True\<rparr>"] by (simp_all add: cancel_ctx)
  then have reach: "server_reaches server_init ?s"
    unfolding server_reaches_def by (auto intro: converse_rtranclp_into_rtranclp)
  have gd: "group_done ?s" by (simp add: group_done_def)
  have "server_inv ?s \<and> group_done ?s" using server_inv_reaches [OF reach] gd by simp
  from server_end.comes_to_rest [OF this] obtain s' k where
    run: "(server_step ^^ k) ?s s'" and stuck: "\<not> (\<exists>s''. server_step s' s'')"
    by (auto dest: rtranclp_imp_relpowp)
  from server_Run_returns [OF reach gd run] stuck have "k \<le> server_work ?s" and "sr_result s' \<noteq> None" by auto
  then show ?thesis using reach gd run by blast
qed

text \<open>An informer library that numbers its informers, and listers over empty caches.\<close>

definition sample_server_lib :: "(unit, unit, nat, unit, nat, nat) server_lib" where
  "sample_server_lib =
     \<lparr>sl_informers = \<lparr>il_NewSharedIndexInformer = (\<lambda>config n. (n, Suc n)), il_List = (\<lambda>c ns o'. ()),
        il_Watch = (\<lambda>c ns o'. ()), il_GetIndexer = (\<lambda>i. cache_of [])\<rparr>,
      sl_AddEventHandler = (\<lambda>i hq w. Inr w)\<rparr>"

definition sample_kube_lib :: "(unit, nat, string) kube_lib" where
  "sample_kube_lib =
     \<lparr>kl_EndpointSlicesLister = (\<lambda>k. (\<lambda>ns sel. Inr [], k)), kl_AddEventHandler = (\<lambda>hq k. Inr k),
      kl_Start = (\<lambda>ch k. k)\<rparr>"

lemmas sample_setup_defs = controller_setup_def NewXDSServer_def listener_Lister_def
  listener_Informer_def InformerFor_def defaultInformer_def NewFilteredGRPCListenerInformer_def
  NewSharedInformerFactory_def NewSharedInformerFactoryWithOptions_def sample_server_lib_def
  sample_kube_lib_def Start_def started_def

theorem controller_reads_one_informer_witness:
  "\<exists>srv f. controller_setup sample_lib sample_accessor (\<lambda>p. NilObj) sample_server_lib sample_kube_lib
      ''signals'' '':18000'' () ''ctx'' [listenerType] 0 () = Ok (srv, f, [(listenerType, 0, ''ctx'')], ()) \<and>
     sif_informers f = [listenerType \<mapsto> 0]"
proof -
  obtain srv f gs where run: "controller_setup sample_lib sample_accessor (\<lambda>p. NilObj) sample_server_lib
      sample_kube_lib ''signals'' '':18000'' () ''ctx'' [listenerType] 0 () = Ok (srv, f, gs, ())"
    and "sif_informers f = [listenerType \<mapsto> 0]"
    by (simp add: sample_setup_defs)
  moreover from this have "range_order f [listenerType]" by (simp add: range_order_def)
  from controller_reads_one_informer [OF run this] calculation(2)
  have "gs = [(listenerType, 0, ''ctx'')]" by (auto dest: fun_cong [of _ _ listenerType])
  ultimately show ?thesis by blast
qed

end
