(* ===== verification/Watch_Interleaving.thy ===== *)
theory Watch_Interleaving
  imports Watchers
begin

text \<open>
  The goroutines that share the registry of \<^verbatim>\<open>gtc/watcher.go\<close>, interleaved at the
  granularity of its locks.  A thread owns a watcher, which it subscribes and
  finally releases, or delivers notifications; between two steps of a thread any
  other thread may run.  Each step is one critical section of
  \<^theory_text>\<open>Watchers\<close>, or an access to what only the owner writes
  (\<^verbatim>\<open>watchedResources\<close>, closing \<^verbatim>\<open>done\<close>).
\<close>

section \<open>Threads\<close>

text \<open>Where a thread stands: between calls; in \<^verbatim>\<open>watch\<close>, after the lookup missed, with the
  \<^verbatim>\<open>resourceWatchers\<close> in hand, after the check under the read lock, after the
  insertion; in the cleanup, with the resources left; in \<^verbatim>\<open>notifyChanged\<close>.\<close>

datatype pc =
    Ready watcher_ptr
  | Watch_create watcher_ptr resourceRef
  | Watch_check watcher_ptr resourceRef rw_ptr
  | Watch_insert watcher_ptr resourceRef rw_ptr
  | Watch_record watcher_ptr resourceRef
  | Stop_loop watcher_ptr "resourceRef list"
  | Stop_check watcher_ptr resourceRef rw_ptr "resourceRef list"
  | Stop_delete watcher_ptr resourceRef rw_ptr "resourceRef list"
  | Close watcher_ptr
  | Released watcher_ptr
  | Notifier
  | Notify_send rw_ptr resourceRef

inductive thread_step :: "watches \<Rightarrow> pc \<Rightarrow> watches \<Rightarrow> pc \<Rightarrow> bool" where
  watch_found: "getResourceWatchers ref w = Some rw \<Longrightarrow>
    thread_step w (Ready wa) w (Watch_check wa ref rw)"
| watch_missed: "getResourceWatchers ref w = None \<Longrightarrow>
    thread_step w (Ready wa) w (Watch_create wa ref)"
| watch_create: "createResourceWatchers ref w = (rw, w') \<Longrightarrow>
    thread_step w (Watch_create wa ref) w' (Watch_check wa ref rw)"
| watch_present: "rw_contains rw wa w \<Longrightarrow>
    thread_step w (Watch_check wa ref rw) w (Watch_record wa ref)"
| watch_absent: "\<not> rw_contains rw wa w \<Longrightarrow>
    thread_step w (Watch_check wa ref rw) w (Watch_insert wa ref rw)"
| watch_insert:
    "thread_step w (Watch_insert wa ref rw) (rw_insert rw wa w) (Watch_record wa ref)"
| watch_record:
    "thread_step w (Watch_record wa ref) (watched_insert wa ref w) (Ready wa)"
| release: "distinct order \<Longrightarrow> set order = watched w wa \<Longrightarrow>
    thread_step w (Ready wa) w (Stop_loop wa order)"
| stop_found: "getResourceWatchers ref w = Some rw \<Longrightarrow>
    thread_step w (Stop_loop wa (ref # refs)) w (Stop_check wa ref rw refs)"
| stop_missed: "getResourceWatchers ref w = None \<Longrightarrow>
    thread_step w (Stop_loop wa (ref # refs)) w (Stop_loop wa refs)"
| stop_present: "rw_contains rw wa w \<Longrightarrow>
    thread_step w (Stop_check wa ref rw refs) w (Stop_delete wa ref rw refs)"
| stop_absent: "\<not> rw_contains rw wa w \<Longrightarrow>
    thread_step w (Stop_check wa ref rw refs) w (Stop_loop wa refs)"
| stop_delete:
    "thread_step w (Stop_delete wa ref rw refs) (rw_delete rw wa w) (Stop_loop wa refs)"
| stop_done: "thread_step w (Stop_loop wa []) w (Close wa)"
| close: "close_done wa w = Ok w' \<Longrightarrow> thread_step w (Close wa) w' (Released wa)"
| notify_found: "getResourceWatchers ref w = Some rw \<Longrightarrow>
    thread_step w Notifier w (Notify_send rw ref)"
| notify_missed: "getResourceWatchers ref w = None \<Longrightarrow> thread_step w Notifier w Notifier"
| notify_send:
    "thread_step w (Notify_send rw ref) (resourceWatchers_notifyChanged rw ref w) Notifier"

record conc =
  cc_watches :: watches
  cc_threads :: "pc list"

text \<open>A step of one thread, or a new one: the goroutine of a request builds its watcher,
  a worker of a change handler starts.\<close>

inductive conc_step :: "conc \<Rightarrow> conc \<Rightarrow> bool" where
  thread: "i < length (cc_threads s) \<Longrightarrow>
    thread_step (cc_watches s) (cc_threads s ! i) w' pc' \<Longrightarrow>
    conc_step s (s\<lparr>cc_watches := w', cc_threads := (cc_threads s)[i := pc']\<rparr>)"
| spawn_owner: "buildWatch (cc_watches s) = (wa, w') \<Longrightarrow>
    conc_step s (s\<lparr>cc_watches := w', cc_threads := cc_threads s @ [Ready wa]\<rparr>)"
| spawn_notifier: "conc_step s (s\<lparr>cc_threads := cc_threads s @ [Notifier]\<rparr>)"

definition conc_init :: conc where
  "conc_init = \<lparr>cc_watches = newWatches, cc_threads = []\<rparr>"

abbreviation conc_run :: "conc \<Rightarrow> conc \<Rightarrow> bool" where
  "conc_run \<equiv> conc_step\<^sup>*\<^sup>*"

section \<open>The invariant\<close>

text \<open>The resources a watcher is subscribed to.\<close>

definition subs :: "watches \<Rightarrow> watcher_ptr \<Rightarrow> resourceRef set" where
  "subs w wa = {r. wa \<in> subscribers w r}"

definition registry_wf :: "watches \<Rightarrow> bool" where
  "registry_wf w \<longleftrightarrow>
     (\<forall>r r' a. ws_watchers w r = Some a \<longrightarrow> ws_watchers w r' = Some a \<longrightarrow> r = r') \<and>
     (\<forall>r a. ws_watchers w r = Some a \<longrightarrow> a < ws_nextRw w) \<and>
     (\<forall>wa. subs w wa \<noteq> {} \<longrightarrow> wa < ws_nextWatcher w)"

fun owner :: "pc \<Rightarrow> watcher_ptr option" where
  "owner Notifier = None"
| "owner (Notify_send rw ref) = None"
| "owner (Ready wa) = Some wa"
| "owner (Watch_create wa ref) = Some wa"
| "owner (Watch_check wa ref rw) = Some wa"
| "owner (Watch_insert wa ref rw) = Some wa"
| "owner (Watch_record wa ref) = Some wa"
| "owner (Stop_loop wa refs) = Some wa"
| "owner (Stop_check wa ref rw refs) = Some wa"
| "owner (Stop_delete wa ref rw refs) = Some wa"
| "owner (Close wa) = Some wa"
| "owner (Released wa) = Some wa"

text \<open>What a thread may rely on at each point.  Outside the cleanup the subscriptions of
  its watcher are exactly the recorded resources, up to the one being recorded;
  in the cleanup they are among the resources left; and a \<^verbatim>\<open>resourceWatchers\<close> in hand
  is the one the map holds.\<close>

fun thread_ok :: "watches \<Rightarrow> pc \<Rightarrow> bool" where
  "thread_ok w (Ready wa) \<longleftrightarrow> subs w wa = watched w wa"
| "thread_ok w (Watch_create wa ref) \<longleftrightarrow> subs w wa = watched w wa"
| "thread_ok w (Watch_check wa ref rw) \<longleftrightarrow> subs w wa = watched w wa \<and> ws_watchers w ref = Some rw"
| "thread_ok w (Watch_insert wa ref rw) \<longleftrightarrow> subs w wa = watched w wa \<and> ws_watchers w ref = Some rw"
| "thread_ok w (Watch_record wa ref) \<longleftrightarrow> subs w wa = insert ref (watched w wa)"
| "thread_ok w (Stop_loop wa refs) \<longleftrightarrow> subs w wa \<subseteq> set refs"
| "thread_ok w (Stop_check wa ref rw refs) \<longleftrightarrow>
     subs w wa \<subseteq> insert ref (set refs) \<and> ws_watchers w ref = Some rw"
| "thread_ok w (Stop_delete wa ref rw refs) \<longleftrightarrow>
     subs w wa \<subseteq> insert ref (set refs) \<and> ws_watchers w ref = Some rw"
| "thread_ok w (Close wa) \<longleftrightarrow> subs w wa = {}"
| "thread_ok w (Released wa) \<longleftrightarrow> subs w wa = {}"
| "thread_ok w Notifier \<longleftrightarrow> True"
| "thread_ok w (Notify_send rw ref) \<longleftrightarrow> ws_watchers w ref = Some rw"

fun is_released :: "pc \<Rightarrow> bool" where
  "is_released (Released wa) = True"
| "is_released p = False"

definition owner_ok :: "watches \<Rightarrow> pc \<Rightarrow> bool" where
  "owner_ok w p \<longleftrightarrow> (\<forall>wa. owner p = Some wa \<longrightarrow>
     wa < ws_nextWatcher w \<and> (wa_done (ws_watcher w wa) \<longleftrightarrow> is_released p))"

definition owners_distinct :: "pc list \<Rightarrow> bool" where
  "owners_distinct ts \<longleftrightarrow> (\<forall>i j wa. i < length ts \<longrightarrow> j < length ts \<longrightarrow>
     owner (ts ! i) = Some wa \<longrightarrow> owner (ts ! j) = Some wa \<longrightarrow> i = j)"

definition conc_inv :: "conc \<Rightarrow> bool" where
  "conc_inv s \<longleftrightarrow> registry_wf (cc_watches s) \<and> owners_distinct (cc_threads s) \<and>
     (\<forall>p \<in> set (cc_threads s). thread_ok (cc_watches s) p \<and> owner_ok (cc_watches s) p)"

text \<open>A step of the owner of \<open>wa\<close> leaves the other watchers alone, and the map only grows.\<close>

definition only_owner :: "watcher_ptr option \<Rightarrow> watches \<Rightarrow> watches \<Rightarrow> bool" where
  "only_owner o' w w' \<longleftrightarrow>
     (\<forall>r a. ws_watchers w r = Some a \<longrightarrow> ws_watchers w' r = Some a) \<and>
     ws_nextWatcher w \<le> ws_nextWatcher w' \<and>
     (\<forall>wa. Some wa \<noteq> o' \<and> wa < ws_nextWatcher w \<longrightarrow>
        subs w' wa = subs w wa \<and> ws_watcher w' wa = ws_watcher w wa)"

lemma frame_thread_ok:
  assumes "only_owner o' w w'" and "thread_ok w p" and "owner_ok w p" and "owner p \<noteq> o' \<or> owner p = None"
  shows "thread_ok w' p \<and> owner_ok w' p"
proof (cases "owner p")
  case None
  then show ?thesis using assms(1,2) by (cases p) (auto simp: only_owner_def owner_ok_def)
next
  case (Some wa)
  then have "Some wa \<noteq> o'" "wa < ws_nextWatcher w" using assms(3,4) by (auto simp: owner_ok_def)
  then have same: "subs w' wa = subs w wa" "watched w' wa = watched w wa"
      "ws_watcher w' wa = ws_watcher w wa" "wa < ws_nextWatcher w'"
    using assms(1) by (auto simp: only_owner_def watched_def)
  have map: "ws_watchers w r = Some a \<Longrightarrow> ws_watchers w' r = Some a" for r a
    using assms(1) by (simp add: only_owner_def)
  have "thread_ok w' p" using assms(2) Some same map by (cases p) auto
  moreover have "owner_ok w' p" using assms(3) Some same by (simp add: owner_ok_def)
  ultimately show ?thesis by blast
qed

section \<open>The critical sections on subscriptions\<close>

lemma subs_same:
  "ws_watchers w' = ws_watchers w \<Longrightarrow> ws_rw w' = ws_rw w \<Longrightarrow> subs w' = subs w"
  by (rule ext) (simp add: subs_def subscribers_def cong: option.case_cong)

lemma subs_create:
  assumes "registry_wf w" and "createResourceWatchers ref w = (rw, w')"
  shows "subs w' = subs w"
proof (rule create_cases [OF assms(2)])
  assume none: "ws_watchers w ref = None" and rw: "rw = ws_nextRw w"
    and w': "w' = w\<lparr>ws_rw := (ws_rw w)(rw := []), ws_nextRw := Suc rw,
      ws_watchers := (ws_watchers w)(ref \<mapsto> rw)\<rparr>"
  have "ws_watchers w r \<noteq> Some (ws_nextRw w)" for r
    using assms(1) by (auto simp: registry_wf_def)
  then show ?thesis
    using none by (auto simp: w' rw subs_def subscribers_def fun_eq_iff split: option.splits)
qed simp

lemma registry_wf_create:
  assumes "registry_wf w" and "createResourceWatchers ref w = (rw, w')"
  shows "registry_wf w'"
proof (rule create_cases [OF assms(2)])
  assume none: "ws_watchers w ref = None" and rw: "rw = ws_nextRw w"
    and w': "w' = w\<lparr>ws_rw := (ws_rw w)(rw := []), ws_nextRw := Suc rw,
      ws_watchers := (ws_watchers w)(ref \<mapsto> rw)\<rparr>"
  have old: "a < ws_nextRw w" if "ws_watchers w r = Some a" for r a
    using assms(1) that by (auto simp: registry_wf_def)
  have "r = r'" if "ws_watchers w' r = Some a" "ws_watchers w' r' = Some a" for r r' a
    using that old [of r a] old [of r' a] assms(1) by (auto simp: w' rw registry_wf_def split: if_splits)
  moreover have "a < ws_nextRw w'" if "ws_watchers w' r = Some a" for r a
    using that old [of r a] by (auto simp: w' rw split: if_splits)
  moreover have "wa < ws_nextWatcher w'" if "subs w' wa \<noteq> {}" for wa
    using that assms(1) subs_create [OF assms] by (auto simp: w' registry_wf_def)
  ultimately show ?thesis unfolding registry_wf_def by blast
qed (use assms(1) in simp)

lemma subs_insert:
  assumes "registry_wf w" and "ws_watchers w ref = Some rw"
  shows "subs (rw_insert rw wa w) wb = (if wb = wa then insert ref (subs w wb) else subs w wb)"
proof -
  have "ws_watchers w r \<noteq> Some rw" if "r \<noteq> ref" for r
    using assms that by (auto simp: registry_wf_def)
  then show ?thesis
    using assms(2) by (fastforce simp: subs_def subscribers_def rw_insert_def split: option.splits if_splits)
qed

lemma subs_delete:
  assumes "registry_wf w" and "ws_watchers w ref = Some rw"
  shows "subs (rw_delete rw wa w) wb = (if wb = wa then subs w wb - {ref} else subs w wb)"
proof -
  have "ws_watchers w r \<noteq> Some rw" if "r \<noteq> ref" for r
    using assms that by (auto simp: registry_wf_def)
  then show ?thesis
    using assms(2) by (fastforce simp: subs_def subscribers_def rw_delete_def split: option.splits if_splits)
qed

lemma contains_subs:
  "ws_watchers w ref = Some rw \<Longrightarrow> rw_contains rw wa w \<longleftrightarrow> ref \<in> subs w wa"
  by (simp add: rw_contains_def subs_def subscribers_def)

lemma registry_wf_same_map:
  assumes "registry_wf w" and "ws_watchers w' = ws_watchers w" and "ws_nextRw w' = ws_nextRw w"
    and "ws_nextWatcher w' = ws_nextWatcher w"
    and "\<And>wa. subs w' wa \<noteq> {} \<Longrightarrow> wa < ws_nextWatcher w"
  shows "registry_wf w'"
  using assms unfolding registry_wf_def by metis

lemma insert_step:
  assumes "registry_wf w" and "ws_watchers w ref = Some rw" and "wa < ws_nextWatcher w"
  shows "registry_wf (rw_insert rw wa w) \<and> only_owner (Some wa) w (rw_insert rw wa w)"
proof
  show "registry_wf (rw_insert rw wa w)"
    by (rule registry_wf_same_map [OF assms(1)])
       (use assms(1,3) subs_insert [OF assms(1,2)] in
        \<open>auto simp: rw_insert_def registry_wf_def split: if_splits\<close>)
  show "only_owner (Some wa) w (rw_insert rw wa w)"
    using subs_insert [OF assms(1,2)] unfolding only_owner_def by (simp add: rw_insert_def)
qed

lemma delete_step:
  assumes "registry_wf w" and "ws_watchers w ref = Some rw"
  shows "registry_wf (rw_delete rw wa w) \<and> only_owner (Some wa) w (rw_delete rw wa w)"
proof
  show "registry_wf (rw_delete rw wa w)"
    by (rule registry_wf_same_map [OF assms(1)])
       (use assms(1) subs_delete [OF assms(1,2)] in
        \<open>auto simp: rw_delete_def registry_wf_def split: if_splits\<close>)
  show "only_owner (Some wa) w (rw_delete rw wa w)"
    using subs_delete [OF assms(1,2)] unfolding only_owner_def by (simp add: rw_delete_def)
qed

text \<open>The steps that touch only the owner's record, or nothing of the registry.\<close>

lemma quiet_step:
  assumes "registry_wf w" and "ws_watchers w' = ws_watchers w" and "ws_rw w' = ws_rw w"
    and "ws_nextRw w' = ws_nextRw w" and "ws_nextWatcher w' = ws_nextWatcher w"
    and "\<And>wa. Some wa \<noteq> o' \<Longrightarrow> ws_watcher w' wa = ws_watcher w wa"
  shows "registry_wf w' \<and> only_owner o' w w' \<and> subs w' = subs w"
  using assms subs_same [OF assms(2,3)] by (simp add: registry_wf_def only_owner_def)

lemma thread_step_ok:
  assumes "thread_step w p w' p'" and wf: "registry_wf w" and "thread_ok w p" and "owner_ok w p"
  shows "registry_wf w' \<and> thread_ok w' p' \<and> owner_ok w' p' \<and> only_owner (owner p) w w' \<and> owner p' = owner p"
  using assms(1)
proof cases
  case (watch_create ref rw wa)
  note c = watch_create(3)
  have "only_owner (Some wa) w w'"
    using subs_create [OF wf c] create_keeps(1) [OF c] create_monotone [OF c] c
    by (auto simp: only_owner_def createResourceWatchers_def split: option.splits)
  moreover have "ws_nextWatcher w' = ws_nextWatcher w"
    using c by (auto simp: createResourceWatchers_def split: option.splits)
  ultimately show ?thesis
    using watch_create assms(3,4) registry_wf_create [OF wf c] subs_create [OF wf c]
      create_keeps(1) [OF c] create_registers [OF c]
    by (simp add: owner_ok_def watched_def)
next
  case (watch_insert wa ref rw)
  have pre: "ws_watchers w ref = Some rw" "wa < ws_nextWatcher w" "subs w wa = watched w wa"
    using assms(3,4) watch_insert by (auto simp: owner_ok_def)
  then show ?thesis
    using insert_step [OF wf pre(1,2)] subs_insert [OF wf pre(1), of wa wa] assms(4) watch_insert
    by (simp add: owner_ok_def watched_def rw_insert_def)
next
  case (watch_record wa ref)
  then show ?thesis
    using quiet_step [OF wf, of w' "Some wa"] assms(3,4)
    by (auto simp: owner_ok_def watched_insert_def watched_def)
next
  case (stop_delete wa ref rw refs)
  have pre: "ws_watchers w ref = Some rw" using assms(3) stop_delete by simp
  then show ?thesis
    using delete_step [OF wf pre] subs_delete [OF wf pre, of wa wa] assms(3,4) stop_delete
    by (auto simp: owner_ok_def rw_delete_def)
next
  case (close wa)
  then have w': "w' = w\<lparr>ws_watcher := (ws_watcher w)(wa := (ws_watcher w wa)\<lparr>wa_done := True\<rparr>)\<rparr>"
    by (simp add: close_done_def split: if_splits)
  show ?thesis
    using quiet_step [OF wf, of w' "Some wa"] assms(3,4) close(1,2) by (auto simp: w' owner_ok_def)
next
  case (notify_send rw ref)
  then show ?thesis
    using quiet_step [OF wf, of w' None]
    by (auto simp: resourceWatchers_notifyChanged_def owner_ok_def)
next
  case (watch_present rw wa ref)
  then show ?thesis
    using quiet_step [OF wf, of w "Some wa"] wf assms(3,4) contains_subs [of w ref rw wa]
    by (auto simp: owner_ok_def)
next
  case (stop_absent rw wa ref refs)
  then show ?thesis
    using quiet_step [OF wf, of w "Some wa"] wf assms(3,4) contains_subs [of w ref rw wa]
    by (auto simp: owner_ok_def)
next
  case (stop_missed ref wa refs)
  then have "ref \<notin> subs w wa"
    by (simp add: getResourceWatchers_def subs_def subscribers_def)
  then show ?thesis
    using stop_missed quiet_step [OF wf, of w "Some wa"] wf assms(3,4) by (auto simp: owner_ok_def)
qed (use quiet_step [OF wf, of w] wf assms(3,4) in
    \<open>auto simp: owner_ok_def getResourceWatchers_def\<close>)

section \<open>The system\<close>

lemma conc_inv_init: "conc_inv conc_init"
  by (simp add: conc_inv_def conc_init_def registry_wf_def owners_distinct_def newWatches_def
      subs_def subscribers_def)

lemma owners_distinct_update:
  "owners_distinct ts \<Longrightarrow> owner p = owner (ts ! i) \<Longrightarrow> owners_distinct (ts[i := p])"
  unfolding owners_distinct_def by (metis length_list_update nth_list_update_eq nth_list_update_neq)

lemma conc_inv_thread:
  assumes inv: "conc_inv s" and i: "i < length (cc_threads s)"
    and step: "thread_step (cc_watches s) (cc_threads s ! i) w' p'"
  shows "conc_inv (s\<lparr>cc_watches := w', cc_threads := (cc_threads s)[i := p']\<rparr>)"
proof -
  let ?w = "cc_watches s" and ?ts = "cc_threads s"
  have ok: "thread_ok ?w (?ts ! j) \<and> owner_ok ?w (?ts ! j)" if "j < length ?ts" for j
    using inv that by (simp add: conc_inv_def)
  have dist: "owners_distinct ?ts" and wf: "registry_wf ?w" using inv by (auto simp: conc_inv_def)
  note s = thread_step_ok [OF step wf conjunct1 [OF ok [OF i]] conjunct2 [OF ok [OF i]]]
  have "thread_ok w' (?ts[i := p'] ! j) \<and> owner_ok w' (?ts[i := p'] ! j)" if j: "j < length ?ts" for j
  proof (cases "j = i")
    case False
    then have "owner (?ts ! j) \<noteq> owner (?ts ! i) \<or> owner (?ts ! j) = None"
      using dist i j unfolding owners_distinct_def by (metis option.exhaust)
    then show ?thesis using frame_thread_ok [of _ ?w w'] s ok [OF j] False by auto
  qed (use s i in simp)
  then have "\<forall>p \<in> set (?ts[i := p']). thread_ok w' p \<and> owner_ok w' p"
    by (metis in_set_conv_nth length_list_update)
  then show ?thesis using s owners_distinct_update [OF dist, of p' i] by (simp add: conc_inv_def)
qed

lemma conc_inv_spawn:
  assumes inv: "conc_inv s" and build: "buildWatch (cc_watches s) = (wa, w')"
  shows "conc_inv (s\<lparr>cc_watches := w', cc_threads := cc_threads s @ [Ready wa]\<rparr>)"
proof -
  let ?w = "cc_watches s" and ?ts = "cc_threads s"
  have wa: "wa = ws_nextWatcher ?w" and w': "w' = ?w\<lparr>ws_watcher :=
      (ws_watcher ?w)(wa := \<lparr>wa_done = False, wa_watchedResources = []\<rparr>), ws_nextWatcher := Suc wa\<rparr>"
    using build by (auto simp: buildWatch_def)
  have wf: "registry_wf ?w" using inv by (simp add: conc_inv_def)
  have subs: "subs w' = subs ?w" by (rule subs_same) (simp_all add: w')
  have none: "subs ?w wa = {}" using wf by (auto simp: registry_wf_def wa)
  have frame: "only_owner (Some wa) ?w w'" using subs by (simp add: only_owner_def w' wa)
  have new: "owner p \<noteq> Some wa" if "p \<in> set ?ts" for p
    using inv that by (auto simp: conc_inv_def owner_ok_def wa)
  have old: "\<forall>p \<in> set ?ts. thread_ok w' p \<and> owner_ok w' p"
    using frame_thread_ok [OF frame] new inv by (auto simp: conc_inv_def)
  have "registry_wf w'"
    using wf subs by (auto simp: registry_wf_def w' wa less_Suc_eq)
  moreover have "owners_distinct (?ts @ [Ready wa])"
    using inv new unfolding conc_inv_def owners_distinct_def
    by (auto simp: nth_append less_Suc_eq split: if_splits)
  moreover have "thread_ok w' (Ready wa)" "owner_ok w' (Ready wa)"
    using subs none by (simp_all add: watched_def w' owner_ok_def)
  ultimately show ?thesis using old by (simp add: conc_inv_def)
qed

lemma conc_inv_step:
  assumes "conc_step s s'" and "conc_inv s"
  shows "conc_inv s'"
  using assms(1)
proof cases
  case (thread i w' pc')
  then show ?thesis using conc_inv_thread [OF assms(2)] by simp
next
  case (spawn_owner wa w')
  then show ?thesis using conc_inv_spawn [OF assms(2)] by simp
next
  case spawn_notifier
  have "owners_distinct (cc_threads s @ [Notifier])"
    using assms(2) unfolding conc_inv_def owners_distinct_def
    by (auto simp: nth_append less_Suc_eq split: if_splits)
  then show ?thesis using spawn_notifier assms(2) by (simp add: conc_inv_def owner_ok_def)
qed

lemma conc_inv_run: "conc_run s s' \<Longrightarrow> conc_inv s \<Longrightarrow> conc_inv s'"
  by (induction rule: rtranclp_induct) (auto intro: conc_inv_step)

text \<open>What only grows: the map, the recorded resources; and a thread keeps its watcher.\<close>

definition grows :: "conc \<Rightarrow> conc \<Rightarrow> bool" where
  "grows s s' \<longleftrightarrow> length (cc_threads s) \<le> length (cc_threads s') \<and>
     (\<forall>j < length (cc_threads s). owner (cc_threads s' ! j) = owner (cc_threads s ! j)) \<and>
     (\<forall>r a. ws_watchers (cc_watches s) r = Some a \<longrightarrow> ws_watchers (cc_watches s') r = Some a) \<and>
     ws_nextWatcher (cc_watches s) \<le> ws_nextWatcher (cc_watches s') \<and>
     (\<forall>wa < ws_nextWatcher (cc_watches s). watched (cc_watches s) wa \<subseteq> watched (cc_watches s') wa)"

lemma thread_watched_grows: "thread_step w p w' p' \<Longrightarrow> watched w wa \<subseteq> watched w' wa"
  by (elim thread_step.cases)
     (auto simp: watched_def rw_insert_def rw_delete_def watched_insert_def close_done_def
        resourceWatchers_notifyChanged_def createResourceWatchers_def split: if_splits option.splits)

lemma grows_step:
  assumes "conc_step s s'" and "conc_inv s"
  shows "grows s s'"
  using assms(1)
proof cases
  case (thread i w' pc')
  have "thread_ok (cc_watches s) (cc_threads s ! i)" "owner_ok (cc_watches s) (cc_threads s ! i)"
      "registry_wf (cc_watches s)"
    using assms(2) thread(2) by (auto simp: conc_inv_def)
  note ok = thread_step_ok [OF thread(3) this(3,1,2)]
  show ?thesis
    unfolding grows_def
  proof (intro conjI allI impI)
    fix j assume "j < length (cc_threads s)"
    then show "owner (cc_threads s' ! j) = owner (cc_threads s ! j)"
      using ok thread(1) by (cases "j = i") simp_all
  qed (use ok thread(1) thread_watched_grows [OF thread(3)] in \<open>auto simp: only_owner_def\<close>)
next
  case (spawn_owner wa w')
  then show ?thesis by (auto simp: grows_def buildWatch_def nth_append watched_def)
next
  case spawn_notifier
  then show ?thesis by (simp add: grows_def nth_append)
qed

lemma grows_trans: "grows s s' \<Longrightarrow> grows s' s'' \<Longrightarrow> grows s s''"
  unfolding grows_def by (auto dest: order_less_le_trans) (metis order_less_le_trans subsetD)

lemma grows_run: "conc_run s s' \<Longrightarrow> conc_inv s \<Longrightarrow> grows s s'"
proof (induction rule: rtranclp_induct)
  case (step s1 s2)
  then show ?case using grows_step [OF step.hyps(2)] conc_inv_run [OF step.hyps(1)] grows_trans by blast
qed (simp add: grows_def)

section \<open>Properties\<close>

text \<open>C10: the registry is right under every interleaving of its critical sections.
  Between its calls a watcher is subscribed to exactly the resources it asked
  for; a released one is subscribed to none; closing its channel does not panic;
  and a notifier that has looked a resource up holds the watchers the map holds
  for it, so that it notifies exactly the subscribers at the moment it takes the
  lock.\<close>

theorem concurrent_registry_is_sound:
  assumes "conc_run conc_init s"
  shows "(\<forall>wa. Ready wa \<in> set (cc_threads s) \<longrightarrow>
      {r. wa \<in> subscribers (cc_watches s) r} = watched (cc_watches s) wa) \<and>
    (\<forall>wa r. Released wa \<in> set (cc_threads s) \<longrightarrow> wa \<notin> subscribers (cc_watches s) r) \<and>
    (\<forall>wa. Close wa \<in> set (cc_threads s) \<longrightarrow> \<not> is_Panic (close_done wa (cc_watches s))) \<and>
    (\<forall>rw ref. Notify_send rw ref \<in> set (cc_threads s) \<longrightarrow>
      set (ws_goroutines (resourceWatchers_notifyChanged rw ref (cc_watches s))) =
        set (ws_goroutines (cc_watches s)) \<union> subscribers (cc_watches s) ref \<times> {ref})"
proof -
  have "conc_inv s" using conc_inv_run [OF assms conc_inv_init] .
  then have ok: "thread_ok (cc_watches s) p \<and> owner_ok (cc_watches s) p" if "p \<in> set (cc_threads s)" for p
    using that by (simp add: conc_inv_def)
  show ?thesis
  proof (intro conjI allI impI)
    fix wa assume "Close wa \<in> set (cc_threads s)"
    then show "\<not> is_Panic (close_done wa (cc_watches s))"
      using ok [of "Close wa"] by (simp add: owner_ok_def close_done_def)
  next
    fix rw ref assume "Notify_send rw ref \<in> set (cc_threads s)"
    then show "set (ws_goroutines (resourceWatchers_notifyChanged rw ref (cc_watches s))) =
        set (ws_goroutines (cc_watches s)) \<union> subscribers (cc_watches s) ref \<times> {ref}"
      using ok [of "Notify_send rw ref"]
      by (auto simp: resourceWatchers_notifyChanged_def subscribers_def)
  qed (use ok in \<open>fastforce simp: subs_def\<close>)+
qed

fun releasing :: "pc \<Rightarrow> bool" where
  "releasing (Stop_loop wa refs) = True"
| "releasing (Stop_check wa ref rw refs) = True"
| "releasing (Stop_delete wa ref rw refs) = True"
| "releasing (Close wa) = True"
| "releasing (Released wa) = True"
| "releasing p = False"

lemma not_releasing_subscribed:
  "thread_ok w p \<Longrightarrow> owner p = Some wa \<Longrightarrow> \<not> releasing p \<Longrightarrow> watched w wa \<subseteq> subs w wa"
  by (cases p) auto

text \<open>C11: no notification is lost between the threads.  If a notification of a resource
  begins when a watcher's \<^verbatim>\<open>watch\<close> of it has returned, it finds the resource, and
  whatever the other threads do until it starts the deliveries, the watcher is
  among them unless its owner has begun to release it.\<close>

theorem concurrent_notification_is_not_lost:
  assumes "conc_run conc_init s" and "i < length (cc_threads s)" and "j < length (cc_threads s)"
    and "cc_threads s ! i = Notifier" and "cc_threads s ! j = Ready wa"
    and "ref \<in> watched (cc_watches s) wa"
  shows "\<exists>rw. getResourceWatchers ref (cc_watches s) = Some rw \<and>
    (\<forall>s'. conc_run (s\<lparr>cc_threads := (cc_threads s)[i := Notify_send rw ref]\<rparr>) s' \<longrightarrow>
      \<not> releasing (cc_threads s' ! j) \<longrightarrow>
      (wa, ref) \<in> set (ws_goroutines (resourceWatchers_notifyChanged rw ref (cc_watches s'))))"
proof -
  have inv: "conc_inv s" using conc_inv_run [OF assms(1) conc_inv_init] .
  have here: "subs (cc_watches s) wa = watched (cc_watches s) wa" "wa < ws_nextWatcher (cc_watches s)"
    using inv assms(3,5) nth_mem [OF assms(3)] by (auto simp: conc_inv_def owner_ok_def)
  then obtain rw where rw: "ws_watchers (cc_watches s) ref = Some rw"
    using assms(6) by (auto simp: subs_def subscribers_def split: option.splits)
  let ?s1 = "s\<lparr>cc_threads := (cc_threads s)[i := Notify_send rw ref]\<rparr>"
  have "conc_step s ?s1"
    using thread [OF assms(2), of "cc_watches s" "Notify_send rw ref"] notify_found [of ref "cc_watches s" rw]
      assms(4) rw by (simp add: getResourceWatchers_def)
  then have inv1: "conc_inv ?s1" using conc_inv_step inv by blast
  have "(wa, ref) \<in> set (ws_goroutines (resourceWatchers_notifyChanged rw ref (cc_watches s')))"
    if run: "conc_run ?s1 s'" and rel: "\<not> releasing (cc_threads s' ! j)" for s'
  proof -
    have g: "grows ?s1 s'" by (rule grows_run [OF run inv1])
    have "i \<noteq> j" using assms(4,5) by auto
    then have "owner (cc_threads s' ! j) = Some wa" "j < length (cc_threads s')"
      using g assms(3,5) by (auto simp: grows_def)
    moreover have "thread_ok (cc_watches s') (cc_threads s' ! j)"
      using conc_inv_run [OF run inv1] calculation(2) by (simp add: conc_inv_def)
    ultimately have "watched (cc_watches s') wa \<subseteq> subs (cc_watches s') wa"
      using not_releasing_subscribed rel by blast
    moreover have "ref \<in> watched (cc_watches s') wa" "ws_watchers (cc_watches s') ref = Some rw"
      using g assms(6) here(2) rw by (auto simp: grows_def)
    ultimately show ?thesis
      by (auto simp: subs_def subscribers_def resourceWatchers_notifyChanged_def)
  qed
  then show ?thesis using rw by (auto simp: getResourceWatchers_def)
qed

section \<open>A concrete interleaving\<close>

text \<open>An owner subscribes; then a notifier looks the resource up.\<close>

definition watching_conc :: conc where
  "watching_conc =
     (let w = snd (buildWatch newWatches); (rw, w1) = createResourceWatchers sample_ref w
      in \<lparr>cc_watches = watched_insert 0 sample_ref (rw_insert rw 0 w1), cc_threads = [Ready 0, Notifier]\<rparr>)"

lemma watching_conc_run: "conc_run conc_init watching_conc"
proof -
  define w0 where "w0 = snd (buildWatch newWatches)"
  obtain rw w1 where c: "createResourceWatchers sample_ref w0 = (rw, w1)" by fastforce
  define w2 where "w2 = rw_insert rw 0 w1"
  define at where "at p w = \<lparr>cc_watches = w, cc_threads = [p, Notifier]\<rparr>" for p w
  have step: "conc_step (at p w) (at p' w')" if "thread_step w p w' p'" for p w p' w'
    using thread [of 0 "at p w" w' p'] that by (simp add: at_def)
  have absent: "\<not> rw_contains rw 0 w1" "getResourceWatchers sample_ref w0 = None"
    using c by (auto simp: w0_def buildWatch_def newWatches_def createResourceWatchers_def
        rw_contains_def getResourceWatchers_def)
  have build: "buildWatch newWatches = (0, w0)" by (simp add: w0_def buildWatch_def newWatches_def)
  have "conc_step conc_init \<lparr>cc_watches = w0, cc_threads = [Ready 0]\<rparr>"
    using spawn_owner [of conc_init 0 w0] build by (simp add: conc_init_def)
  moreover have "conc_step \<lparr>cc_watches = w0, cc_threads = [Ready 0]\<rparr> (at (Ready 0) w0)"
    using spawn_notifier [of "\<lparr>cc_watches = w0, cc_threads = [Ready 0]\<rparr>"] by (simp add: at_def)
  moreover have "conc_step (at (Ready 0) w0) (at (Watch_create 0 sample_ref) w0)"
    by (rule step [OF watch_missed [OF absent(2)]])
  moreover have "conc_step (at (Watch_create 0 sample_ref) w0) (at (Watch_check 0 sample_ref rw) w1)"
    by (rule step [OF watch_create [OF c]])
  moreover have "conc_step (at (Watch_check 0 sample_ref rw) w1) (at (Watch_insert 0 sample_ref rw) w1)"
    by (rule step [OF watch_absent [OF absent(1)]])
  moreover have "conc_step (at (Watch_insert 0 sample_ref rw) w1) (at (Watch_record 0 sample_ref) w2)"
    unfolding w2_def by (rule step [OF watch_insert])
  moreover have "conc_step (at (Watch_record 0 sample_ref) w2) watching_conc"
    using step [OF watch_record [of w2 0 sample_ref]] c
    by (simp add: at_def watching_conc_def w2_def w0_def)
  ultimately show ?thesis
    by (meson converse_rtranclp_into_rtranclp rtranclp.rtrancl_refl)
qed

lemma watching_conc_threads:
  "cc_threads watching_conc = [Ready 0, Notifier]" "sample_ref \<in> watched (cc_watches watching_conc) 0"
  by (simp_all add: watching_conc_def Let_def case_prod_unfold)

theorem concurrent_registry_is_sound_witness:
  "conc_run conc_init watching_conc \<and>
   {r. 0 \<in> subscribers (cc_watches watching_conc) r} = watched (cc_watches watching_conc) 0"
  using concurrent_registry_is_sound [OF watching_conc_run] watching_conc_run watching_conc_threads(1)
  by simp

theorem concurrent_notification_is_not_lost_witness:
  "\<exists>rw. getResourceWatchers sample_ref (cc_watches watching_conc) = Some rw \<and>
     (0, sample_ref) \<in> set (ws_goroutines (resourceWatchers_notifyChanged rw sample_ref (cc_watches watching_conc)))"
proof -
  let ?s = "\<lambda>rw. watching_conc\<lparr>cc_threads := (cc_threads watching_conc)[1 := Notify_send rw sample_ref]\<rparr>"
  obtain rw where rw: "getResourceWatchers sample_ref (cc_watches watching_conc) = Some rw"
    and all: "\<And>s'. conc_run (?s rw) s' \<Longrightarrow> \<not> releasing (cc_threads s' ! 0) \<Longrightarrow>
      (0, sample_ref) \<in> set (ws_goroutines (resourceWatchers_notifyChanged rw sample_ref (cc_watches s')))"
    using concurrent_notification_is_not_lost [OF watching_conc_run, of 1 0 0 sample_ref]
      watching_conc_threads by auto
  have "(0, sample_ref) \<in>
      set (ws_goroutines (resourceWatchers_notifyChanged rw sample_ref (cc_watches (?s rw))))"
    by (rule all) (simp_all add: watching_conc_threads(1))
  then show ?thesis using rw by simp
qed

end
