(* ===== verification/Client_Api.thy ===== *)
theory Client_Api
  imports Api_Types Gtc_Prelude
begin

text \<open>
  The generated client of the custom resource: the declarative configuration of a
  listener (\<^verbatim>\<open>client/applyconfiguration/gtc/v1alpha1/grpclistener.go\<close>) with its chained
  setters, the typed client (\<^verbatim>\<open>client/clientset/versioned/typed/gtc/v1alpha1/grpclistener.go\<close>)
  as the REST requests it builds, and the list of its fake.  The REST client, JSON
  and the object tracker are libraries; option structs other than the list options
  are type variables.
\<close>

section \<open>The apply configuration\<close>

text \<open>The embedded metadata is a pointer: \<^const>\<open>None\<close> until a setter needs it.  \<open>'t\<close> is
  \<^verbatim>\<open>metav1.Time\<close>, \<open>'r\<close> an owner reference, \<open>'s\<close> the configuration of the spec.  A nil Go
  map is \<^const>\<open>None\<close>.\<close>

record ('t, 'r) ObjectMetaApply =
  oma_Name :: "string option"
  oma_GenerateName :: "string option"
  oma_Namespace :: "string option"
  oma_UID :: "string option"
  oma_ResourceVersion :: "string option"
  oma_Generation :: "int option"
  oma_CreationTimestamp :: "'t option"
  oma_DeletionTimestamp :: "'t option"
  oma_DeletionGracePeriodSeconds :: "int option"
  oma_Labels :: "(string \<rightharpoonup> string) option"
  oma_Annotations :: "(string \<rightharpoonup> string) option"
  oma_OwnerReferences :: "'r list"
  oma_Finalizers :: "string list"

record ('t, 'r, 's) GRPCListenerApply =
  gla_Kind :: "string option"
  gla_APIVersion :: "string option"
  gla_ObjectMeta :: "('t, 'r) ObjectMetaApply option"
  gla_Spec :: "'s option"

definition empty_meta :: "('t, 'r) ObjectMetaApply" where
  "empty_meta = \<lparr>oma_Name = None, oma_GenerateName = None, oma_Namespace = None, oma_UID = None,
     oma_ResourceVersion = None, oma_Generation = None, oma_CreationTimestamp = None,
     oma_DeletionTimestamp = None, oma_DeletionGracePeriodSeconds = None, oma_Labels = None,
     oma_Annotations = None, oma_OwnerReferences = [], oma_Finalizers = []\<rparr>"

definition ensureObjectMetaApplyConfigurationExists ::
  "('t, 'r, 's) GRPCListenerApply \<Rightarrow> ('t, 'r, 's) GRPCListenerApply" where
  "ensureObjectMetaApplyConfigurationExists b =
     (if gla_ObjectMeta b = None then b\<lparr>gla_ObjectMeta := Some empty_meta\<rparr> else b)"

text \<open>An assignment to a promoted field goes through the embedded pointer.\<close>

definition with_meta ::
  "(('t, 'r) ObjectMetaApply \<Rightarrow> ('t, 'r) ObjectMetaApply) \<Rightarrow>
     ('t, 'r, 's) GRPCListenerApply \<Rightarrow> ('t, 'r, 's) GRPCListenerApply outcome" where
  "with_meta upd b =
     and_then (deref (gla_ObjectMeta b)) (\<lambda>m. Ok (b\<lparr>gla_ObjectMeta := Some (upd m)\<rparr>))"

type_synonym ('t, 'r, 's) setter =
  "('t, 'r, 's) GRPCListenerApply \<Rightarrow> ('t, 'r, 's) GRPCListenerApply outcome"

definition WithKind :: "string \<Rightarrow> ('t, 'r, 's) setter" where
  "WithKind v b = Ok (b\<lparr>gla_Kind := Some v\<rparr>)"

definition WithAPIVersion :: "string \<Rightarrow> ('t, 'r, 's) setter" where
  "WithAPIVersion v b = Ok (b\<lparr>gla_APIVersion := Some v\<rparr>)"

definition WithName :: "string \<Rightarrow> ('t, 'r, 's) setter" where
  "WithName v b =
     with_meta (\<lambda>m. m\<lparr>oma_Name := Some v\<rparr>) (ensureObjectMetaApplyConfigurationExists b)"

definition WithGenerateName :: "string \<Rightarrow> ('t, 'r, 's) setter" where
  "WithGenerateName v b =
     with_meta (\<lambda>m. m\<lparr>oma_GenerateName := Some v\<rparr>) (ensureObjectMetaApplyConfigurationExists b)"

definition WithConfigNamespace :: "string \<Rightarrow> ('t, 'r, 's) setter" where
  "WithConfigNamespace v b =
     with_meta (\<lambda>m. m\<lparr>oma_Namespace := Some v\<rparr>) (ensureObjectMetaApplyConfigurationExists b)"

definition WithUID :: "string \<Rightarrow> ('t, 'r, 's) setter" where
  "WithUID v b =
     with_meta (\<lambda>m. m\<lparr>oma_UID := Some v\<rparr>) (ensureObjectMetaApplyConfigurationExists b)"

definition WithResourceVersion :: "string \<Rightarrow> ('t, 'r, 's) setter" where
  "WithResourceVersion v b =
     with_meta (\<lambda>m. m\<lparr>oma_ResourceVersion := Some v\<rparr>) (ensureObjectMetaApplyConfigurationExists b)"

definition WithGeneration :: "int \<Rightarrow> ('t, 'r, 's) setter" where
  "WithGeneration v b =
     with_meta (\<lambda>m. m\<lparr>oma_Generation := Some v\<rparr>) (ensureObjectMetaApplyConfigurationExists b)"

definition WithCreationTimestamp :: "'t \<Rightarrow> ('t, 'r, 's) setter" where
  "WithCreationTimestamp v b =
     with_meta (\<lambda>m. m\<lparr>oma_CreationTimestamp := Some v\<rparr>) (ensureObjectMetaApplyConfigurationExists b)"

definition WithDeletionTimestamp :: "'t \<Rightarrow> ('t, 'r, 's) setter" where
  "WithDeletionTimestamp v b =
     with_meta (\<lambda>m. m\<lparr>oma_DeletionTimestamp := Some v\<rparr>) (ensureObjectMetaApplyConfigurationExists b)"

definition WithDeletionGracePeriodSeconds :: "int \<Rightarrow> ('t, 'r, 's) setter" where
  "WithDeletionGracePeriodSeconds v b =
     with_meta (\<lambda>m. m\<lparr>oma_DeletionGracePeriodSeconds := Some v\<rparr>)
       (ensureObjectMetaApplyConfigurationExists b)"

text \<open>Entries of a Go map in the order of the range loop.  The map is made only when there
  is something to put in it; writing to a nil map would panic.\<close>

definition put_entries ::
  "(string \<times> string) list \<Rightarrow> (string \<rightharpoonup> string) option \<Rightarrow> (string \<rightharpoonup> string) option outcome" where
  "put_entries entries labels =
     (let labels = (if labels = None \<and> length entries > 0 then Some Map.empty else labels)
      in for_range (\<lambda>i (k, v) ls. and_then (deref ls) (\<lambda>m. Ok (Some (m(k \<mapsto> v))))) 0 entries labels)"

definition WithLabels :: "(string \<times> string) list \<Rightarrow> ('t, 'r, 's) setter" where
  "WithLabels entries b =
     (let b = ensureObjectMetaApplyConfigurationExists b in
      and_then (deref (gla_ObjectMeta b)) (\<lambda>m.
      and_then (put_entries entries (oma_Labels m)) (\<lambda>ls.
        Ok (b\<lparr>gla_ObjectMeta := Some (m\<lparr>oma_Labels := ls\<rparr>)\<rparr>))))"

definition WithAnnotations :: "(string \<times> string) list \<Rightarrow> ('t, 'r, 's) setter" where
  "WithAnnotations entries b =
     (let b = ensureObjectMetaApplyConfigurationExists b in
      and_then (deref (gla_ObjectMeta b)) (\<lambda>m.
      and_then (put_entries entries (oma_Annotations m)) (\<lambda>ls.
        Ok (b\<lparr>gla_ObjectMeta := Some (m\<lparr>oma_Annotations := ls\<rparr>)\<rparr>))))"

definition WithOwnerReferences :: "'r option list \<Rightarrow> ('t, 'r, 's) setter" where
  "WithOwnerReferences values b =
     for_range (\<lambda>i v b.
         case v of
           None \<Rightarrow> Panic (PanicWith (ErrorsNew ''nil value passed to WithOwnerReferences''))
         | Some r \<Rightarrow> with_meta (\<lambda>m. m\<lparr>oma_OwnerReferences := oma_OwnerReferences m @ [r]\<rparr>) b)
       0 values (ensureObjectMetaApplyConfigurationExists b)"

definition WithFinalizers :: "string list \<Rightarrow> ('t, 'r, 's) setter" where
  "WithFinalizers values b =
     for_range (\<lambda>i v. with_meta (\<lambda>m. m\<lparr>oma_Finalizers := oma_Finalizers m @ [v]\<rparr>))
       0 values (ensureObjectMetaApplyConfigurationExists b)"

definition WithSpec :: "'s option \<Rightarrow> ('t, 'r, 's) setter" where
  "WithSpec v b = Ok (b\<lparr>gla_Spec := v\<rparr>)"

definition GRPCListenerConfig :: "string \<Rightarrow> string \<Rightarrow> ('t, 'r, 's) GRPCListenerApply outcome" where
  "GRPCListenerConfig name namespace =
     and_then (WithName name \<lparr>gla_Kind = None, gla_APIVersion = None, gla_ObjectMeta = None, gla_Spec = None\<rparr>)
       (\<lambda>b. and_then (WithConfigNamespace namespace b)
       (\<lambda>b. and_then (WithKind ''GRPCListener'' b) (WithAPIVersion ''api.gtc.dev/v1alpha1'')))"

section \<open>The typed client\<close>

text \<open>Options of a list or watch: the timeout in seconds is an \<^verbatim>\<open>int64\<close>, the rest of the struct
  is \<open>'o\<close>.\<close>

record 'o ListOptions =
  lso_TimeoutSeconds :: "64 word option"
  lso_Watch :: bool
  lso_rest :: 'o

datatype rest_verb = GET | POST | PUT | DELETE | PATCH string

datatype ('p, 'o) rest_params = NoParams | OptionParams 'p | ListParams "'o ListOptions"

datatype 'p rest_body = NoBody | ListenerBody GRPCListener | OptionsBody 'p | DataBody "8 word list"

record ('p, 'o) rest_request =
  rr_verb :: rest_verb
  rr_namespace :: string
  rr_resource :: string
  rr_name :: "string option"
  rr_subresources :: "string list"
  rr_params :: "('p, 'o) rest_params"
  rr_timeout :: "64 word"
  rr_body :: "'p rest_body"

text \<open>A client for a namespace.  The methods return the request they build and hand to the REST client.\<close>

definition rest_to :: "string \<Rightarrow> rest_verb \<Rightarrow> ('p, 'o) rest_request" where
  "rest_to ns verb = \<lparr>rr_verb = verb, rr_namespace = ns, rr_resource = ''grpclisteners'', rr_name = None,
     rr_subresources = [], rr_params = NoParams, rr_timeout = 0, rr_body = NoBody\<rparr>"

text \<open>\<^verbatim>\<open>time.Duration(*opts.TimeoutSeconds) * time.Second\<close>, an \<^verbatim>\<open>int64\<close> product.\<close>

definition list_timeout :: "'o ListOptions \<Rightarrow> 64 word" where
  "list_timeout opts = (case lso_TimeoutSeconds opts of None \<Rightarrow> 0 | Some n \<Rightarrow> n * 1000000000)"

definition client_Get :: "string \<Rightarrow> string \<Rightarrow> 'p \<Rightarrow> ('p, 'o) rest_request" where
  "client_Get ns name options = (rest_to ns GET)\<lparr>rr_name := Some name, rr_params := OptionParams options\<rparr>"

definition client_List :: "string \<Rightarrow> 'o ListOptions \<Rightarrow> ('p, 'o) rest_request" where
  "client_List ns opts = (rest_to ns GET)\<lparr>rr_params := ListParams opts, rr_timeout := list_timeout opts\<rparr>"

definition client_Watch :: "string \<Rightarrow> 'o ListOptions \<Rightarrow> ('p, 'o) rest_request" where
  "client_Watch ns opts =
     (rest_to ns GET)\<lparr>rr_params := ListParams (opts\<lparr>lso_Watch := True\<rparr>), rr_timeout := list_timeout opts\<rparr>"

text \<open>A nil listener is no body: the request builder of client-go looks for nil pointers.\<close>

definition client_Create :: "string \<Rightarrow> GRPCListener option \<Rightarrow> 'p \<Rightarrow> ('p, 'o) rest_request" where
  "client_Create ns lis opts = (rest_to ns POST)\<lparr>rr_params := OptionParams opts,
     rr_body := (case lis of None \<Rightarrow> NoBody | Some l \<Rightarrow> ListenerBody l)\<rparr>"

definition client_Update :: "string \<Rightarrow> GRPCListener option \<Rightarrow> 'p \<Rightarrow> ('p, 'o) rest_request outcome" where
  "client_Update ns lis opts =
     and_then (deref lis) (\<lambda>l.
       Ok ((rest_to ns PUT)\<lparr>rr_name := Some (lis_Name l), rr_params := OptionParams opts,
             rr_body := ListenerBody l\<rparr>))"

definition client_Delete :: "string \<Rightarrow> string \<Rightarrow> 'p \<Rightarrow> ('p, 'o) rest_request" where
  "client_Delete ns name opts = (rest_to ns DELETE)\<lparr>rr_name := Some name, rr_body := OptionsBody opts\<rparr>"

definition client_DeleteCollection :: "string \<Rightarrow> 'p \<Rightarrow> 'o ListOptions \<Rightarrow> ('p, 'o) rest_request" where
  "client_DeleteCollection ns opts listOpts =
     (rest_to ns DELETE)\<lparr>rr_params := ListParams listOpts, rr_timeout := list_timeout listOpts,
       rr_body := OptionsBody opts\<rparr>"

definition client_Patch ::
  "string \<Rightarrow> string \<Rightarrow> string \<Rightarrow> 8 word list \<Rightarrow> 'p \<Rightarrow> string list \<Rightarrow> ('p, 'o) rest_request" where
  "client_Patch ns name pt data opts subresources =
     (rest_to ns (PATCH pt))\<lparr>rr_name := Some name, rr_subresources := subresources,
       rr_params := OptionParams opts, rr_body := DataBody data\<rparr>"

text \<open>\<^verbatim>\<open>gRPCListener.Name\<close> is a promoted field: it reads through the embedded pointer.  \<open>marshal\<close> is
  \<^verbatim>\<open>json.Marshal\<close>, \<open>toPatch\<close> is \<^verbatim>\<open>ToPatchOptions\<close>.\<close>

definition client_Apply ::
  "(('t, 'r, 's) GRPCListenerApply \<Rightarrow> go_error + 8 word list) \<Rightarrow> ('a \<Rightarrow> 'p) \<Rightarrow> string \<Rightarrow>
     ('t, 'r, 's) GRPCListenerApply option \<Rightarrow> 'a \<Rightarrow> ('p, 'o) rest_request outcome" where
  "client_Apply marshal toPatch ns cfg opts =
     (case cfg of
        None \<Rightarrow> Err (ErrorsNew ''gRPCListener provided to Apply must not be nil'')
      | Some b \<Rightarrow>
          and_then (of_lib (marshal b)) (\<lambda>data.
          and_then (deref (gla_ObjectMeta b)) (\<lambda>m.
            (case oma_Name m of
               None \<Rightarrow> Err (ErrorsNew ''gRPCListener.Name must be provided to Apply'')
             | Some name \<Rightarrow>
                 Ok ((rest_to ns (PATCH ''application/apply-patch+yaml''))\<lparr>rr_name := Some name,
                       rr_params := OptionParams (toPatch opts), rr_body := DataBody data\<rparr>)))))"

section \<open>The list of the fake client\<close>

text \<open>\<open>label\<close> is the selector of the options; \<open>labels_of\<close> reads the labels of an item.\<close>

definition fake_List ::
  "('l \<Rightarrow> string \<rightharpoonup> string) \<Rightarrow> ((string \<rightharpoonup> string) \<Rightarrow> bool) option \<Rightarrow> 'l list option \<Rightarrow> 'l list option" where
  "fake_List labels_of label items =
     map_option (\<lambda>xs.
       let sel = (case label of None \<Rightarrow> (\<lambda>_. True) | Some p \<Rightarrow> p)
       in fold (\<lambda>item acc. if sel (labels_of item) then acc @ [item] else acc) xs []) items"

section \<open>Chains of setters\<close>

datatype ('t, 'r, 's) setter_call =
    CallKind string
  | CallAPIVersion string
  | CallName string
  | CallGenerateName string
  | CallNamespace string
  | CallUID string
  | CallResourceVersion string
  | CallGeneration int
  | CallCreationTimestamp 't
  | CallDeletionTimestamp 't
  | CallDeletionGracePeriodSeconds int
  | CallLabels "(string \<times> string) list"
  | CallAnnotations "(string \<times> string) list"
  | CallOwnerReferences "'r option list"
  | CallFinalizers "string list"
  | CallSpec "'s option"

fun run_call :: "('t, 'r, 's) setter_call \<Rightarrow> ('t, 'r, 's) setter" where
  "run_call (CallKind v) = WithKind v"
| "run_call (CallAPIVersion v) = WithAPIVersion v"
| "run_call (CallName v) = WithName v"
| "run_call (CallGenerateName v) = WithGenerateName v"
| "run_call (CallNamespace v) = WithConfigNamespace v"
| "run_call (CallUID v) = WithUID v"
| "run_call (CallResourceVersion v) = WithResourceVersion v"
| "run_call (CallGeneration v) = WithGeneration v"
| "run_call (CallCreationTimestamp v) = WithCreationTimestamp v"
| "run_call (CallDeletionTimestamp v) = WithDeletionTimestamp v"
| "run_call (CallDeletionGracePeriodSeconds v) = WithDeletionGracePeriodSeconds v"
| "run_call (CallLabels es) = WithLabels es"
| "run_call (CallAnnotations es) = WithAnnotations es"
| "run_call (CallOwnerReferences rs) = WithOwnerReferences rs"
| "run_call (CallFinalizers vs) = WithFinalizers vs"
| "run_call (CallSpec v) = WithSpec v"

text \<open>The name and the labels a chain leaves behind, and the one way a chain can panic.\<close>

fun name_after :: "('t, 'r, 's) setter_call \<Rightarrow> string \<Rightarrow> string" where
  "name_after (CallName v) nm = v"
| "name_after c nm = nm"

fun labels_after :: "('t, 'r, 's) setter_call \<Rightarrow> (string \<rightharpoonup> string) \<Rightarrow> (string \<rightharpoonup> string)" where
  "labels_after (CallLabels es) ls = ls ++ map_of (rev es)"
| "labels_after c ls = ls"

fun nil_reference :: "('t, 'r, 's) setter_call \<Rightarrow> bool" where
  "nil_reference (CallOwnerReferences rs) = (None \<in> set rs)"
| "nil_reference c = False"

definition label_map :: "(string \<rightharpoonup> string) option \<Rightarrow> (string \<rightharpoonup> string)" where
  "label_map ls = (case ls of None \<Rightarrow> Map.empty | Some m \<Rightarrow> m)"

lemma put_entries_Ok:
  "\<exists>ls'. put_entries es ls = Ok ls' \<and> label_map ls' = label_map ls ++ map_of (rev es)"
proof -
  have loop: "for_range (\<lambda>i (k, v) ls. and_then (deref ls) (\<lambda>m. Ok (Some (m(k \<mapsto> v))))) i es (Some m) =
      Ok (Some (m ++ map_of (rev es)))" for i m
    by (induction es arbitrary: i m) (auto simp: map_add_def fun_eq_iff split: option.splits)
  show ?thesis
  proof (cases "ls = None \<and> es = []")
    case True
    then show ?thesis by (simp add: put_entries_def)
  next
    case False
    then obtain m where "(if ls = None \<and> length es > 0 then Some Map.empty else ls) = Some m"
        "m = label_map ls"
      by (cases ls) (auto simp: label_map_def)
    then show ?thesis using loop [of 0 m] by (simp add: put_entries_def label_map_def)
  qed
qed

text \<open>What a chain keeps: the metadata is there, with this name and these labels.\<close>

definition has_meta :: "string \<Rightarrow> (string \<rightharpoonup> string) \<Rightarrow> ('t, 'r, 's) GRPCListenerApply \<Rightarrow> bool" where
  "has_meta nm ls b \<longleftrightarrow>
     (\<exists>m. gla_ObjectMeta b = Some m \<and> oma_Name m = Some nm \<and> label_map (oma_Labels m) = ls)"

lemma has_meta_ensure: "has_meta nm ls b \<Longrightarrow> ensureObjectMetaApplyConfigurationExists b = b"
  by (auto simp: has_meta_def ensureObjectMetaApplyConfigurationExists_def)

lemma owner_references_loop:
  assumes "None \<notin> set rs" and "has_meta nm ls b"
  shows "\<exists>b'. for_range (\<lambda>i v b.
         case v of
           None \<Rightarrow> Panic (PanicWith (ErrorsNew ''nil value passed to WithOwnerReferences''))
         | Some r \<Rightarrow> with_meta (\<lambda>m. m\<lparr>oma_OwnerReferences := oma_OwnerReferences m @ [r]\<rparr>) b) i rs b = Ok b' \<and>
       has_meta nm ls b'"
  using assms
proof (induction rs arbitrary: i b)
  case (Cons v rs)
  then obtain r where r: "v = Some r" by (cases v) auto
  obtain b1 where "with_meta (\<lambda>m. m\<lparr>oma_OwnerReferences := oma_OwnerReferences m @ [r]\<rparr>) b = Ok b1"
      "has_meta nm ls b1"
    using Cons.prems(2) by (auto simp: has_meta_def with_meta_def)
  then show ?case using Cons.IH [of b1 "Suc i"] Cons.prems(1) r by simp
qed simp

lemma finalizers_loop:
  assumes "has_meta nm ls b"
  shows "\<exists>b'. for_range (\<lambda>i v. with_meta (\<lambda>m. m\<lparr>oma_Finalizers := oma_Finalizers m @ [v]\<rparr>)) i vs b = Ok b' \<and>
    has_meta nm ls b'"
  using assms
proof (induction vs arbitrary: i b)
  case (Cons v vs)
  obtain b1 where "with_meta (\<lambda>m. m\<lparr>oma_Finalizers := oma_Finalizers m @ [v]\<rparr>) b = Ok b1" "has_meta nm ls b1"
    using Cons.prems by (auto simp: has_meta_def with_meta_def)
  then show ?case using Cons.IH [of b1 "Suc i"] by simp
qed simp

lemmas setter_defs = WithKind_def WithAPIVersion_def WithName_def WithGenerateName_def
  WithConfigNamespace_def WithUID_def WithResourceVersion_def WithGeneration_def
  WithCreationTimestamp_def WithDeletionTimestamp_def WithDeletionGracePeriodSeconds_def WithSpec_def

lemma run_call_meta:
  assumes "has_meta nm ls b" and "\<not> nil_reference c"
  shows "\<exists>b'. run_call c b = Ok b' \<and> has_meta (name_after c nm) (labels_after c ls) b'"
proof (cases c)
  case (CallLabels es)
  from assms(1) obtain m where m: "gla_ObjectMeta b = Some m" "oma_Name m = Some nm"
    "label_map (oma_Labels m) = ls" by (auto simp: has_meta_def)
  then show ?thesis
    using put_entries_Ok [of es "oma_Labels m"] CallLabels
    by (auto simp: WithLabels_def has_meta_ensure [OF assms(1)] has_meta_def)
next
  case (CallAnnotations es)
  from assms(1) obtain m where m: "gla_ObjectMeta b = Some m" "oma_Name m = Some nm"
    "label_map (oma_Labels m) = ls" by (auto simp: has_meta_def)
  then show ?thesis
    using put_entries_Ok [of es "oma_Annotations m"] CallAnnotations
    by (auto simp: WithAnnotations_def has_meta_ensure [OF assms(1)] has_meta_def)
next
  case (CallOwnerReferences rs)
  then show ?thesis
    using owner_references_loop [OF _ assms(1)] assms(2)
    by (simp add: WithOwnerReferences_def has_meta_ensure [OF assms(1)])
next
  case (CallFinalizers vs)
  then show ?thesis
    using finalizers_loop [OF assms(1)]
    by (simp add: WithFinalizers_def has_meta_ensure [OF assms(1)])
qed (use assms(1) in \<open>auto simp: setter_defs has_meta_ensure [OF assms(1)] has_meta_def with_meta_def\<close>)

lemma GRPCListenerConfig_meta:
  "\<exists>b. GRPCListenerConfig nm ns = Ok b \<and> has_meta nm Map.empty b"
  by (simp add: GRPCListenerConfig_def setter_defs ensureObjectMetaApplyConfigurationExists_def
      with_meta_def empty_meta_def has_meta_def label_map_def)

lemma chain_meta:
  assumes "has_meta nm ls b" and "\<forall>c \<in> set calls. \<not> nil_reference c"
  shows "\<exists>b'. each run_call calls b = Ok b' \<and> has_meta (fold name_after calls nm) (fold labels_after calls ls) b'"
  using assms
proof (induction calls arbitrary: nm ls b)
  case (Cons c calls)
  obtain b1 where "run_call c b = Ok b1" "has_meta (name_after c nm) (labels_after c ls) b1"
    using run_call_meta [OF Cons.prems(1)] Cons.prems(2) by auto
  then show ?case using Cons.IH [of _ _ b1] Cons.prems(2) by simp
qed simp

section \<open>Properties\<close>

text \<open>A configuration built by the constructor and any chain of setters can be applied:
  unless an owner reference is nil, no call of the chain panics, the labels are
  those of all label calls with the last value for each key, and \<^verbatim>\<open>Apply\<close> sends the
  encoded configuration as an apply patch to the object of the last name set, in the
  client's namespace.\<close>

lemma built_configuration_applies:
  assumes "\<forall>c \<in> set calls. \<not> nil_reference c" and "\<And>b. marshal b = Inr (enc b)"
  shows "\<exists>b m. and_then (GRPCListenerConfig nm ns) (each run_call calls) = Ok b \<and>
    gla_ObjectMeta b = Some m \<and> label_map (oma_Labels m) = fold labels_after calls Map.empty \<and>
    client_Apply marshal toPatch cns (Some b) opts =
      Ok ((rest_to cns (PATCH ''application/apply-patch+yaml''))
            \<lparr>rr_name := Some (fold name_after calls nm), rr_params := OptionParams (toPatch opts),
             rr_body := DataBody (enc b)\<rparr>)"
proof -
  obtain b0 :: "('a, 'b, 'c) GRPCListenerApply" where
    b0: "GRPCListenerConfig nm ns = Ok b0" "has_meta nm Map.empty b0"
    using GRPCListenerConfig_meta by blast
  from chain_meta [OF b0(2) assms(1)] obtain b where
    b: "each run_call calls b0 = Ok b" "has_meta (fold name_after calls nm) (fold labels_after calls Map.empty) b"
    by blast
  then show ?thesis
    using b0(1) assms(2) by (auto simp: client_Apply_def has_meta_def)
qed

text \<open>\<^verbatim>\<open>Apply\<close> of a configuration without metadata panics: its check for a missing name reads
  the name through the embedded pointer, so the error it should return is reached only
  when the metadata is present without a name.\<close>

lemma Apply_without_metadata_panics:
  assumes "gla_ObjectMeta b = None" and "marshal b = Inr data"
  shows "client_Apply marshal toPatch ns (Some b) opts = Panic NilDereference \<and>
    client_Apply marshal toPatch ns None opts = Err (ErrorsNew ''gRPCListener provided to Apply must not be nil'')"
  using assms by (simp add: client_Apply_def deref_def)

text \<open>The timeout of a list wraps around at 64 bits: from about 9.2 billion seconds on it is
  not the duration asked for.\<close>

lemma list_timeout_exact:
  assumes "lso_TimeoutSeconds opts = Some n" and "unat n * 1000000000 < 2 ^ 63"
  shows "unat (list_timeout opts) = unat n * 1000000000"
  using assms by (simp add: list_timeout_def unat_mult_lem [THEN iffD1])

text \<open>The fake's list is the filter by the selector.\<close>

lemma fake_List_filter:
  "fake_List labels_of label (Some xs) =
     Some (filter (\<lambda>x. case label of None \<Rightarrow> True | Some p \<Rightarrow> p (labels_of x)) xs)"
proof -
  have "fold (\<lambda>item acc. if p item then acc @ [item] else acc) ys acc = acc @ filter p ys" for p ys acc
    by (induction ys arbitrary: acc) auto
  from this [of "\<lambda>x. case label of None \<Rightarrow> True | Some p \<Rightarrow> p (labels_of x)" xs "[]"]
  show ?thesis by (cases label) (simp_all add: fake_List_def)
qed

section \<open>Concrete configurations\<close>

definition sample_calls :: "(unit, unit, unit) setter_call list" where
  "sample_calls = [CallLabels [(''app'', ''echo'')], CallName ''echo-v2'', CallOwnerReferences [Some ()],
     CallLabels [(''app'', ''echo-v2''), (''tier'', ''demo'')]]"

lemma sample_calls_apply:
  "\<exists>b m. and_then (GRPCListenerConfig ''echo'' ''default'') (each run_call sample_calls) = Ok b \<and>
    gla_ObjectMeta b = Some m \<and> label_map (oma_Labels m) ''app'' = Some ''echo-v2'' \<and>
    client_Apply (\<lambda>b. Inr []) id ''default'' (Some b) () =
      (Ok ((rest_to ''default'' (PATCH ''application/apply-patch+yaml''))
            \<lparr>rr_name := Some ''echo-v2'', rr_params := OptionParams (), rr_body := DataBody []\<rparr>) ::
       (unit, unit) rest_request outcome)"
proof -
  have "\<forall>c \<in> set sample_calls. \<not> nil_reference c" by (simp add: sample_calls_def)
  from built_configuration_applies [OF this, of "\<lambda>b. Inr []" "\<lambda>b. []" "''echo''" "''default''" id "''default''" "()"]
  obtain b m where "and_then (GRPCListenerConfig ''echo'' ''default'') (each run_call sample_calls) = Ok b"
    "gla_ObjectMeta b = Some m" "label_map (oma_Labels m) = fold labels_after sample_calls Map.empty"
    "client_Apply (\<lambda>b. Inr []) id ''default'' (Some b) () =
      (Ok ((rest_to ''default'' (PATCH ''application/apply-patch+yaml''))
            \<lparr>rr_name := Some (fold name_after sample_calls ''echo''), rr_params := OptionParams (),
             rr_body := DataBody []\<rparr>) :: (unit, unit) rest_request outcome)"
    by auto
  then show ?thesis
    by (intro exI [of _ b] exI [of _ m]) (simp add: sample_calls_def map_add_def)
qed

definition bare_config :: "(unit, unit, unit) GRPCListenerApply" where
  "bare_config = \<lparr>gla_Kind = Some ''GRPCListener'', gla_APIVersion = None, gla_ObjectMeta = None, gla_Spec = None\<rparr>"

lemma bare_config_panics:
  "(client_Apply (\<lambda>b. Inr []) id ''default'' (Some bare_config) () :: (unit, unit) rest_request outcome) =
     Panic NilDereference"
proof -
  have "gla_ObjectMeta bare_config = None" by (simp add: bare_config_def)
  then show ?thesis by (rule conjunct1 [OF Apply_without_metadata_panics]) simp
qed

end
