(* ===== verification/Apply_Config.thy ===== *)
theory Apply_Config
  imports Client_Api
begin

text \<open>
  The generated apply configurations of the structs inside a listener's spec,
  \<^verbatim>\<open>client/applyconfiguration/gtc/v1alpha1\<close>: one record per struct, in which every field is a pointer or a
  slice, its constructor and its \<^verbatim>\<open>With\<close> setters. A setter returns its receiver, so a chain is a
  composition; the model passes the receiver along. \<open>denote\<close> is the API value a configuration stands for
  (an absent field reads as the zero value of its type) and \<open>build\<close> the obvious chain of setters for an
  API value; \<open>config_builder\<close> says that the chain succeeds and stands for the value it was built from, and
  is interpreted for every struct.
\<close>

named_theorems config_defs \<open>constructors and setters\<close>

definition from_ptr :: "'a \<Rightarrow> 'a option \<Rightarrow> 'a" where [config_defs]:
  "from_ptr z p = (case p of None \<Rightarrow> z | Some v \<Rightarrow> v)"

text \<open>A setter that is called only when there is a value.\<close>

definition opt_call :: "('a \<Rightarrow> 'b \<Rightarrow> 'b) \<Rightarrow> 'a option \<Rightarrow> 'b \<Rightarrow> 'b" where
  "opt_call f v b = (case v of None \<Rightarrow> b | Some x \<Rightarrow> f x b)"

definition build_option :: "('v \<Rightarrow> 'c outcome) \<Rightarrow> 'v option \<Rightarrow> 'c option outcome" where
  "build_option build v = (case v of None \<Rightarrow> Ok None | Some x \<Rightarrow> and_then (build x) (\<lambda>c. Ok (Some c)))"

definition or_ptr :: "'a option \<Rightarrow> 'a option \<Rightarrow> 'a option" where
  "or_ptr v p = (case v of None \<Rightarrow> p | Some x \<Rightarrow> Some x)"

lemma or_ptr_None [simp]: "or_ptr v None = v"
  by (cases v) (simp_all add: or_ptr_def)

text \<open>
  The loop of the setters of a slice of structs: a nil argument panics, any other is appended to the
  field that \<open>upd\<close> updates.
\<close>

definition append_values ::
    "string \<Rightarrow> (('c list \<Rightarrow> 'c list) \<Rightarrow> 'b \<Rightarrow> 'b) \<Rightarrow> 'c option list \<Rightarrow> 'b \<Rightarrow> 'b outcome" where
  "append_values setter upd values b =
     for_range (\<lambda>i v b.
         case v of
           None \<Rightarrow> Panic (PanicWith (ErrorsNew (''nil value passed to '' @ setter)))
         | Some x \<Rightarrow> Ok (upd (\<lambda>xs. xs @ [x]) b)) 0 values b"

locale slice_field =
  fixes upd :: "('c list \<Rightarrow> 'c list) \<Rightarrow> 'b \<Rightarrow> 'b"
  assumes upd_upd: "upd f (upd g b) = upd (\<lambda>xs. f (g xs)) b"
    and upd_same: "upd (\<lambda>xs. xs) b = b"
begin

lemma append_all: "append_values setter upd (map Some xs) b = Ok (upd (\<lambda>ys. ys @ xs) b)"
proof -
  have "for_range (\<lambda>i v b. case v of None \<Rightarrow> Panic (PanicWith (ErrorsNew (''nil value passed to '' @ setter)))
      | Some x \<Rightarrow> Ok (upd (\<lambda>xs. xs @ [x]) b)) i (map Some xs) b = Ok (upd (\<lambda>ys. ys @ xs) b)" for i
    by (induction xs arbitrary: i b) (simp_all add: upd_upd upd_same)
  then show ?thesis by (simp add: append_values_def)
qed

text \<open>A nil argument panics wherever it stands.\<close>

lemma append_nil: "None \<in> set vs \<Longrightarrow> is_Panic (append_values setter upd vs b)"
proof -
  assume "None \<in> set vs"
  then have "is_Panic (for_range (\<lambda>i v b. case v of None \<Rightarrow> Panic (PanicWith (ErrorsNew (''nil value passed to '' @ setter)))
      | Some x \<Rightarrow> Ok (upd (\<lambda>xs. xs @ [x]) b)) i vs b)" for i
    by (induction vs arbitrary: i b) (auto split: option.splits)
  then show ?thesis by (simp add: append_values_def)
qed

end

locale config_builder =
  fixes build :: "'v \<Rightarrow> 'c outcome"
    and denote :: "'c \<Rightarrow> 'v"
  assumes round_trip: "\<exists>c. build v = Ok c \<and> denote c = v"
begin

lemma builds_option: "\<exists>c. build_option build v = Ok c \<and> map_option denote c = v"
proof (cases v)
  case (Some x)
  obtain c where "build x = Ok c" "denote c = x" using round_trip by blast
  then show ?thesis by (simp add: build_option_def Some)
qed (simp add: build_option_def)

lemma builds_list: "\<exists>cs. traverse (\<lambda>_. build) i vs = Ok cs \<and> map denote cs = vs"
proof (induction vs arbitrary: i)
  case (Cons v vs)
  obtain c where "build v = Ok c" "denote c = v" using round_trip by blast
  moreover obtain cs where "traverse (\<lambda>_. build) (Suc i) vs = Ok cs" "map denote cs = vs" using Cons.IH by blast
  ultimately show ?case by simp
qed simp

end

section \<open>regexmatcher.go\<close>

record RegexMatcherApply =
  rxa_Regex :: "string option"
  rxa_Engine :: "string option"

definition RegexMatcher_config :: RegexMatcherApply where [config_defs]:
  "RegexMatcher_config =
     \<lparr>rxa_Regex = None,
      rxa_Engine = None\<rparr>"

definition RegexMatcher_WithRegex :: "string \<Rightarrow> RegexMatcherApply \<Rightarrow> RegexMatcherApply" where [config_defs]:
  "RegexMatcher_WithRegex v b = b\<lparr>rxa_Regex := Some v\<rparr>"

definition RegexMatcher_WithEngine :: "string \<Rightarrow> RegexMatcherApply \<Rightarrow> RegexMatcherApply" where [config_defs]:
  "RegexMatcher_WithEngine v b = b\<lparr>rxa_Engine := Some v\<rparr>"

definition denote_RegexMatcher :: "RegexMatcherApply \<Rightarrow> RegexMatcher" where
  "denote_RegexMatcher c =
     \<lparr>rx_Regex = from_ptr [] (rxa_Regex c),
      rx_Engine = from_ptr [] (rxa_Engine c)\<rparr>"

definition build_RegexMatcher :: "RegexMatcher \<Rightarrow> RegexMatcherApply outcome" where
  "build_RegexMatcher v =
     Ok (RegexMatcher_WithEngine (rx_Engine v)
       (RegexMatcher_WithRegex (rx_Regex v)
       RegexMatcher_config))"

interpretation RegexMatcher_builder: config_builder build_RegexMatcher denote_RegexMatcher
proof
  show "\<exists>c. build_RegexMatcher v = Ok c \<and> denote_RegexMatcher c = v" for v
    by (auto simp: build_RegexMatcher_def denote_RegexMatcher_def config_defs)
qed

section \<open>rangematcher.go\<close>

record RangeMatcherApply =
  rga_Start :: "int64 option"
  rga_End :: "int64 option"

definition RangeMatcher_config :: RangeMatcherApply where [config_defs]:
  "RangeMatcher_config =
     \<lparr>rga_Start = None,
      rga_End = None\<rparr>"

definition RangeMatcher_WithStart :: "int64 \<Rightarrow> RangeMatcherApply \<Rightarrow> RangeMatcherApply" where [config_defs]:
  "RangeMatcher_WithStart v b = b\<lparr>rga_Start := Some v\<rparr>"

definition RangeMatcher_WithEnd :: "int64 \<Rightarrow> RangeMatcherApply \<Rightarrow> RangeMatcherApply" where [config_defs]:
  "RangeMatcher_WithEnd v b = b\<lparr>rga_End := Some v\<rparr>"

definition denote_RangeMatcher :: "RangeMatcherApply \<Rightarrow> RangeMatcher" where
  "denote_RangeMatcher c =
     \<lparr>rg_Start = from_ptr 0 (rga_Start c),
      rg_End = from_ptr 0 (rga_End c)\<rparr>"

definition build_RangeMatcher :: "RangeMatcher \<Rightarrow> RangeMatcherApply outcome" where
  "build_RangeMatcher v =
     Ok (RangeMatcher_WithEnd (rg_End v)
       (RangeMatcher_WithStart (rg_Start v)
       RangeMatcher_config))"

interpretation RangeMatcher_builder: config_builder build_RangeMatcher denote_RangeMatcher
proof
  show "\<exists>c. build_RangeMatcher v = Ok c \<and> denote_RangeMatcher c = v" for v
    by (auto simp: build_RangeMatcher_def denote_RangeMatcher_def config_defs)
qed

section \<open>pathmatcher.go\<close>

record PathMatcherApply =
  pma_Prefix :: "string option"
  pma_Path :: "string option"
  pma_Regex :: "RegexMatcherApply option"

definition PathMatcher_config :: PathMatcherApply where [config_defs]:
  "PathMatcher_config =
     \<lparr>pma_Prefix = None,
      pma_Path = None,
      pma_Regex = None\<rparr>"

definition PathMatcher_WithPrefix :: "string \<Rightarrow> PathMatcherApply \<Rightarrow> PathMatcherApply" where [config_defs]:
  "PathMatcher_WithPrefix v b = b\<lparr>pma_Prefix := Some v\<rparr>"

definition PathMatcher_WithPath :: "string \<Rightarrow> PathMatcherApply \<Rightarrow> PathMatcherApply" where [config_defs]:
  "PathMatcher_WithPath v b = b\<lparr>pma_Path := Some v\<rparr>"

definition PathMatcher_WithRegex :: "RegexMatcherApply option \<Rightarrow> PathMatcherApply \<Rightarrow> PathMatcherApply" where [config_defs]:
  "PathMatcher_WithRegex v b = b\<lparr>pma_Regex := v\<rparr>"

definition denote_PathMatcher :: "PathMatcherApply \<Rightarrow> PathMatcher" where
  "denote_PathMatcher c =
     \<lparr>pm_Prefix = from_ptr [] (pma_Prefix c),
      pm_Path = from_ptr [] (pma_Path c),
      pm_Regex = map_option denote_RegexMatcher (pma_Regex c)\<rparr>"

definition build_PathMatcher :: "PathMatcher \<Rightarrow> PathMatcherApply outcome" where
  "build_PathMatcher v =
     and_then (build_option build_RegexMatcher (pm_Regex v)) (\<lambda>x1.
     Ok (PathMatcher_WithRegex x1
       (PathMatcher_WithPath (pm_Path v)
       (PathMatcher_WithPrefix (pm_Prefix v)
       PathMatcher_config))))"

interpretation PathMatcher_builder: config_builder build_PathMatcher denote_PathMatcher
proof
  show "\<exists>c. build_PathMatcher v = Ok c \<and> denote_PathMatcher c = v" for v
    using RegexMatcher_builder.builds_option [of "pm_Regex v"]
    by (auto simp: build_PathMatcher_def denote_PathMatcher_def config_defs)
qed

section \<open>headermatcher.go\<close>

record HeaderMatcherApply =
  hma_Name :: "string option"
  hma_Exact :: "string option"
  hma_Regex :: "RegexMatcherApply option"
  hma_Range :: "RangeMatcherApply option"
  hma_Present :: "bool option"
  hma_Prefix :: "string option"
  hma_Suffix :: "string option"
  hma_Invert :: "bool option"

definition HeaderMatcher_config :: HeaderMatcherApply where [config_defs]:
  "HeaderMatcher_config =
     \<lparr>hma_Name = None,
      hma_Exact = None,
      hma_Regex = None,
      hma_Range = None,
      hma_Present = None,
      hma_Prefix = None,
      hma_Suffix = None,
      hma_Invert = None\<rparr>"

definition HeaderMatcher_WithName :: "string \<Rightarrow> HeaderMatcherApply \<Rightarrow> HeaderMatcherApply" where [config_defs]:
  "HeaderMatcher_WithName v b = b\<lparr>hma_Name := Some v\<rparr>"

definition HeaderMatcher_WithExact :: "string \<Rightarrow> HeaderMatcherApply \<Rightarrow> HeaderMatcherApply" where [config_defs]:
  "HeaderMatcher_WithExact v b = b\<lparr>hma_Exact := Some v\<rparr>"

definition HeaderMatcher_WithRegex :: "RegexMatcherApply option \<Rightarrow> HeaderMatcherApply \<Rightarrow> HeaderMatcherApply" where [config_defs]:
  "HeaderMatcher_WithRegex v b = b\<lparr>hma_Regex := v\<rparr>"

definition HeaderMatcher_WithRange :: "RangeMatcherApply option \<Rightarrow> HeaderMatcherApply \<Rightarrow> HeaderMatcherApply" where [config_defs]:
  "HeaderMatcher_WithRange v b = b\<lparr>hma_Range := v\<rparr>"

definition HeaderMatcher_WithPresent :: "bool \<Rightarrow> HeaderMatcherApply \<Rightarrow> HeaderMatcherApply" where [config_defs]:
  "HeaderMatcher_WithPresent v b = b\<lparr>hma_Present := Some v\<rparr>"

definition HeaderMatcher_WithPrefix :: "string \<Rightarrow> HeaderMatcherApply \<Rightarrow> HeaderMatcherApply" where [config_defs]:
  "HeaderMatcher_WithPrefix v b = b\<lparr>hma_Prefix := Some v\<rparr>"

definition HeaderMatcher_WithSuffix :: "string \<Rightarrow> HeaderMatcherApply \<Rightarrow> HeaderMatcherApply" where [config_defs]:
  "HeaderMatcher_WithSuffix v b = b\<lparr>hma_Suffix := Some v\<rparr>"

definition HeaderMatcher_WithInvert :: "bool \<Rightarrow> HeaderMatcherApply \<Rightarrow> HeaderMatcherApply" where [config_defs]:
  "HeaderMatcher_WithInvert v b = b\<lparr>hma_Invert := Some v\<rparr>"

definition denote_HeaderMatcher :: "HeaderMatcherApply \<Rightarrow> HeaderMatcher" where
  "denote_HeaderMatcher c =
     \<lparr>hm_Name = from_ptr [] (hma_Name c),
      hm_Exact = hma_Exact c,
      hm_Regex = map_option denote_RegexMatcher (hma_Regex c),
      hm_Range = map_option denote_RangeMatcher (hma_Range c),
      hm_Present = hma_Present c,
      hm_Prefix = hma_Prefix c,
      hm_Suffix = hma_Suffix c,
      hm_Invert = from_ptr False (hma_Invert c)\<rparr>"

definition build_HeaderMatcher :: "HeaderMatcher \<Rightarrow> HeaderMatcherApply outcome" where
  "build_HeaderMatcher v =
     and_then (build_option build_RegexMatcher (hm_Regex v)) (\<lambda>x1.
     and_then (build_option build_RangeMatcher (hm_Range v)) (\<lambda>x2.
     Ok (HeaderMatcher_WithInvert (hm_Invert v)
       (opt_call HeaderMatcher_WithSuffix (hm_Suffix v)
       (opt_call HeaderMatcher_WithPrefix (hm_Prefix v)
       (opt_call HeaderMatcher_WithPresent (hm_Present v)
       (HeaderMatcher_WithRange x2
       (HeaderMatcher_WithRegex x1
       (opt_call HeaderMatcher_WithExact (hm_Exact v)
       (HeaderMatcher_WithName (hm_Name v)
       HeaderMatcher_config))))))))))"

lemma HeaderMatcher_opt_Exact: "opt_call HeaderMatcher_WithExact v b = b\<lparr>hma_Exact := or_ptr v (hma_Exact b)\<rparr>"
  by (cases v) (simp_all add: opt_call_def or_ptr_def HeaderMatcher_WithExact_def)

lemma HeaderMatcher_opt_Present: "opt_call HeaderMatcher_WithPresent v b = b\<lparr>hma_Present := or_ptr v (hma_Present b)\<rparr>"
  by (cases v) (simp_all add: opt_call_def or_ptr_def HeaderMatcher_WithPresent_def)

lemma HeaderMatcher_opt_Prefix: "opt_call HeaderMatcher_WithPrefix v b = b\<lparr>hma_Prefix := or_ptr v (hma_Prefix b)\<rparr>"
  by (cases v) (simp_all add: opt_call_def or_ptr_def HeaderMatcher_WithPrefix_def)

lemma HeaderMatcher_opt_Suffix: "opt_call HeaderMatcher_WithSuffix v b = b\<lparr>hma_Suffix := or_ptr v (hma_Suffix b)\<rparr>"
  by (cases v) (simp_all add: opt_call_def or_ptr_def HeaderMatcher_WithSuffix_def)

interpretation HeaderMatcher_builder: config_builder build_HeaderMatcher denote_HeaderMatcher
proof
  show "\<exists>c. build_HeaderMatcher v = Ok c \<and> denote_HeaderMatcher c = v" for v
    using RegexMatcher_builder.builds_option [of "hm_Regex v"]
      RangeMatcher_builder.builds_option [of "hm_Range v"]
    by (auto simp: build_HeaderMatcher_def denote_HeaderMatcher_def config_defs HeaderMatcher_opt_Exact
        HeaderMatcher_opt_Present HeaderMatcher_opt_Prefix HeaderMatcher_opt_Suffix)
qed

section \<open>fraction.go\<close>

record FractionApply =
  fra_Numerator :: "uint32 option"
  fra_Denominator :: "string option"

definition Fraction_config :: FractionApply where [config_defs]:
  "Fraction_config =
     \<lparr>fra_Numerator = None,
      fra_Denominator = None\<rparr>"

definition Fraction_WithNumerator :: "uint32 \<Rightarrow> FractionApply \<Rightarrow> FractionApply" where [config_defs]:
  "Fraction_WithNumerator v b = b\<lparr>fra_Numerator := Some v\<rparr>"

definition Fraction_WithDenominator :: "string \<Rightarrow> FractionApply \<Rightarrow> FractionApply" where [config_defs]:
  "Fraction_WithDenominator v b = b\<lparr>fra_Denominator := Some v\<rparr>"

definition denote_Fraction :: "FractionApply \<Rightarrow> Fraction" where
  "denote_Fraction c =
     \<lparr>fr_Numerator = from_ptr 0 (fra_Numerator c),
      fr_Denominator = from_ptr [] (fra_Denominator c)\<rparr>"

definition build_Fraction :: "Fraction \<Rightarrow> FractionApply outcome" where
  "build_Fraction v =
     Ok (Fraction_WithDenominator (fr_Denominator v)
       (Fraction_WithNumerator (fr_Numerator v)
       Fraction_config))"

interpretation Fraction_builder: config_builder build_Fraction denote_Fraction
proof
  show "\<exists>c. build_Fraction v = Ok c \<and> denote_Fraction c = v" for v
    by (auto simp: build_Fraction_def denote_Fraction_def config_defs)
qed

section \<open>faultabort.go\<close>

record FaultAbortApply =
  faa_Code :: "uint32 option"
  faa_Metadata :: "MetadataFault option"
  faa_Percentage :: "FractionApply option"

definition FaultAbort_config :: FaultAbortApply where [config_defs]:
  "FaultAbort_config =
     \<lparr>faa_Code = None,
      faa_Metadata = None,
      faa_Percentage = None\<rparr>"

definition FaultAbort_WithCode :: "uint32 \<Rightarrow> FaultAbortApply \<Rightarrow> FaultAbortApply" where [config_defs]:
  "FaultAbort_WithCode v b = b\<lparr>faa_Code := Some v\<rparr>"

definition FaultAbort_WithMetadata :: "MetadataFault \<Rightarrow> FaultAbortApply \<Rightarrow> FaultAbortApply" where [config_defs]:
  "FaultAbort_WithMetadata v b = b\<lparr>faa_Metadata := Some v\<rparr>"

definition FaultAbort_WithPercentage :: "FractionApply option \<Rightarrow> FaultAbortApply \<Rightarrow> FaultAbortApply" where [config_defs]:
  "FaultAbort_WithPercentage v b = b\<lparr>faa_Percentage := v\<rparr>"

definition denote_FaultAbort :: "FaultAbortApply \<Rightarrow> FaultAbort" where
  "denote_FaultAbort c =
     \<lparr>fa_Code = faa_Code c,
      fa_Metadata = faa_Metadata c,
      fa_Percentage = map_option denote_Fraction (faa_Percentage c)\<rparr>"

definition build_FaultAbort :: "FaultAbort \<Rightarrow> FaultAbortApply outcome" where
  "build_FaultAbort v =
     and_then (build_option build_Fraction (fa_Percentage v)) (\<lambda>x1.
     Ok (FaultAbort_WithPercentage x1
       (opt_call FaultAbort_WithMetadata (fa_Metadata v)
       (opt_call FaultAbort_WithCode (fa_Code v)
       FaultAbort_config))))"

lemma FaultAbort_opt_Code: "opt_call FaultAbort_WithCode v b = b\<lparr>faa_Code := or_ptr v (faa_Code b)\<rparr>"
  by (cases v) (simp_all add: opt_call_def or_ptr_def FaultAbort_WithCode_def)

lemma FaultAbort_opt_Metadata: "opt_call FaultAbort_WithMetadata v b = b\<lparr>faa_Metadata := or_ptr v (faa_Metadata b)\<rparr>"
  by (cases v) (simp_all add: opt_call_def or_ptr_def FaultAbort_WithMetadata_def)

interpretation FaultAbort_builder: config_builder build_FaultAbort denote_FaultAbort
proof
  show "\<exists>c. build_FaultAbort v = Ok c \<and> denote_FaultAbort c = v" for v
    using Fraction_builder.builds_option [of "fa_Percentage v"]
    by (auto simp: build_FaultAbort_def denote_FaultAbort_def config_defs FaultAbort_opt_Code FaultAbort_opt_Metadata)
qed

section \<open>faultdelay.go\<close>

record FaultDelayApply =
  fda_Fixed :: "Duration option"
  fda_Metadata :: "MetadataFault option"
  fda_Percentage :: "FractionApply option"

definition FaultDelay_config :: FaultDelayApply where [config_defs]:
  "FaultDelay_config =
     \<lparr>fda_Fixed = None,
      fda_Metadata = None,
      fda_Percentage = None\<rparr>"

definition FaultDelay_WithFixed :: "Duration \<Rightarrow> FaultDelayApply \<Rightarrow> FaultDelayApply" where [config_defs]:
  "FaultDelay_WithFixed v b = b\<lparr>fda_Fixed := Some v\<rparr>"

definition FaultDelay_WithMetadata :: "MetadataFault \<Rightarrow> FaultDelayApply \<Rightarrow> FaultDelayApply" where [config_defs]:
  "FaultDelay_WithMetadata v b = b\<lparr>fda_Metadata := Some v\<rparr>"

definition FaultDelay_WithPercentage :: "FractionApply option \<Rightarrow> FaultDelayApply \<Rightarrow> FaultDelayApply" where [config_defs]:
  "FaultDelay_WithPercentage v b = b\<lparr>fda_Percentage := v\<rparr>"

definition denote_FaultDelay :: "FaultDelayApply \<Rightarrow> FaultDelay" where
  "denote_FaultDelay c =
     \<lparr>fd_Fixed = fda_Fixed c,
      fd_Metadata = fda_Metadata c,
      fd_Percentage = map_option denote_Fraction (fda_Percentage c)\<rparr>"

definition build_FaultDelay :: "FaultDelay \<Rightarrow> FaultDelayApply outcome" where
  "build_FaultDelay v =
     and_then (build_option build_Fraction (fd_Percentage v)) (\<lambda>x1.
     Ok (FaultDelay_WithPercentage x1
       (opt_call FaultDelay_WithMetadata (fd_Metadata v)
       (opt_call FaultDelay_WithFixed (fd_Fixed v)
       FaultDelay_config))))"

lemma FaultDelay_opt_Fixed: "opt_call FaultDelay_WithFixed v b = b\<lparr>fda_Fixed := or_ptr v (fda_Fixed b)\<rparr>"
  by (cases v) (simp_all add: opt_call_def or_ptr_def FaultDelay_WithFixed_def)

lemma FaultDelay_opt_Metadata: "opt_call FaultDelay_WithMetadata v b = b\<lparr>fda_Metadata := or_ptr v (fda_Metadata b)\<rparr>"
  by (cases v) (simp_all add: opt_call_def or_ptr_def FaultDelay_WithMetadata_def)

interpretation FaultDelay_builder: config_builder build_FaultDelay denote_FaultDelay
proof
  show "\<exists>c. build_FaultDelay v = Ok c \<and> denote_FaultDelay c = v" for v
    using Fraction_builder.builds_option [of "fd_Percentage v"]
    by (auto simp: build_FaultDelay_def denote_FaultDelay_def config_defs FaultDelay_opt_Fixed FaultDelay_opt_Metadata)
qed

section \<open>faultinterceptor.go\<close>

record FaultInterceptorApply =
  fia_Delay :: "FaultDelayApply option"
  fia_Abort :: "FaultAbortApply option"
  fia_MaxActiveFaults :: "uint32 option"
  fia_Headers :: "HeaderMatcherApply list"

definition FaultInterceptor_config :: FaultInterceptorApply where [config_defs]:
  "FaultInterceptor_config =
     \<lparr>fia_Delay = None,
      fia_Abort = None,
      fia_MaxActiveFaults = None,
      fia_Headers = []\<rparr>"

definition FaultInterceptor_WithDelay :: "FaultDelayApply option \<Rightarrow> FaultInterceptorApply \<Rightarrow> FaultInterceptorApply" where [config_defs]:
  "FaultInterceptor_WithDelay v b = b\<lparr>fia_Delay := v\<rparr>"

definition FaultInterceptor_WithAbort :: "FaultAbortApply option \<Rightarrow> FaultInterceptorApply \<Rightarrow> FaultInterceptorApply" where [config_defs]:
  "FaultInterceptor_WithAbort v b = b\<lparr>fia_Abort := v\<rparr>"

definition FaultInterceptor_WithMaxActiveFaults :: "uint32 \<Rightarrow> FaultInterceptorApply \<Rightarrow> FaultInterceptorApply" where [config_defs]:
  "FaultInterceptor_WithMaxActiveFaults v b = b\<lparr>fia_MaxActiveFaults := Some v\<rparr>"

definition FaultInterceptor_WithHeaders :: "HeaderMatcherApply option list \<Rightarrow> FaultInterceptorApply \<Rightarrow> FaultInterceptorApply outcome" where [config_defs]:
  "FaultInterceptor_WithHeaders = append_values ''WithHeaders'' fia_Headers_update"

definition denote_FaultInterceptor :: "FaultInterceptorApply \<Rightarrow> FaultInterceptor" where
  "denote_FaultInterceptor c =
     \<lparr>fi_Delay = map_option denote_FaultDelay (fia_Delay c),
      fi_Abort = map_option denote_FaultAbort (fia_Abort c),
      fi_MaxActiveFaults = fia_MaxActiveFaults c,
      fi_Headers = map denote_HeaderMatcher (fia_Headers c)\<rparr>"

definition build_FaultInterceptor :: "FaultInterceptor \<Rightarrow> FaultInterceptorApply outcome" where
  "build_FaultInterceptor v =
     and_then (build_option build_FaultDelay (fi_Delay v)) (\<lambda>x1.
     and_then (build_option build_FaultAbort (fi_Abort v)) (\<lambda>x2.
     and_then (traverse (\<lambda>_. build_HeaderMatcher) 0 (fi_Headers v)) (\<lambda>x3.
     and_then (Ok (opt_call FaultInterceptor_WithMaxActiveFaults (fi_MaxActiveFaults v)
       (FaultInterceptor_WithAbort x2
       (FaultInterceptor_WithDelay x1
       FaultInterceptor_config)))) (\<lambda>b.
     FaultInterceptor_WithHeaders (map Some x3) b))))"

lemma FaultInterceptor_opt_MaxActiveFaults: "opt_call FaultInterceptor_WithMaxActiveFaults v b = b\<lparr>fia_MaxActiveFaults := or_ptr v (fia_MaxActiveFaults b)\<rparr>"
  by (cases v) (simp_all add: opt_call_def or_ptr_def FaultInterceptor_WithMaxActiveFaults_def)

interpretation FaultInterceptor_Headers: slice_field fia_Headers_update
  by unfold_locales (simp_all add: comp_def)

interpretation FaultInterceptor_builder: config_builder build_FaultInterceptor denote_FaultInterceptor
proof
  show "\<exists>c. build_FaultInterceptor v = Ok c \<and> denote_FaultInterceptor c = v" for v
    using FaultDelay_builder.builds_option [of "fi_Delay v"]
      FaultAbort_builder.builds_option [of "fi_Abort v"]
      HeaderMatcher_builder.builds_list [of 0 "fi_Headers v"]
    by (auto simp: build_FaultInterceptor_def denote_FaultInterceptor_def config_defs
        FaultInterceptor_opt_MaxActiveFaults FaultInterceptor_Headers.append_all)
qed

section \<open>interceptor.go\<close>

record InterceptorApply =
  ica_Fault :: "FaultInterceptorApply option"

definition Interceptor_config :: InterceptorApply where [config_defs]:
  "Interceptor_config =
     \<lparr>ica_Fault = None\<rparr>"

definition Interceptor_WithFault :: "FaultInterceptorApply option \<Rightarrow> InterceptorApply \<Rightarrow> InterceptorApply" where [config_defs]:
  "Interceptor_WithFault v b = b\<lparr>ica_Fault := v\<rparr>"

definition denote_Interceptor :: "InterceptorApply \<Rightarrow> Interceptor" where
  "denote_Interceptor c =
     \<lparr>ic_Fault = map_option denote_FaultInterceptor (ica_Fault c)\<rparr>"

definition build_Interceptor :: "Interceptor \<Rightarrow> InterceptorApply outcome" where
  "build_Interceptor v =
     and_then (build_option build_FaultInterceptor (ic_Fault v)) (\<lambda>x1.
     Ok (Interceptor_WithFault x1
       Interceptor_config))"

interpretation Interceptor_builder: config_builder build_Interceptor denote_Interceptor
proof
  show "\<exists>c. build_Interceptor v = Ok c \<and> denote_Interceptor c = v" for v
    using FaultInterceptor_builder.builds_option [of "ic_Fault v"]
    by (auto simp: build_Interceptor_def denote_Interceptor_def config_defs)
qed

section \<open>metadatamatcher.go\<close>

record MetadataMatcherApply =
  mma_Name :: "string option"
  mma_Exact :: "string option"
  mma_Regex :: "RegexMatcherApply option"
  mma_Range :: "RangeMatcherApply option"
  mma_Present :: "bool option"
  mma_Prefix :: "string option"
  mma_Suffix :: "string option"
  mma_Invert :: "bool option"

definition MetadataMatcher_config :: MetadataMatcherApply where [config_defs]:
  "MetadataMatcher_config =
     \<lparr>mma_Name = None,
      mma_Exact = None,
      mma_Regex = None,
      mma_Range = None,
      mma_Present = None,
      mma_Prefix = None,
      mma_Suffix = None,
      mma_Invert = None\<rparr>"

definition MetadataMatcher_WithName :: "string \<Rightarrow> MetadataMatcherApply \<Rightarrow> MetadataMatcherApply" where [config_defs]:
  "MetadataMatcher_WithName v b = b\<lparr>mma_Name := Some v\<rparr>"

definition MetadataMatcher_WithExact :: "string \<Rightarrow> MetadataMatcherApply \<Rightarrow> MetadataMatcherApply" where [config_defs]:
  "MetadataMatcher_WithExact v b = b\<lparr>mma_Exact := Some v\<rparr>"

definition MetadataMatcher_WithRegex :: "RegexMatcherApply option \<Rightarrow> MetadataMatcherApply \<Rightarrow> MetadataMatcherApply" where [config_defs]:
  "MetadataMatcher_WithRegex v b = b\<lparr>mma_Regex := v\<rparr>"

definition MetadataMatcher_WithRange :: "RangeMatcherApply option \<Rightarrow> MetadataMatcherApply \<Rightarrow> MetadataMatcherApply" where [config_defs]:
  "MetadataMatcher_WithRange v b = b\<lparr>mma_Range := v\<rparr>"

definition MetadataMatcher_WithPresent :: "bool \<Rightarrow> MetadataMatcherApply \<Rightarrow> MetadataMatcherApply" where [config_defs]:
  "MetadataMatcher_WithPresent v b = b\<lparr>mma_Present := Some v\<rparr>"

definition MetadataMatcher_WithPrefix :: "string \<Rightarrow> MetadataMatcherApply \<Rightarrow> MetadataMatcherApply" where [config_defs]:
  "MetadataMatcher_WithPrefix v b = b\<lparr>mma_Prefix := Some v\<rparr>"

definition MetadataMatcher_WithSuffix :: "string \<Rightarrow> MetadataMatcherApply \<Rightarrow> MetadataMatcherApply" where [config_defs]:
  "MetadataMatcher_WithSuffix v b = b\<lparr>mma_Suffix := Some v\<rparr>"

definition MetadataMatcher_WithInvert :: "bool \<Rightarrow> MetadataMatcherApply \<Rightarrow> MetadataMatcherApply" where [config_defs]:
  "MetadataMatcher_WithInvert v b = b\<lparr>mma_Invert := Some v\<rparr>"

definition denote_MetadataMatcher :: "MetadataMatcherApply \<Rightarrow> MetadataMatcher" where
  "denote_MetadataMatcher c =
     \<lparr>mm_Name = from_ptr [] (mma_Name c),
      mm_Exact = mma_Exact c,
      mm_Regex = map_option denote_RegexMatcher (mma_Regex c),
      mm_Range = map_option denote_RangeMatcher (mma_Range c),
      mm_Present = mma_Present c,
      mm_Prefix = mma_Prefix c,
      mm_Suffix = mma_Suffix c,
      mm_Invert = from_ptr False (mma_Invert c)\<rparr>"

definition build_MetadataMatcher :: "MetadataMatcher \<Rightarrow> MetadataMatcherApply outcome" where
  "build_MetadataMatcher v =
     and_then (build_option build_RegexMatcher (mm_Regex v)) (\<lambda>x1.
     and_then (build_option build_RangeMatcher (mm_Range v)) (\<lambda>x2.
     Ok (MetadataMatcher_WithInvert (mm_Invert v)
       (opt_call MetadataMatcher_WithSuffix (mm_Suffix v)
       (opt_call MetadataMatcher_WithPrefix (mm_Prefix v)
       (opt_call MetadataMatcher_WithPresent (mm_Present v)
       (MetadataMatcher_WithRange x2
       (MetadataMatcher_WithRegex x1
       (opt_call MetadataMatcher_WithExact (mm_Exact v)
       (MetadataMatcher_WithName (mm_Name v)
       MetadataMatcher_config))))))))))"

lemma MetadataMatcher_opt_Exact: "opt_call MetadataMatcher_WithExact v b = b\<lparr>mma_Exact := or_ptr v (mma_Exact b)\<rparr>"
  by (cases v) (simp_all add: opt_call_def or_ptr_def MetadataMatcher_WithExact_def)

lemma MetadataMatcher_opt_Present: "opt_call MetadataMatcher_WithPresent v b = b\<lparr>mma_Present := or_ptr v (mma_Present b)\<rparr>"
  by (cases v) (simp_all add: opt_call_def or_ptr_def MetadataMatcher_WithPresent_def)

lemma MetadataMatcher_opt_Prefix: "opt_call MetadataMatcher_WithPrefix v b = b\<lparr>mma_Prefix := or_ptr v (mma_Prefix b)\<rparr>"
  by (cases v) (simp_all add: opt_call_def or_ptr_def MetadataMatcher_WithPrefix_def)

lemma MetadataMatcher_opt_Suffix: "opt_call MetadataMatcher_WithSuffix v b = b\<lparr>mma_Suffix := or_ptr v (mma_Suffix b)\<rparr>"
  by (cases v) (simp_all add: opt_call_def or_ptr_def MetadataMatcher_WithSuffix_def)

interpretation MetadataMatcher_builder: config_builder build_MetadataMatcher denote_MetadataMatcher
proof
  show "\<exists>c. build_MetadataMatcher v = Ok c \<and> denote_MetadataMatcher c = v" for v
    using RegexMatcher_builder.builds_option [of "mm_Regex v"]
      RangeMatcher_builder.builds_option [of "mm_Range v"]
    by (auto simp: build_MetadataMatcher_def denote_MetadataMatcher_def config_defs MetadataMatcher_opt_Exact
        MetadataMatcher_opt_Present MetadataMatcher_opt_Prefix MetadataMatcher_opt_Suffix)
qed

section \<open>methodmatcher.go\<close>

record MethodMatcherApply =
  mea_Namespace :: "string option"
  mea_Service :: "string option"
  mea_Method :: "string option"

definition MethodMatcher_config :: MethodMatcherApply where [config_defs]:
  "MethodMatcher_config =
     \<lparr>mea_Namespace = None,
      mea_Service = None,
      mea_Method = None\<rparr>"

definition MethodMatcher_WithNamespace :: "string \<Rightarrow> MethodMatcherApply \<Rightarrow> MethodMatcherApply" where [config_defs]:
  "MethodMatcher_WithNamespace v b = b\<lparr>mea_Namespace := Some v\<rparr>"

definition MethodMatcher_WithService :: "string \<Rightarrow> MethodMatcherApply \<Rightarrow> MethodMatcherApply" where [config_defs]:
  "MethodMatcher_WithService v b = b\<lparr>mea_Service := Some v\<rparr>"

definition MethodMatcher_WithMethod :: "string \<Rightarrow> MethodMatcherApply \<Rightarrow> MethodMatcherApply" where [config_defs]:
  "MethodMatcher_WithMethod v b = b\<lparr>mea_Method := Some v\<rparr>"

definition denote_MethodMatcher :: "MethodMatcherApply \<Rightarrow> MethodMatcher" where
  "denote_MethodMatcher c =
     \<lparr>me_Namespace = from_ptr [] (mea_Namespace c),
      me_Service = from_ptr [] (mea_Service c),
      me_Method = from_ptr [] (mea_Method c)\<rparr>"

definition build_MethodMatcher :: "MethodMatcher \<Rightarrow> MethodMatcherApply outcome" where
  "build_MethodMatcher v =
     Ok (MethodMatcher_WithMethod (me_Method v)
       (MethodMatcher_WithService (me_Service v)
       (MethodMatcher_WithNamespace (me_Namespace v)
       MethodMatcher_config)))"

interpretation MethodMatcher_builder: config_builder build_MethodMatcher denote_MethodMatcher
proof
  show "\<exists>c. build_MethodMatcher v = Ok c \<and> denote_MethodMatcher c = v" for v
    by (auto simp: build_MethodMatcher_def denote_MethodMatcher_def config_defs)
qed

section \<open>servicematcher.go\<close>

record ServiceMatcherApply =
  sma_Namespace :: "string option"
  sma_Service :: "string option"

definition ServiceMatcher_config :: ServiceMatcherApply where [config_defs]:
  "ServiceMatcher_config =
     \<lparr>sma_Namespace = None,
      sma_Service = None\<rparr>"

definition ServiceMatcher_WithNamespace :: "string \<Rightarrow> ServiceMatcherApply \<Rightarrow> ServiceMatcherApply" where [config_defs]:
  "ServiceMatcher_WithNamespace v b = b\<lparr>sma_Namespace := Some v\<rparr>"

definition ServiceMatcher_WithService :: "string \<Rightarrow> ServiceMatcherApply \<Rightarrow> ServiceMatcherApply" where [config_defs]:
  "ServiceMatcher_WithService v b = b\<lparr>sma_Service := Some v\<rparr>"

definition denote_ServiceMatcher :: "ServiceMatcherApply \<Rightarrow> ServiceMatcher" where
  "denote_ServiceMatcher c =
     \<lparr>sm_Namespace = from_ptr [] (sma_Namespace c),
      sm_Service = from_ptr [] (sma_Service c)\<rparr>"

definition build_ServiceMatcher :: "ServiceMatcher \<Rightarrow> ServiceMatcherApply outcome" where
  "build_ServiceMatcher v =
     Ok (ServiceMatcher_WithService (sm_Service v)
       (ServiceMatcher_WithNamespace (sm_Namespace v)
       ServiceMatcher_config))"

interpretation ServiceMatcher_builder: config_builder build_ServiceMatcher denote_ServiceMatcher
proof
  show "\<exists>c. build_ServiceMatcher v = Ok c \<and> denote_ServiceMatcher c = v" for v
    by (auto simp: build_ServiceMatcher_def denote_ServiceMatcher_def config_defs)
qed

section \<open>routematcher.go\<close>

record RouteMatcherApply =
  rma_Method :: "MethodMatcherApply option"
  rma_Service :: "ServiceMatcherApply option"
  rma_Namespace :: "string option"
  rma_Metadata :: "MetadataMatcherApply list"
  rma_Fraction :: "FractionApply option"

definition RouteMatcher_config :: RouteMatcherApply where [config_defs]:
  "RouteMatcher_config =
     \<lparr>rma_Method = None,
      rma_Service = None,
      rma_Namespace = None,
      rma_Metadata = [],
      rma_Fraction = None\<rparr>"

definition RouteMatcher_WithMethod :: "MethodMatcherApply option \<Rightarrow> RouteMatcherApply \<Rightarrow> RouteMatcherApply" where [config_defs]:
  "RouteMatcher_WithMethod v b = b\<lparr>rma_Method := v\<rparr>"

definition RouteMatcher_WithService :: "ServiceMatcherApply option \<Rightarrow> RouteMatcherApply \<Rightarrow> RouteMatcherApply" where [config_defs]:
  "RouteMatcher_WithService v b = b\<lparr>rma_Service := v\<rparr>"

definition RouteMatcher_WithNamespace :: "string \<Rightarrow> RouteMatcherApply \<Rightarrow> RouteMatcherApply" where [config_defs]:
  "RouteMatcher_WithNamespace v b = b\<lparr>rma_Namespace := Some v\<rparr>"

definition RouteMatcher_WithMetadata :: "MetadataMatcherApply option list \<Rightarrow> RouteMatcherApply \<Rightarrow> RouteMatcherApply outcome" where [config_defs]:
  "RouteMatcher_WithMetadata = append_values ''WithMetadata'' rma_Metadata_update"

definition RouteMatcher_WithFraction :: "FractionApply option \<Rightarrow> RouteMatcherApply \<Rightarrow> RouteMatcherApply" where [config_defs]:
  "RouteMatcher_WithFraction v b = b\<lparr>rma_Fraction := v\<rparr>"

definition denote_RouteMatcher :: "RouteMatcherApply \<Rightarrow> RouteMatcher" where
  "denote_RouteMatcher c =
     \<lparr>rm_Method = map_option denote_MethodMatcher (rma_Method c),
      rm_Service = map_option denote_ServiceMatcher (rma_Service c),
      rm_Namespace = rma_Namespace c,
      rm_Metadata = map denote_MetadataMatcher (rma_Metadata c),
      rm_Fraction = map_option denote_Fraction (rma_Fraction c)\<rparr>"

definition build_RouteMatcher :: "RouteMatcher \<Rightarrow> RouteMatcherApply outcome" where
  "build_RouteMatcher v =
     and_then (build_option build_MethodMatcher (rm_Method v)) (\<lambda>x1.
     and_then (build_option build_ServiceMatcher (rm_Service v)) (\<lambda>x2.
     and_then (traverse (\<lambda>_. build_MetadataMatcher) 0 (rm_Metadata v)) (\<lambda>x3.
     and_then (build_option build_Fraction (rm_Fraction v)) (\<lambda>x4.
     and_then (Ok (RouteMatcher_WithFraction x4
       (opt_call RouteMatcher_WithNamespace (rm_Namespace v)
       (RouteMatcher_WithService x2
       (RouteMatcher_WithMethod x1
       RouteMatcher_config))))) (\<lambda>b.
     RouteMatcher_WithMetadata (map Some x3) b)))))"

lemma RouteMatcher_opt_Namespace: "opt_call RouteMatcher_WithNamespace v b = b\<lparr>rma_Namespace := or_ptr v (rma_Namespace b)\<rparr>"
  by (cases v) (simp_all add: opt_call_def or_ptr_def RouteMatcher_WithNamespace_def)

interpretation RouteMatcher_Metadata: slice_field rma_Metadata_update
  by unfold_locales (simp_all add: comp_def)

interpretation RouteMatcher_builder: config_builder build_RouteMatcher denote_RouteMatcher
proof
  show "\<exists>c. build_RouteMatcher v = Ok c \<and> denote_RouteMatcher c = v" for v
    using MethodMatcher_builder.builds_option [of "rm_Method v"]
      ServiceMatcher_builder.builds_option [of "rm_Service v"]
      MetadataMatcher_builder.builds_list [of 0 "rm_Metadata v"]
      Fraction_builder.builds_option [of "rm_Fraction v"]
    by (auto simp: build_RouteMatcher_def denote_RouteMatcher_def config_defs RouteMatcher_opt_Namespace
        RouteMatcher_Metadata.append_all)
qed

section \<open>portref.go\<close>

record PortRefApply =
  pra_Number :: "int32 option"
  pra_Name :: "string option"

definition PortRef_config :: PortRefApply where [config_defs]:
  "PortRef_config =
     \<lparr>pra_Number = None,
      pra_Name = None\<rparr>"

definition PortRef_WithNumber :: "int32 \<Rightarrow> PortRefApply \<Rightarrow> PortRefApply" where [config_defs]:
  "PortRef_WithNumber v b = b\<lparr>pra_Number := Some v\<rparr>"

definition PortRef_WithName :: "string \<Rightarrow> PortRefApply \<Rightarrow> PortRefApply" where [config_defs]:
  "PortRef_WithName v b = b\<lparr>pra_Name := Some v\<rparr>"

definition denote_PortRef :: "PortRefApply \<Rightarrow> PortRef" where
  "denote_PortRef c =
     \<lparr>pr_Number = from_ptr 0 (pra_Number c),
      pr_Name = from_ptr [] (pra_Name c)\<rparr>"

definition build_PortRef :: "PortRef \<Rightarrow> PortRefApply outcome" where
  "build_PortRef v =
     Ok (PortRef_WithName (pr_Name v)
       (PortRef_WithNumber (pr_Number v)
       PortRef_config))"

interpretation PortRef_builder: config_builder build_PortRef denote_PortRef
proof
  show "\<exists>c. build_PortRef v = Ok c \<and> denote_PortRef c = v" for v
    by (auto simp: build_PortRef_def denote_PortRef_def config_defs)
qed

section \<open>serviceref.go\<close>

record ServiceRefApply =
  sra_Name :: "string option"
  sra_Namespace :: "string option"
  sra_Port :: "PortRefApply option"

definition ServiceRef_config :: ServiceRefApply where [config_defs]:
  "ServiceRef_config =
     \<lparr>sra_Name = None,
      sra_Namespace = None,
      sra_Port = None\<rparr>"

definition ServiceRef_WithName :: "string \<Rightarrow> ServiceRefApply \<Rightarrow> ServiceRefApply" where [config_defs]:
  "ServiceRef_WithName v b = b\<lparr>sra_Name := Some v\<rparr>"

definition ServiceRef_WithNamespace :: "string \<Rightarrow> ServiceRefApply \<Rightarrow> ServiceRefApply" where [config_defs]:
  "ServiceRef_WithNamespace v b = b\<lparr>sra_Namespace := Some v\<rparr>"

definition ServiceRef_WithPort :: "PortRefApply option \<Rightarrow> ServiceRefApply \<Rightarrow> ServiceRefApply" where [config_defs]:
  "ServiceRef_WithPort v b = b\<lparr>sra_Port := v\<rparr>"

definition denote_ServiceRef :: "ServiceRefApply \<Rightarrow> ServiceRef" where
  "denote_ServiceRef c =
     \<lparr>sr_Name = from_ptr [] (sra_Name c),
      sr_Namespace = from_ptr [] (sra_Namespace c),
      sr_Port = denote_PortRef (from_ptr PortRef_config (sra_Port c))\<rparr>"

definition build_ServiceRef :: "ServiceRef \<Rightarrow> ServiceRefApply outcome" where
  "build_ServiceRef v =
     and_then (build_PortRef (sr_Port v)) (\<lambda>x1.
     Ok (ServiceRef_WithPort (Some x1)
       (ServiceRef_WithNamespace (sr_Namespace v)
       (ServiceRef_WithName (sr_Name v)
       ServiceRef_config))))"

interpretation ServiceRef_builder: config_builder build_ServiceRef denote_ServiceRef
proof
  show "\<exists>c. build_ServiceRef v = Ok c \<and> denote_ServiceRef c = v" for v
    using PortRef_builder.round_trip [of "sr_Port v"]
    by (auto simp: build_ServiceRef_def denote_ServiceRef_def config_defs)
qed

section \<open>locality.go\<close>

record LocalityApply =
  loa_Weight :: "uint32 option"
  loa_Priority :: "uint32 option"
  loa_Service :: "ServiceRefApply option"

definition Locality_config :: LocalityApply where [config_defs]:
  "Locality_config =
     \<lparr>loa_Weight = None,
      loa_Priority = None,
      loa_Service = None\<rparr>"

definition Locality_WithWeight :: "uint32 \<Rightarrow> LocalityApply \<Rightarrow> LocalityApply" where [config_defs]:
  "Locality_WithWeight v b = b\<lparr>loa_Weight := Some v\<rparr>"

definition Locality_WithPriority :: "uint32 \<Rightarrow> LocalityApply \<Rightarrow> LocalityApply" where [config_defs]:
  "Locality_WithPriority v b = b\<lparr>loa_Priority := Some v\<rparr>"

definition Locality_WithService :: "ServiceRefApply option \<Rightarrow> LocalityApply \<Rightarrow> LocalityApply" where [config_defs]:
  "Locality_WithService v b = b\<lparr>loa_Service := v\<rparr>"

definition denote_Locality :: "LocalityApply \<Rightarrow> Locality" where
  "denote_Locality c =
     \<lparr>lo_Weight = from_ptr 0 (loa_Weight c),
      lo_Priority = from_ptr 0 (loa_Priority c),
      lo_Service = map_option denote_ServiceRef (loa_Service c)\<rparr>"

definition build_Locality :: "Locality \<Rightarrow> LocalityApply outcome" where
  "build_Locality v =
     and_then (build_option build_ServiceRef (lo_Service v)) (\<lambda>x1.
     Ok (Locality_WithService x1
       (Locality_WithPriority (lo_Priority v)
       (Locality_WithWeight (lo_Weight v)
       Locality_config))))"

interpretation Locality_builder: config_builder build_Locality denote_Locality
proof
  show "\<exists>c. build_Locality v = Ok c \<and> denote_Locality c = v" for v
    using ServiceRef_builder.builds_option [of "lo_Service v"]
    by (auto simp: build_Locality_def denote_Locality_def config_defs)
qed

section \<open>ringhashconfig.go\<close>

record RingHashConfigApply =
  rha_MinRingSize :: "uint64 option"
  rha_MaxRingSize :: "uint64 option"

definition RingHashConfig_config :: RingHashConfigApply where [config_defs]:
  "RingHashConfig_config =
     \<lparr>rha_MinRingSize = None,
      rha_MaxRingSize = None\<rparr>"

definition RingHashConfig_WithMinRingSize :: "uint64 \<Rightarrow> RingHashConfigApply \<Rightarrow> RingHashConfigApply" where [config_defs]:
  "RingHashConfig_WithMinRingSize v b = b\<lparr>rha_MinRingSize := Some v\<rparr>"

definition RingHashConfig_WithMaxRingSize :: "uint64 \<Rightarrow> RingHashConfigApply \<Rightarrow> RingHashConfigApply" where [config_defs]:
  "RingHashConfig_WithMaxRingSize v b = b\<lparr>rha_MaxRingSize := Some v\<rparr>"

definition denote_RingHashConfig :: "RingHashConfigApply \<Rightarrow> RingHashConfig" where
  "denote_RingHashConfig c =
     \<lparr>rh_MinRingSize = from_ptr 0 (rha_MinRingSize c),
      rh_MaxRingSize = from_ptr 0 (rha_MaxRingSize c)\<rparr>"

definition build_RingHashConfig :: "RingHashConfig \<Rightarrow> RingHashConfigApply outcome" where
  "build_RingHashConfig v =
     Ok (RingHashConfig_WithMaxRingSize (rh_MaxRingSize v)
       (RingHashConfig_WithMinRingSize (rh_MinRingSize v)
       RingHashConfig_config))"

interpretation RingHashConfig_builder: config_builder build_RingHashConfig denote_RingHashConfig
proof
  show "\<exists>c. build_RingHashConfig v = Ok c \<and> denote_RingHashConfig c = v" for v
    by (auto simp: build_RingHashConfig_def denote_RingHashConfig_def config_defs)
qed

section \<open>backend.go\<close>

record BackendApply =
  bka_Weight :: "uint32 option"
  bka_MaxRequests :: "uint32 option"
  bka_LBPolicy :: "string option"
  bka_RingHashConfig :: "RingHashConfigApply option"
  bka_Interceptors :: "InterceptorApply list"
  bka_Service :: "ServiceRefApply option"
  bka_Localities :: "LocalityApply list"

definition Backend_config :: BackendApply where [config_defs]:
  "Backend_config =
     \<lparr>bka_Weight = None,
      bka_MaxRequests = None,
      bka_LBPolicy = None,
      bka_RingHashConfig = None,
      bka_Interceptors = [],
      bka_Service = None,
      bka_Localities = []\<rparr>"

definition Backend_WithWeight :: "uint32 \<Rightarrow> BackendApply \<Rightarrow> BackendApply" where [config_defs]:
  "Backend_WithWeight v b = b\<lparr>bka_Weight := Some v\<rparr>"

definition Backend_WithMaxRequests :: "uint32 \<Rightarrow> BackendApply \<Rightarrow> BackendApply" where [config_defs]:
  "Backend_WithMaxRequests v b = b\<lparr>bka_MaxRequests := Some v\<rparr>"

definition Backend_WithLBPolicy :: "string \<Rightarrow> BackendApply \<Rightarrow> BackendApply" where [config_defs]:
  "Backend_WithLBPolicy v b = b\<lparr>bka_LBPolicy := Some v\<rparr>"

definition Backend_WithRingHashConfig :: "RingHashConfigApply option \<Rightarrow> BackendApply \<Rightarrow> BackendApply" where [config_defs]:
  "Backend_WithRingHashConfig v b = b\<lparr>bka_RingHashConfig := v\<rparr>"

definition Backend_WithInterceptors :: "InterceptorApply option list \<Rightarrow> BackendApply \<Rightarrow> BackendApply outcome" where [config_defs]:
  "Backend_WithInterceptors = append_values ''WithInterceptors'' bka_Interceptors_update"

definition Backend_WithService :: "ServiceRefApply option \<Rightarrow> BackendApply \<Rightarrow> BackendApply" where [config_defs]:
  "Backend_WithService v b = b\<lparr>bka_Service := v\<rparr>"

definition Backend_WithLocalities :: "LocalityApply option list \<Rightarrow> BackendApply \<Rightarrow> BackendApply outcome" where [config_defs]:
  "Backend_WithLocalities = append_values ''WithLocalities'' bka_Localities_update"

definition denote_Backend :: "BackendApply \<Rightarrow> Backend" where
  "denote_Backend c =
     \<lparr>bk_Weight = from_ptr 0 (bka_Weight c),
      bk_MaxRequests = bka_MaxRequests c,
      bk_LBPolicy = from_ptr [] (bka_LBPolicy c),
      bk_RingHashConfig = map_option denote_RingHashConfig (bka_RingHashConfig c),
      bk_Interceptors = map denote_Interceptor (bka_Interceptors c),
      bk_Service = map_option denote_ServiceRef (bka_Service c),
      bk_Localities = map denote_Locality (bka_Localities c)\<rparr>"

definition build_Backend :: "Backend \<Rightarrow> BackendApply outcome" where
  "build_Backend v =
     and_then (build_option build_RingHashConfig (bk_RingHashConfig v)) (\<lambda>x1.
     and_then (traverse (\<lambda>_. build_Interceptor) 0 (bk_Interceptors v)) (\<lambda>x2.
     and_then (build_option build_ServiceRef (bk_Service v)) (\<lambda>x3.
     and_then (traverse (\<lambda>_. build_Locality) 0 (bk_Localities v)) (\<lambda>x4.
     and_then (Ok (Backend_WithService x3
       (Backend_WithRingHashConfig x1
       (Backend_WithLBPolicy (bk_LBPolicy v)
       (opt_call Backend_WithMaxRequests (bk_MaxRequests v)
       (Backend_WithWeight (bk_Weight v)
       Backend_config)))))) (\<lambda>b.
     and_then (Backend_WithInterceptors (map Some x2) b) (\<lambda>b.
     Backend_WithLocalities (map Some x4) b))))))"

lemma Backend_opt_MaxRequests: "opt_call Backend_WithMaxRequests v b = b\<lparr>bka_MaxRequests := or_ptr v (bka_MaxRequests b)\<rparr>"
  by (cases v) (simp_all add: opt_call_def or_ptr_def Backend_WithMaxRequests_def)

interpretation Backend_Interceptors: slice_field bka_Interceptors_update
  by unfold_locales (simp_all add: comp_def)

interpretation Backend_Localities: slice_field bka_Localities_update
  by unfold_locales (simp_all add: comp_def)

interpretation Backend_builder: config_builder build_Backend denote_Backend
proof
  show "\<exists>c. build_Backend v = Ok c \<and> denote_Backend c = v" for v
    using RingHashConfig_builder.builds_option [of "bk_RingHashConfig v"]
      Interceptor_builder.builds_list [of 0 "bk_Interceptors v"]
      ServiceRef_builder.builds_option [of "bk_Service v"]
      Locality_builder.builds_list [of 0 "bk_Localities v"]
    by (auto simp: build_Backend_def denote_Backend_def config_defs Backend_opt_MaxRequests
        Backend_Interceptors.append_all Backend_Localities.append_all)
qed

section \<open>retrybackoff.go\<close>

record RetryBackoffApply =
  rba_BaseInterval :: "Duration option"
  rba_MaxInterval :: "Duration option"

definition RetryBackoff_config :: RetryBackoffApply where [config_defs]:
  "RetryBackoff_config =
     \<lparr>rba_BaseInterval = None,
      rba_MaxInterval = None\<rparr>"

definition RetryBackoff_WithBaseInterval :: "Duration \<Rightarrow> RetryBackoffApply \<Rightarrow> RetryBackoffApply" where [config_defs]:
  "RetryBackoff_WithBaseInterval v b = b\<lparr>rba_BaseInterval := Some v\<rparr>"

definition RetryBackoff_WithMaxInterval :: "Duration \<Rightarrow> RetryBackoffApply \<Rightarrow> RetryBackoffApply" where [config_defs]:
  "RetryBackoff_WithMaxInterval v b = b\<lparr>rba_MaxInterval := Some v\<rparr>"

definition denote_RetryBackoff :: "RetryBackoffApply \<Rightarrow> RetryBackoff" where
  "denote_RetryBackoff c =
     \<lparr>rb_BaseInterval = from_ptr 0 (rba_BaseInterval c),
      rb_MaxInterval = rba_MaxInterval c\<rparr>"

definition build_RetryBackoff :: "RetryBackoff \<Rightarrow> RetryBackoffApply outcome" where
  "build_RetryBackoff v =
     Ok (opt_call RetryBackoff_WithMaxInterval (rb_MaxInterval v)
       (RetryBackoff_WithBaseInterval (rb_BaseInterval v)
       RetryBackoff_config))"

lemma RetryBackoff_opt_MaxInterval: "opt_call RetryBackoff_WithMaxInterval v b = b\<lparr>rba_MaxInterval := or_ptr v (rba_MaxInterval b)\<rparr>"
  by (cases v) (simp_all add: opt_call_def or_ptr_def RetryBackoff_WithMaxInterval_def)

interpretation RetryBackoff_builder: config_builder build_RetryBackoff denote_RetryBackoff
proof
  show "\<exists>c. build_RetryBackoff v = Ok c \<and> denote_RetryBackoff c = v" for v
    by (auto simp: build_RetryBackoff_def denote_RetryBackoff_def config_defs RetryBackoff_opt_MaxInterval)
qed

section \<open>retrypolicy.go\<close>

record RetryPolicyApply =
  rpa_RetryOn :: "string list"
  rpa_NumRetries :: "uint32 option"
  rpa_Backoff :: "RetryBackoffApply option"

definition RetryPolicy_config :: RetryPolicyApply where [config_defs]:
  "RetryPolicy_config =
     \<lparr>rpa_RetryOn = [],
      rpa_NumRetries = None,
      rpa_Backoff = None\<rparr>"

definition RetryPolicy_WithRetryOn :: "string list \<Rightarrow> RetryPolicyApply \<Rightarrow> RetryPolicyApply outcome" where
  "RetryPolicy_WithRetryOn values b = for_range (\<lambda>i v b. Ok (b\<lparr>rpa_RetryOn := rpa_RetryOn b @ [v]\<rparr>)) 0 values b"

definition RetryPolicy_WithNumRetries :: "uint32 \<Rightarrow> RetryPolicyApply \<Rightarrow> RetryPolicyApply" where [config_defs]:
  "RetryPolicy_WithNumRetries v b = b\<lparr>rpa_NumRetries := Some v\<rparr>"

definition RetryPolicy_WithBackoff :: "RetryBackoffApply option \<Rightarrow> RetryPolicyApply \<Rightarrow> RetryPolicyApply" where [config_defs]:
  "RetryPolicy_WithBackoff v b = b\<lparr>rpa_Backoff := v\<rparr>"

definition denote_RetryPolicy :: "RetryPolicyApply \<Rightarrow> RetryPolicy" where
  "denote_RetryPolicy c =
     \<lparr>rp_RetryOn = rpa_RetryOn c,
      rp_NumRetries = rpa_NumRetries c,
      rp_Backoff = map_option denote_RetryBackoff (rpa_Backoff c)\<rparr>"

definition build_RetryPolicy :: "RetryPolicy \<Rightarrow> RetryPolicyApply outcome" where
  "build_RetryPolicy v =
     and_then (build_option build_RetryBackoff (rp_Backoff v)) (\<lambda>x1.
     and_then (Ok (RetryPolicy_WithBackoff x1
       (opt_call RetryPolicy_WithNumRetries (rp_NumRetries v)
       RetryPolicy_config))) (\<lambda>b.
     RetryPolicy_WithRetryOn (rp_RetryOn v) b))"

lemma RetryPolicy_opt_NumRetries: "opt_call RetryPolicy_WithNumRetries v b = b\<lparr>rpa_NumRetries := or_ptr v (rpa_NumRetries b)\<rparr>"
  by (cases v) (simp_all add: opt_call_def or_ptr_def RetryPolicy_WithNumRetries_def)

lemma RetryPolicy_WithRetryOn_append: "RetryPolicy_WithRetryOn vs b = Ok (b\<lparr>rpa_RetryOn := rpa_RetryOn b @ vs\<rparr>)"
proof -
  have "for_range (\<lambda>i v b. Ok (b\<lparr>rpa_RetryOn := rpa_RetryOn b @ [v]\<rparr>)) i vs b = Ok (b\<lparr>rpa_RetryOn := rpa_RetryOn b @ vs\<rparr>)" for i
    by (induction vs arbitrary: i b) simp_all
  then show ?thesis by (simp add: RetryPolicy_WithRetryOn_def)
qed

interpretation RetryPolicy_builder: config_builder build_RetryPolicy denote_RetryPolicy
proof
  show "\<exists>c. build_RetryPolicy v = Ok c \<and> denote_RetryPolicy c = v" for v
    using RetryBackoff_builder.builds_option [of "rp_Backoff v"]
    by (auto simp: build_RetryPolicy_def denote_RetryPolicy_def config_defs RetryPolicy_opt_NumRetries
        RetryPolicy_WithRetryOn_append)
qed

section \<open>hashpolicy.go\<close>

record HashPolicyApply =
  hpa_Metadata :: "string option"
  hpa_Channel :: "bool option"
  hpa_Terminal :: "bool option"

definition HashPolicy_config :: HashPolicyApply where [config_defs]:
  "HashPolicy_config =
     \<lparr>hpa_Metadata = None,
      hpa_Channel = None,
      hpa_Terminal = None\<rparr>"

definition HashPolicy_WithMetadata :: "string \<Rightarrow> HashPolicyApply \<Rightarrow> HashPolicyApply" where [config_defs]:
  "HashPolicy_WithMetadata v b = b\<lparr>hpa_Metadata := Some v\<rparr>"

definition HashPolicy_WithChannel :: "bool \<Rightarrow> HashPolicyApply \<Rightarrow> HashPolicyApply" where [config_defs]:
  "HashPolicy_WithChannel v b = b\<lparr>hpa_Channel := Some v\<rparr>"

definition HashPolicy_WithTerminal :: "bool \<Rightarrow> HashPolicyApply \<Rightarrow> HashPolicyApply" where [config_defs]:
  "HashPolicy_WithTerminal v b = b\<lparr>hpa_Terminal := Some v\<rparr>"

definition denote_HashPolicy :: "HashPolicyApply \<Rightarrow> HashPolicy" where
  "denote_HashPolicy c =
     \<lparr>hp_Metadata = from_ptr [] (hpa_Metadata c),
      hp_Channel = hpa_Channel c,
      hp_Terminal = from_ptr False (hpa_Terminal c)\<rparr>"

definition build_HashPolicy :: "HashPolicy \<Rightarrow> HashPolicyApply outcome" where
  "build_HashPolicy v =
     Ok (HashPolicy_WithTerminal (hp_Terminal v)
       (opt_call HashPolicy_WithChannel (hp_Channel v)
       (HashPolicy_WithMetadata (hp_Metadata v)
       HashPolicy_config)))"

lemma HashPolicy_opt_Channel: "opt_call HashPolicy_WithChannel v b = b\<lparr>hpa_Channel := or_ptr v (hpa_Channel b)\<rparr>"
  by (cases v) (simp_all add: opt_call_def or_ptr_def HashPolicy_WithChannel_def)

interpretation HashPolicy_builder: config_builder build_HashPolicy denote_HashPolicy
proof
  show "\<exists>c. build_HashPolicy v = Ok c \<and> denote_HashPolicy c = v" for v
    by (auto simp: build_HashPolicy_def denote_HashPolicy_def config_defs HashPolicy_opt_Channel)
qed

section \<open>route.go\<close>

record RouteApply =
  rta_Matcher :: "RouteMatcherApply option"
  rta_Interceptors :: "InterceptorApply list"
  rta_HashPolicy :: "HashPolicyApply list"
  rta_MaxStreamDuration :: "Duration option"
  rta_GrpcTimeoutHeaderMax :: "Duration option"
  rta_Retry :: "RetryPolicyApply option"
  rta_Backends :: "BackendApply list"

definition Route_config :: RouteApply where [config_defs]:
  "Route_config =
     \<lparr>rta_Matcher = None,
      rta_Interceptors = [],
      rta_HashPolicy = [],
      rta_MaxStreamDuration = None,
      rta_GrpcTimeoutHeaderMax = None,
      rta_Retry = None,
      rta_Backends = []\<rparr>"

definition Route_WithMatcher :: "RouteMatcherApply option \<Rightarrow> RouteApply \<Rightarrow> RouteApply" where [config_defs]:
  "Route_WithMatcher v b = b\<lparr>rta_Matcher := v\<rparr>"

definition Route_WithInterceptors :: "InterceptorApply option list \<Rightarrow> RouteApply \<Rightarrow> RouteApply outcome" where [config_defs]:
  "Route_WithInterceptors = append_values ''WithInterceptors'' rta_Interceptors_update"

definition Route_WithHashPolicy :: "HashPolicyApply option list \<Rightarrow> RouteApply \<Rightarrow> RouteApply outcome" where [config_defs]:
  "Route_WithHashPolicy = append_values ''WithHashPolicy'' rta_HashPolicy_update"

definition Route_WithMaxStreamDuration :: "Duration \<Rightarrow> RouteApply \<Rightarrow> RouteApply" where [config_defs]:
  "Route_WithMaxStreamDuration v b = b\<lparr>rta_MaxStreamDuration := Some v\<rparr>"

definition Route_WithGrpcTimeoutHeaderMax :: "Duration \<Rightarrow> RouteApply \<Rightarrow> RouteApply" where [config_defs]:
  "Route_WithGrpcTimeoutHeaderMax v b = b\<lparr>rta_GrpcTimeoutHeaderMax := Some v\<rparr>"

definition Route_WithRetry :: "RetryPolicyApply option \<Rightarrow> RouteApply \<Rightarrow> RouteApply" where [config_defs]:
  "Route_WithRetry v b = b\<lparr>rta_Retry := v\<rparr>"

definition Route_WithBackends :: "BackendApply option list \<Rightarrow> RouteApply \<Rightarrow> RouteApply outcome" where [config_defs]:
  "Route_WithBackends = append_values ''WithBackends'' rta_Backends_update"

definition denote_Route :: "RouteApply \<Rightarrow> Route" where
  "denote_Route c =
     \<lparr>rt_Matcher = map_option denote_RouteMatcher (rta_Matcher c),
      rt_Interceptors = map denote_Interceptor (rta_Interceptors c),
      rt_HashPolicy = map denote_HashPolicy (rta_HashPolicy c),
      rt_MaxStreamDuration = rta_MaxStreamDuration c,
      rt_GrpcTimeoutHeaderMax = rta_GrpcTimeoutHeaderMax c,
      rt_Retry = map_option denote_RetryPolicy (rta_Retry c),
      rt_Backends = map denote_Backend (rta_Backends c)\<rparr>"

definition build_Route :: "Route \<Rightarrow> RouteApply outcome" where
  "build_Route v =
     and_then (build_option build_RouteMatcher (rt_Matcher v)) (\<lambda>x1.
     and_then (traverse (\<lambda>_. build_Interceptor) 0 (rt_Interceptors v)) (\<lambda>x2.
     and_then (traverse (\<lambda>_. build_HashPolicy) 0 (rt_HashPolicy v)) (\<lambda>x3.
     and_then (build_option build_RetryPolicy (rt_Retry v)) (\<lambda>x4.
     and_then (traverse (\<lambda>_. build_Backend) 0 (rt_Backends v)) (\<lambda>x5.
     and_then (Ok (Route_WithRetry x4
       (opt_call Route_WithGrpcTimeoutHeaderMax (rt_GrpcTimeoutHeaderMax v)
       (opt_call Route_WithMaxStreamDuration (rt_MaxStreamDuration v)
       (Route_WithMatcher x1
       Route_config))))) (\<lambda>b.
     and_then (Route_WithInterceptors (map Some x2) b) (\<lambda>b.
     and_then (Route_WithHashPolicy (map Some x3) b) (\<lambda>b.
     Route_WithBackends (map Some x5) b))))))))"

lemma Route_opt_MaxStreamDuration: "opt_call Route_WithMaxStreamDuration v b = b\<lparr>rta_MaxStreamDuration := or_ptr v (rta_MaxStreamDuration b)\<rparr>"
  by (cases v) (simp_all add: opt_call_def or_ptr_def Route_WithMaxStreamDuration_def)

lemma Route_opt_GrpcTimeoutHeaderMax: "opt_call Route_WithGrpcTimeoutHeaderMax v b = b\<lparr>rta_GrpcTimeoutHeaderMax := or_ptr v (rta_GrpcTimeoutHeaderMax b)\<rparr>"
  by (cases v) (simp_all add: opt_call_def or_ptr_def Route_WithGrpcTimeoutHeaderMax_def)

interpretation Route_Interceptors: slice_field rta_Interceptors_update
  by unfold_locales (simp_all add: comp_def)

interpretation Route_HashPolicy: slice_field rta_HashPolicy_update
  by unfold_locales (simp_all add: comp_def)

interpretation Route_Backends: slice_field rta_Backends_update
  by unfold_locales (simp_all add: comp_def)

interpretation Route_builder: config_builder build_Route denote_Route
proof
  show "\<exists>c. build_Route v = Ok c \<and> denote_Route c = v" for v
    using RouteMatcher_builder.builds_option [of "rt_Matcher v"]
      Interceptor_builder.builds_list [of 0 "rt_Interceptors v"]
      HashPolicy_builder.builds_list [of 0 "rt_HashPolicy v"]
      RetryPolicy_builder.builds_option [of "rt_Retry v"]
      Backend_builder.builds_list [of 0 "rt_Backends v"]
    by (auto simp: build_Route_def denote_Route_def config_defs Route_opt_MaxStreamDuration
        Route_opt_GrpcTimeoutHeaderMax Route_Interceptors.append_all Route_HashPolicy.append_all
        Route_Backends.append_all)
qed

section \<open>grpclistenerspec.go\<close>

record GRPCListenerSpecApply =
  lsa_MaxStreamDuration :: "Duration option"
  lsa_Interceptors :: "InterceptorApply list"
  lsa_Retry :: "RetryPolicyApply option"
  lsa_Routes :: "RouteApply list"

definition GRPCListenerSpec_config :: GRPCListenerSpecApply where [config_defs]:
  "GRPCListenerSpec_config =
     \<lparr>lsa_MaxStreamDuration = None,
      lsa_Interceptors = [],
      lsa_Retry = None,
      lsa_Routes = []\<rparr>"

definition GRPCListenerSpec_WithMaxStreamDuration :: "Duration \<Rightarrow> GRPCListenerSpecApply \<Rightarrow> GRPCListenerSpecApply" where [config_defs]:
  "GRPCListenerSpec_WithMaxStreamDuration v b = b\<lparr>lsa_MaxStreamDuration := Some v\<rparr>"

definition GRPCListenerSpec_WithInterceptors :: "InterceptorApply option list \<Rightarrow> GRPCListenerSpecApply \<Rightarrow> GRPCListenerSpecApply outcome" where [config_defs]:
  "GRPCListenerSpec_WithInterceptors = append_values ''WithInterceptors'' lsa_Interceptors_update"

definition GRPCListenerSpec_WithRetry :: "RetryPolicyApply option \<Rightarrow> GRPCListenerSpecApply \<Rightarrow> GRPCListenerSpecApply" where [config_defs]:
  "GRPCListenerSpec_WithRetry v b = b\<lparr>lsa_Retry := v\<rparr>"

definition GRPCListenerSpec_WithRoutes :: "RouteApply option list \<Rightarrow> GRPCListenerSpecApply \<Rightarrow> GRPCListenerSpecApply outcome" where [config_defs]:
  "GRPCListenerSpec_WithRoutes = append_values ''WithRoutes'' lsa_Routes_update"

definition denote_GRPCListenerSpec :: "GRPCListenerSpecApply \<Rightarrow> GRPCListenerSpec" where
  "denote_GRPCListenerSpec c =
     \<lparr>ls_MaxStreamDuration = lsa_MaxStreamDuration c,
      ls_Interceptors = map denote_Interceptor (lsa_Interceptors c),
      ls_Retry = map_option denote_RetryPolicy (lsa_Retry c),
      ls_Routes = map denote_Route (lsa_Routes c)\<rparr>"

definition build_GRPCListenerSpec :: "GRPCListenerSpec \<Rightarrow> GRPCListenerSpecApply outcome" where
  "build_GRPCListenerSpec v =
     and_then (traverse (\<lambda>_. build_Interceptor) 0 (ls_Interceptors v)) (\<lambda>x1.
     and_then (build_option build_RetryPolicy (ls_Retry v)) (\<lambda>x2.
     and_then (traverse (\<lambda>_. build_Route) 0 (ls_Routes v)) (\<lambda>x3.
     and_then (Ok (GRPCListenerSpec_WithRetry x2
       (opt_call GRPCListenerSpec_WithMaxStreamDuration (ls_MaxStreamDuration v)
       GRPCListenerSpec_config))) (\<lambda>b.
     and_then (GRPCListenerSpec_WithInterceptors (map Some x1) b) (\<lambda>b.
     GRPCListenerSpec_WithRoutes (map Some x3) b)))))"

lemma GRPCListenerSpec_opt_MaxStreamDuration: "opt_call GRPCListenerSpec_WithMaxStreamDuration v b = b\<lparr>lsa_MaxStreamDuration := or_ptr v (lsa_MaxStreamDuration b)\<rparr>"
  by (cases v) (simp_all add: opt_call_def or_ptr_def GRPCListenerSpec_WithMaxStreamDuration_def)

interpretation GRPCListenerSpec_Interceptors: slice_field lsa_Interceptors_update
  by unfold_locales (simp_all add: comp_def)

interpretation GRPCListenerSpec_Routes: slice_field lsa_Routes_update
  by unfold_locales (simp_all add: comp_def)

interpretation GRPCListenerSpec_builder: config_builder build_GRPCListenerSpec denote_GRPCListenerSpec
proof
  show "\<exists>c. build_GRPCListenerSpec v = Ok c \<and> denote_GRPCListenerSpec c = v" for v
    using Interceptor_builder.builds_list [of 0 "ls_Interceptors v"]
      RetryPolicy_builder.builds_option [of "ls_Retry v"]
      Route_builder.builds_list [of 0 "ls_Routes v"]
    by (auto simp: build_GRPCListenerSpec_def denote_GRPCListenerSpec_def config_defs
        GRPCListenerSpec_opt_MaxStreamDuration GRPCListenerSpec_Interceptors.append_all
        GRPCListenerSpec_Routes.append_all)
qed

section \<open>utils.go\<close>

record GroupVersionKind =
  gvk_Group :: string
  gvk_Version :: string
  gvk_Kind :: string

text \<open>What \<^verbatim>\<open>ForKind\<close> returns has the type \<^verbatim>\<open>interface{}\<close>.\<close>

datatype ('t, 'r) apply_configuration =
    AcBackend BackendApply
  | AcFaultAbort FaultAbortApply
  | AcFaultDelay FaultDelayApply
  | AcFaultInterceptor FaultInterceptorApply
  | AcFraction FractionApply
  | AcGRPCListener "('t, 'r, GRPCListenerSpecApply) GRPCListenerApply"
  | AcGRPCListenerSpec GRPCListenerSpecApply
  | AcHashPolicy HashPolicyApply
  | AcHeaderMatcher HeaderMatcherApply
  | AcInterceptor InterceptorApply
  | AcLocality LocalityApply
  | AcMetadataMatcher MetadataMatcherApply
  | AcMethodMatcher MethodMatcherApply
  | AcPortRef PortRefApply
  | AcRangeMatcher RangeMatcherApply
  | AcRegexMatcher RegexMatcherApply
  | AcRetryBackoff RetryBackoffApply
  | AcRetryPolicy RetryPolicyApply
  | AcRingHashConfig RingHashConfigApply
  | AcRoute RouteApply
  | AcRouteMatcher RouteMatcherApply
  | AcServiceMatcher ServiceMatcherApply
  | AcServiceRef ServiceRefApply

definition ForKind :: "GroupVersionKind \<Rightarrow> ('t, 'r) apply_configuration option" where
  "ForKind kind =
     (if gvk_Group kind = ''api.gtc.dev'' \<and> gvk_Version kind = ''v1alpha1'' then
        map_of
         [(''Backend'', AcBackend Backend_config),
          (''FaultAbort'', AcFaultAbort FaultAbort_config),
          (''FaultDelay'', AcFaultDelay FaultDelay_config),
          (''FaultInterceptor'', AcFaultInterceptor FaultInterceptor_config),
          (''Fraction'', AcFraction Fraction_config),
          (''GRPCListener'', AcGRPCListener \<lparr>gla_Kind = None, gla_APIVersion = None, gla_ObjectMeta = None, gla_Spec = None\<rparr>),
          (''GRPCListenerSpec'', AcGRPCListenerSpec GRPCListenerSpec_config),
          (''HashPolicy'', AcHashPolicy HashPolicy_config),
          (''HeaderMatcher'', AcHeaderMatcher HeaderMatcher_config),
          (''Interceptor'', AcInterceptor Interceptor_config),
          (''Locality'', AcLocality Locality_config),
          (''MetadataMatcher'', AcMetadataMatcher MetadataMatcher_config),
          (''MethodMatcher'', AcMethodMatcher MethodMatcher_config),
          (''PortRef'', AcPortRef PortRef_config),
          (''RangeMatcher'', AcRangeMatcher RangeMatcher_config),
          (''RegexMatcher'', AcRegexMatcher RegexMatcher_config),
          (''RetryBackoff'', AcRetryBackoff RetryBackoff_config),
          (''RetryPolicy'', AcRetryPolicy RetryPolicy_config),
          (''RingHashConfig'', AcRingHashConfig RingHashConfig_config),
          (''Route'', AcRoute Route_config),
          (''RouteMatcher'', AcRouteMatcher RouteMatcher_config),
          (''ServiceMatcher'', AcServiceMatcher ServiceMatcher_config),
          (''ServiceRef'', AcServiceRef ServiceRef_config)] (gvk_Kind kind)
      else None)"

text \<open>The configuration the switch returns for a spec stands for the zero spec.\<close>

lemma ForKind_spec:
  "ForKind \<lparr>gvk_Group = ''api.gtc.dev'', gvk_Version = ''v1alpha1'', gvk_Kind = ''GRPCListenerSpec''\<rparr> =
     Some (AcGRPCListenerSpec GRPCListenerSpec_config) \<and>
   denote_GRPCListenerSpec GRPCListenerSpec_config =
     \<lparr>ls_MaxStreamDuration = None, ls_Interceptors = [], ls_Retry = None, ls_Routes = []\<rparr>"
  by (simp add: ForKind_def denote_GRPCListenerSpec_def GRPCListenerSpec_config_def)

section \<open>Properties\<close>

text \<open>C36:
  Every listener can be declared and applied with the generated client: for every value of the spec,
  the constructors and setters of its structs build, without a panic, a configuration that stands for
  exactly that value; and a listener configuration with it, after any chain of metadata setters without
  a nil owner reference, is sent by \<^verbatim>\<open>Apply\<close> as an apply patch of the object of the last name set.
\<close>

theorem every_listener_can_be_applied:
  assumes "\<forall>c \<in> set calls. \<not> nil_reference c" and "\<And>b. marshal b = Inr (enc b)"
  shows "\<exists>spec b. build_GRPCListenerSpec v = Ok spec \<and> denote_GRPCListenerSpec spec = v \<and>
    and_then (GRPCListenerConfig nm ns) (each run_call (calls @ [CallSpec (Some spec)])) = Ok b \<and>
    gla_Spec b = Some spec \<and>
    (client_Apply marshal toPatch cns (Some b) opts :: ('p, 'o) rest_request outcome) =
      Ok ((rest_to cns (PATCH ''application/apply-patch+yaml''))
            \<lparr>rr_name := Some (fold name_after calls nm), rr_params := OptionParams (toPatch opts),
             rr_body := DataBody (enc b)\<rparr>)"
proof -
  obtain spec where spec: "build_GRPCListenerSpec v = Ok spec" "denote_GRPCListenerSpec spec = v"
    using GRPCListenerSpec_builder.round_trip by blast
  have ok: "\<forall>c \<in> set (calls @ [CallSpec (Some spec)]). \<not> nil_reference c" using assms(1) by simp
  obtain b where b: "and_then (GRPCListenerConfig nm ns) (each run_call (calls @ [CallSpec (Some spec)])) = Ok b"
    "(client_Apply marshal toPatch cns (Some b) opts :: ('p, 'o) rest_request outcome) =
      Ok ((rest_to cns (PATCH ''application/apply-patch+yaml''))
            \<lparr>rr_name := Some (fold name_after calls nm), rr_params := OptionParams (toPatch opts),
             rr_body := DataBody (enc b)\<rparr>)"
    using built_configuration_applies [where marshal = marshal and enc = enc and nm = nm and ns = ns and
        toPatch = toPatch and cns = cns and opts = opts, OF ok assms(2)] by auto
  then have "gla_Spec b = Some spec"
    by (auto simp: each_append WithSpec_def go_simps)
  then show ?thesis using spec b by blast
qed

theorem every_listener_can_be_applied_witness:
  "\<exists>spec b. denote_GRPCListenerSpec spec = gl_Spec sample_listener \<and>
    gla_Spec (b :: (unit, unit, GRPCListenerSpecApply) GRPCListenerApply) = Some spec \<and>
    client_Apply (\<lambda>b. Inr []) id ''default'' (Some b) () =
      (Ok ((rest_to ''default'' (PATCH ''application/apply-patch+yaml''))
            \<lparr>rr_name := Some ''test-xds'', rr_params := OptionParams (), rr_body := DataBody []\<rparr>) ::
       (unit, unit) rest_request outcome)"
  using every_listener_can_be_applied [where calls = "[CallLabels [(''app'', ''echo'')]]" and
      marshal = "\<lambda>b :: (unit, unit, GRPCListenerSpecApply) GRPCListenerApply. Inr []" and enc = "\<lambda>b. []" and
      v = "gl_Spec sample_listener" and nm = "''test-xds''" and ns = "''default''" and toPatch = id and
      cns = "''default''" and opts = "()"]
  by auto

end
