(* ===== verification/Change_Queues.thy ===== *)
theory Change_Queues
  imports Server
begin

text \<open>
  The two queues of the server, \<^verbatim>\<open>gtc/server.go\<close>, over the one watch registry they share. Their workers
  (theory \<open>Worker_Pool\<close>) run the change handlers, interleaved with each other, with the goroutines of the
  requests, which build, subscribe and release watchers, and with the notification goroutines, which
  end. A history variable records what was done to the registry, in the order in which it was done. First comes what one item of a queue does to the registry.
\<close>

section \<open>What an item notifies\<close>

text \<open>The object an event is about, as the handlers see it, for the three kinds of events.\<close>

definition subject :: "('p \<Rightarrow> k8s_object) \<Rightarrow> 'p item \<Rightarrow> k8s_object" where
  "subject mem it =
     (case it of
        OtherItem \<Rightarrow> NilObj
      | Event e \<Rightarrow> if qe_kind e = kindUpdate then load mem (qe_newObj e)
                   else load mem (qe_object e))"

definition known_item :: "'p item \<Rightarrow> bool" where
  "known_item it \<longleftrightarrow> (case it of OtherItem \<Rightarrow> False | Event e \<Rightarrow> qe_kind e \<in> {kindAdd, kindUpdate, kindDelete})"

lemmas item_simps = subject_def known_item_def load_def kind_defs

text \<open>The accessor of apimachinery: an object has metadata or is refused.\<close>

definition object_meta :: "k8s_object \<Rightarrow> ObjectMeta option" where
  "object_meta obj =
     (case obj of ListenerObj l \<Rightarrow> Some (gl_ObjectMeta l) | SliceObj s \<Rightarrow> Some (es_ObjectMeta s) | _ \<Rightarrow> None)"

definition accessor_documented :: "meta_accessor \<Rightarrow> bool" where
  "accessor_documented acc \<longleftrightarrow>
     (\<forall>obj. case object_meta obj of Some m \<Rightarrow> acc obj = Inr m | None \<Rightarrow> \<exists>e. acc obj = Inl e)"

definition listener_item_refs :: "xdslib \<Rightarrow> ('p \<Rightarrow> k8s_object) \<Rightarrow> 'p item \<Rightarrow> resourceRef list" where
  "listener_item_refs lib mem it =
     (if known_item it then case subject mem it of ListenerObj lis \<Rightarrow> listener_refs lib lis | _ \<Rightarrow> [] else [])"

definition slice_item_refs :: "xdslib \<Rightarrow> GRPCListener list \<Rightarrow> ('p \<Rightarrow> k8s_object) \<Rightarrow> 'p item \<Rightarrow> resourceRef list" where
  "slice_item_refs lib ls mem it =
     (if known_item it then case object_meta (subject mem it) of Some m \<Rightarrow> endpoint_refs lib m ls | None \<Rightarrow> [] else [])"

lemma dispatch_listener:
  "dispatchEvent (grpcListenerChangedHandler lib mem) it w =
     (if known_item it then case grpcListenerChangedHandler_handle lib (subject mem it) w of Err e \<Rightarrow> Ok w | r \<Rightarrow> r
      else Ok w)"
  by (auto simp: known_item_def subject_def dispatchEvent_def grpcListenerChangedHandler_def
      grpcListenerChangedHandler_OnAdd_def grpcListenerChangedHandler_OnUpdate_def kind_defs
      grpcListenerChangedHandler_OnDelete_def Let_def split: item.splits outcome.splits)

lemma dispatch_slice:
  "dispatchEvent (endpointSliceChangedHandler lib acc ix mem) it w =
     (if known_item it then case endpointSliceChangedHandler_handle lib acc ix (subject mem it) w of Err e \<Rightarrow> Ok w | r \<Rightarrow> r
      else Ok w)"
  by (auto simp: known_item_def subject_def dispatchEvent_def endpointSliceChangedHandler_def
      endpointSliceChangedHandler_OnAdd_def endpointSliceChangedHandler_OnUpdate_def kind_defs
      endpointSliceChangedHandler_OnDelete_def Let_def split: item.splits outcome.splits)

text \<open>An item of either queue starts the notifications of its references, in order.\<close>

lemma listener_item_notifies:
  "dispatchEvent (grpcListenerChangedHandler lib mem) it w = Ok (fold watches_notifyChanged (listener_item_refs lib mem it) w)"
  by (cases "subject mem it") (simp_all add: dispatch_listener listener_item_refs_def grpcListenerChanged_refs,
      simp_all add: grpcListenerChangedHandler_handle_def)

text \<open>The slice handler sees of an object its metadata only.\<close>

lemma slice_handler_meta:
  assumes "caches ix ls" and "services_ok ls" and "acc obj = Inr m"
  shows "endpointSliceChangedHandler_handle lib acc ix obj w = Ok (fold watches_notifyChanged (endpoint_refs lib m ls) w)"
proof -
  let ?s = "sample_slice\<lparr>es_ObjectMeta := m\<rparr>"
  have "acc obj = sample_accessor (SliceObj ?s)" using assms(3) by (simp add: sample_accessor_def)
  then have "endpointSliceChangedHandler_handle lib acc ix obj w =
      endpointSliceChangedHandler_handle lib sample_accessor ix (SliceObj ?s) w"
    by (simp add: endpointSliceChangedHandler_handle_def)
  then show ?thesis using endpointSliceChanged_refs [OF sample_accessor_ok assms(1,2), of lib ?s w] by simp
qed

lemma slice_item_notifies:
  assumes "accessor_documented acc" and "caches ix ls" and "services_ok ls"
  shows "dispatchEvent (endpointSliceChangedHandler lib acc ix mem) it w =
    Ok (fold watches_notifyChanged (slice_item_refs lib ls mem it) w)"
proof (cases "object_meta (subject mem it)")
  case None
  then obtain e where "acc (subject mem it) = Inl e"
    using assms(1) [unfolded accessor_documented_def, rule_format, of "subject mem it"] by auto
  then show ?thesis
    by (simp add: dispatch_slice slice_item_refs_def None endpointSliceChangedHandler_handle_def)
next
  case (Some m)
  then have "acc (subject mem it) = Inr m"
    using assms(1) [unfolded accessor_documented_def, rule_format, of "subject mem it"] by simp
  then show ?thesis
    by (simp add: dispatch_slice slice_item_refs_def Some slice_handler_meta [OF assms(2,3)])
qed

lemma sample_accessor_documented: "accessor_documented sample_accessor"
  by (simp add: accessor_documented_def object_meta_def sample_accessor_def split: k8s_object.splits)

section \<open>The queues together\<close>

datatype 'p registry_act =
    ListenerHandled "'p item"
  | SliceHandled "GRPCListener list" "'p item"
  | Called "nat registry_op"
  | Ended "watcher_ptr \<times> resourceRef"

record ('p, 'q) change_queues =
  cq_listeners :: "('p, 'q, watches) pool"
  cq_slices :: "('p, 'q, watches) pool"
  cq_watches :: watches
  cq_log :: "'p registry_act list"

definition change_queues_init :: "'q \<Rightarrow> 'q \<Rightarrow> watches \<Rightarrow> ('p, 'q) change_queues" where
  "change_queues_init q q' w =
     \<lparr>cq_listeners = NewQueuedEventHandler q w, cq_slices = NewQueuedEventHandler q' w, cq_watches = w, cq_log = []\<rparr>"

text \<open>The items whose handler has returned in a step of a pool.\<close>

definition handled :: "('p, 'q, 's) pool \<Rightarrow> ('p, 'q, 's) pool \<Rightarrow> 'p item list" where
  "handled p p' = concat (map (\<lambda>ws. case ws of (Holding x, Finishing y) \<Rightarrow> [x] | _ \<Rightarrow> [])
     (zip (pl_workers p) (pl_workers p')))"

definition is_notify :: "'w registry_op \<Rightarrow> bool" where
  "is_notify c \<longleftrightarrow> (\<exists>ref. c = Notify ref)"

text \<open>A pool works on the shared registry; the slice handler lists the listeners cached at that time.\<close>

inductive queues_step ::
    "('p, 'q) workqueue \<Rightarrow> xdslib \<Rightarrow> meta_accessor \<Rightarrow> ('p \<Rightarrow> k8s_object) \<Rightarrow> nat \<Rightarrow>
     ('p, 'q) change_queues \<Rightarrow> ('p, 'q) change_queues \<Rightarrow> bool"
  for wq lib acc mem n where
  listener_pool:
    "pool_step wq (grpcListenerChangedHandler lib mem) n ((cq_listeners g)\<lparr>pl_state := cq_watches g\<rparr>) p \<Longrightarrow>
     queues_step wq lib acc mem n g (g\<lparr>cq_listeners := p, cq_watches := pl_state p,
       cq_log := cq_log g @ map ListenerHandled (handled (cq_listeners g) p)\<rparr>)"
| slice_pool:
    "caches ix ls \<Longrightarrow> services_ok ls \<Longrightarrow>
     pool_step wq (endpointSliceChangedHandler lib acc ix mem) n ((cq_slices g)\<lparr>pl_state := cq_watches g\<rparr>) p \<Longrightarrow>
     queues_step wq lib acc mem n g (g\<lparr>cq_slices := p, cq_watches := pl_state p,
       cq_log := cq_log g @ map (SliceHandled ls) (handled (cq_slices g) p)\<rparr>)"
| request_calls:
    "registry.legal [c] (cq_watches g) \<Longrightarrow> \<not> is_notify c \<Longrightarrow>
     queues_step wq lib acc mem n g (g\<lparr>cq_watches := registry.exec c (cq_watches g), cq_log := cq_log g @ [Called c]\<rparr>)"
| goroutine_ends:
    "queues_step wq lib acc mem n g (g\<lparr>cq_watches := (cq_watches g)\<lparr>ws_goroutines := remove1 p (ws_goroutines (cq_watches g))\<rparr>,
       cq_log := cq_log g @ [Ended p]\<rparr>)"

text \<open>What the recorded acts do to a registry, one after the other.\<close>

fun replay :: "xdslib \<Rightarrow> ('p \<Rightarrow> k8s_object) \<Rightarrow> 'p registry_act \<Rightarrow> watches \<Rightarrow> watches" where
  "replay lib mem (ListenerHandled it) w = fold watches_notifyChanged (listener_item_refs lib mem it) w"
| "replay lib mem (SliceHandled ls it) w = fold watches_notifyChanged (slice_item_refs lib ls mem it) w"
| "replay lib mem (Called c) w = registry.exec c w"
| "replay lib mem (Ended p) w = w\<lparr>ws_goroutines := remove1 p (ws_goroutines w)\<rparr>"

fun request_call :: "'p registry_act \<Rightarrow> nat registry_op option" where
  "request_call (Called c) = Some c"
| "request_call a = None"

definition request_history :: "'p registry_act list \<Rightarrow> nat registry_op list" where
  "request_history acts = List.map_filter request_call acts"

lemma request_history_simps [simp]:
  "request_history [] = []"
  "request_history (xs @ ys) = request_history xs @ request_history ys"
  "request_history [Called c] = [c]"
  "request_history [Ended p] = []"
  "request_history [ListenerHandled it] = []"
  "request_history [SliceHandled ls it] = []"
  "request_history (map ListenerHandled its) = []"
  "request_history (map (SliceHandled ls) its) = []"
  by (simp_all add: request_history_def List.map_filter_def)

text \<open>In a step of a pool one item is handled, or none and the state stays.\<close>

lemma handled_append: "handled (p\<lparr>pl_workers := pl_workers p @ ws\<rparr>) p = handled p p" "handled p (p\<lparr>pl_workers := pl_workers p @ ws\<rparr>) = handled p p"
  by (simp_all add: handled_def zip_append1 zip_append2)

lemma handled_refl: "handled p p = []"
proof -
  have "concat (map (\<lambda>ws. case ws of (Holding x, Finishing y) \<Rightarrow> [x] | _ \<Rightarrow> []) (zip ws ws)) = []" for ws :: "'a worker list"
    by (induction ws) (auto split: worker.splits)
  then show ?thesis by (simp add: handled_def)
qed

lemma handled_update:
  assumes "i < length (pl_workers p)"
  shows "handled p (p\<lparr>pl_workers := (pl_workers p)[i := v]\<rparr>) =
    (case (pl_workers p ! i, v) of (Holding x, Finishing y) \<Rightarrow> [x] | _ \<Rightarrow> [])"
proof -
  have "concat (map (\<lambda>ws. case ws of (Holding x, Finishing y) \<Rightarrow> [x] | _ \<Rightarrow> []) (zip ws (ws[i := v]))) =
      (case (ws ! i, v) of (Holding x, Finishing y) \<Rightarrow> [x] | _ \<Rightarrow> [])" if "i < length ws" for ws :: "'a worker list"
    using that
  proof (induction ws arbitrary: i)
    case (Cons w ws)
    show ?case
    proof (cases i)
      case 0
      then show ?thesis using handled_refl [of "\<lparr>pl_queue = (), pl_state = (), pl_workers = ws, pl_run = Starting, pl_ctxDone = False\<rparr>"]
        by (simp add: handled_def)
    next
      case (Suc j)
      then show ?thesis using Cons by (auto split: worker.splits)
    qed
  qed simp
  from this [OF assms] show ?thesis by (simp add: handled_def)
qed

lemma handled_fields [simp]:
  "handled (p\<lparr>pl_state := s\<rparr>) q = handled p q" "handled p (q\<lparr>pl_state := s\<rparr>) = handled p q"
  "handled p (q\<lparr>pl_queue := x\<rparr>) = handled p q" "handled p (q\<lparr>pl_run := r\<rparr>) = handled p q"
  "handled p (q\<lparr>pl_ctxDone := b\<rparr>) = handled p q"
  by (simp_all add: handled_def)

lemma pool_step_handled:
  assumes "pool_step wq h n p p'"
  shows "handled p p' = [] \<and> pl_state p' = pl_state p \<or>
    (\<exists>x. handled p p' = [x] \<and> dispatchEvent h x (pl_state p) = Ok (pl_state p'))"
  using assms
proof cases
  case pool_run
  then show ?thesis by cases (simp_all add: handled_append handled_refl)
next
  case pool_work
  then show ?thesis by cases (simp_all add: handled_update [simplified])
qed (simp_all add: handled_refl)

section \<open>Properties\<close>

definition queues_ok :: "xdslib \<Rightarrow> ('p \<Rightarrow> k8s_object) \<Rightarrow> watches \<Rightarrow> ('p, 'q) change_queues \<Rightarrow> bool" where
  "queues_ok lib mem w g \<longleftrightarrow>
     watches_inv (cq_watches g) \<and> cq_watches g = fold (replay lib mem) (cq_log g) w \<and>
     (\<forall>wa ref. wa \<in> subscribers (cq_watches g) ref \<longleftrightarrow>
        fold (subscription wa ref) (request_history (cq_log g)) (wa \<in> subscribers w ref))"

lemma queues_okD:
  assumes "queues_ok lib mem w g"
  shows "watches_inv (cq_watches g)" and "fold (replay lib mem) (cq_log g) w = cq_watches g"
    and "wa \<in> subscribers (cq_watches g) ref \<longleftrightarrow>
      fold (subscription wa ref) (request_history (cq_log g)) (wa \<in> subscribers w ref)"
  using assms unfolding queues_ok_def by metis+

lemma queues_ok_notified:
  assumes "queues_ok lib mem w g"
    and "u = fold watches_notifyChanged refs (cq_watches g)"
    and "\<And>v. fold (replay lib mem) acts v = fold watches_notifyChanged refs v" and "request_history acts = []"
  shows "queues_ok lib mem w (g\<lparr>cq_watches := u, cq_log := cq_log g @ acts\<rparr>)"
proof -
  have "watches_inv u" and "subscribers u = subscribers (cq_watches g)"
    using fold_only_notifies [OF queues_okD(1) [OF assms(1)], of refs] assms(2) by (simp_all add: only_notifies_def)
  then show ?thesis using queues_okD(2,3) [OF assms(1)] assms(2-4) by (simp add: queues_ok_def)
qed

lemma queues_ok_pools:
  "queues_ok lib mem w (g\<lparr>cq_listeners := p, cq_watches := u, cq_log := l\<rparr>) = queues_ok lib mem w (g\<lparr>cq_watches := u, cq_log := l\<rparr>)"
  "queues_ok lib mem w (g\<lparr>cq_slices := p, cq_watches := u, cq_log := l\<rparr>) = queues_ok lib mem w (g\<lparr>cq_watches := u, cq_log := l\<rparr>)"
  by (simp_all add: queues_ok_def)

lemma queues_ok_step:
  assumes "queues_step wq lib acc mem n g g'" and "accessor_documented acc" and "queues_ok lib mem w g"
  shows "queues_ok lib mem w g'"
  using assms(1)
proof cases
  case (listener_pool p)
  then consider "handled (cq_listeners g) p = []" "pl_state p = cq_watches g"
    | x where "handled (cq_listeners g) p = [x]" "pl_state p = fold watches_notifyChanged (listener_item_refs lib mem x) (cq_watches g)"
    using pool_step_handled [OF listener_pool(2)] by (auto simp: listener_item_notifies)
  then show ?thesis
  proof cases
    case 1
    then show ?thesis
      unfolding listener_pool(1) queues_ok_pools by (intro queues_ok_notified [OF assms(3), where refs = "[]"]) simp_all
  next
    case 2
    then show ?thesis unfolding listener_pool(1) queues_ok_pools by (intro queues_ok_notified [OF assms(3)]) simp_all
  qed
next
  case (slice_pool ix ls p)
  then consider "handled (cq_slices g) p = []" "pl_state p = cq_watches g"
    | x where "handled (cq_slices g) p = [x]" "pl_state p = fold watches_notifyChanged (slice_item_refs lib ls mem x) (cq_watches g)"
    using pool_step_handled [OF slice_pool(4)] by (auto simp: slice_item_notifies [OF assms(2)])
  then show ?thesis
  proof cases
    case 1
    then show ?thesis
      unfolding slice_pool(1) queues_ok_pools by (intro queues_ok_notified [OF assms(3), where refs = "[]"]) simp_all
  next
    case 2
    then show ?thesis unfolding slice_pool(1) queues_ok_pools by (intro queues_ok_notified [OF assms(3)]) simp_all
  qed
next
  case (request_calls c)
  then show ?thesis
    using registry.exec_inv [OF queues_okD(1) [OF assms(3)], of c] registry.exec_subs [OF queues_okD(1) [OF assms(3)], of c]
      queues_okD(2,3) [OF assms(3)]
    by (simp add: queues_ok_def)
next
  case (goroutine_ends p)
  let ?w = "(cq_watches g)\<lparr>ws_goroutines := remove1 p (ws_goroutines (cq_watches g))\<rparr>"
  have inv: "watches_inv (cq_watches g)" by (rule queues_okD(1) [OF assms(3)])
  have subs: "subscribers ?w = subscribers (cq_watches g)" by (simp add: subscribers_def fun_eq_iff split: option.splits)
  have "watches_inv ?w"
    using watches_invD(4,5) [OF inv] subs
    by (intro inv_of_subscribers [OF inv]) (auto simp: live_watchers_def watched_def)
  then show ?thesis using goroutine_ends queues_okD(2,3) [OF assms(3)] subs by (simp add: queues_ok_def)
qed

text \<open>C18: the two queues share the registry without losing or adding a notification. Whatever their workers
  do, in whatever interleaving with each other and with the requests, the registry stays well-formed
  and is the result of the recorded acts, one after the other: each item a worker has handled started
  exactly the notifications of its references, for the listeners cached at that time (whose localities
  name their services), no other act of a queue touched the registry, and the subscriptions are those
  the calls of the requests alone make.\<close>

theorem queues_share_the_registry:
  assumes "(queues_step wq lib acc mem n)\<^sup>*\<^sup>* (change_queues_init q q' w) g" and "watches_inv w" and "accessor_documented acc"
  shows "watches_inv (cq_watches g) \<and> cq_watches g = fold (replay lib mem) (cq_log g) w \<and>
    (\<forall>wa ref. wa \<in> subscribers (cq_watches g) ref \<longleftrightarrow>
       fold (subscription wa ref) (request_history (cq_log g)) (wa \<in> subscribers w ref))"
proof -
  have "queues_ok lib mem w g"
    using assms(1)
  proof (induction rule: rtranclp_induct)
    case base
    then show ?case using assms(2) by (simp add: queues_ok_def change_queues_init_def)
  next
    case (step g g')
    then show ?case using queues_ok_step [OF _ assms(3)] by blast
  qed
  then show ?thesis unfolding queues_ok_def .
qed

section \<open>A run\<close>

text \<open>A new pool starts a worker, which takes the first item of its queue and handles it.\<close>

lemma pool_handles_first:
  fixes h :: "('o, 's) EventHandler" and q :: 'q
  assumes "0 < n" and "wq_Get wq q = Some (Some x, q')" and "dispatchEvent h x s = Ok s'"
  obtains p1 p2 p3 p4 where "pool_step wq h n (NewQueuedEventHandler q s) p1"
    and "pool_step wq h n p1 p2" and "pool_step wq h n p2 p3" and "pool_step wq h n p3 p4"
    and "pl_state p1 = s" and "pl_state p2 = s" and "pl_state p3 = s" and "pl_state p4 = s'"
    and "handled (NewQueuedEventHandler q s) p1 = []" and "handled p1 p2 = []" and "handled p2 p3 = []" and "handled p3 p4 = [x]"
proof -
  define p0 :: "('o, 'q, 's) pool" where "p0 = NewQueuedEventHandler q s"
  define p1 where "p1 = p0\<lparr>pl_workers := [Paused]\<rparr>"
  define p2 where "p2 = p1\<lparr>pl_workers := [Idle]\<rparr>"
  define p3 where "p3 = p2\<lparr>pl_workers := [Holding x], pl_queue := q'\<rparr>"
  define p4 where "p4 = p3\<lparr>pl_workers := [Finishing x], pl_state := s'\<rparr>"
  note defs = p0_def p1_def p2_def p3_def p4_def NewQueuedEventHandler_def
  show thesis
  proof (rule that [of p1 p2 p3 p4])
    show "pool_step wq h n (NewQueuedEventHandler q s) p1"
      using run_worker [of p0 n wq] assms(1) by (intro pool_run) (simp add: defs)
    show "pool_step wq h n p1 p2" using worker_call [of 0 p1 wq h] by (intro pool_work) (simp add: defs)
    show "pool_step wq h n p2 p3" using worker_get [of 0 p2 wq x q' h] assms(2) by (intro pool_work) (simp add: defs)
    show "pool_step wq h n p3 p4" using worker_handle [of 0 p3 x h s' wq] assms(3) by (intro pool_work) (simp add: defs)
  qed (simp_all add: defs handled_def)
qed

text \<open>The same for the pools over the shared registry.\<close>

lemma pool_state_id [simp]: "pl_state p = s \<Longrightarrow> p\<lparr>pl_state := s\<rparr> = p"
  by (cases p) simp

lemma NewQueuedEventHandler_state [simp]: "(NewQueuedEventHandler q s)\<lparr>pl_state := s'\<rparr> = NewQueuedEventHandler q s'"
  by (simp add: NewQueuedEventHandler_def)

lemma handled_new [simp]: "handled (NewQueuedEventHandler q s) p = []"
  by (simp add: handled_def NewQueuedEventHandler_def)

lemma listener_queue_handles:
  fixes g :: "('p, 'q) change_queues"
  assumes "cq_listeners g = NewQueuedEventHandler q s" and "0 < n" and "wq_Get wq q = Some (Some x, q')"
  obtains g' where "(queues_step wq lib acc mem n)\<^sup>*\<^sup>* g g'" and "cq_log g' = cq_log g @ [ListenerHandled x]"
    and "cq_slices g' = cq_slices g"
proof -
  let ?s = "cq_watches g" and ?h = "grpcListenerChangedHandler lib mem"
  obtain p1 p2 p3 p4 where p: "pool_step wq ?h n (NewQueuedEventHandler q ?s) p1"
    "pool_step wq ?h n p1 p2" "pool_step wq ?h n p2 p3" "pool_step wq ?h n p3 p4"
    "pl_state p1 = ?s" "pl_state p2 = ?s" "pl_state p3 = ?s"
    "handled p1 p2 = []" "handled p2 p3 = []" "handled p3 p4 = [x]"
    by (rule pool_handles_first [OF assms(2,3) listener_item_notifies])
  define next_g where "next_g g b = g\<lparr>cq_listeners := b, cq_watches := pl_state b,
    cq_log := cq_log g @ map ListenerHandled (handled (cq_listeners g) b)\<rparr>" for g :: "('p, 'q) change_queues" and b
  have step: "queues_step wq lib acc mem n u (next_g u b)"
    if "pool_step wq ?h n ((cq_listeners u)\<lparr>pl_state := cq_watches u\<rparr>) b" for u b
    unfolding next_g_def by (rule queues_step.listener_pool [OF that])
  let ?g1 = "next_g g p1" let ?g2 = "next_g ?g1 p2" let ?g3 = "next_g ?g2 p3" let ?g4 = "next_g ?g3 p4"
  have "queues_step wq lib acc mem n g ?g1" by (rule step) (simp add: assms(1) p(1))
  moreover have "queues_step wq lib acc mem n ?g1 ?g2" by (rule step) (simp add: next_g_def p(2))
  moreover have "queues_step wq lib acc mem n ?g2 ?g3" by (rule step) (simp add: next_g_def p(3))
  moreover have "queues_step wq lib acc mem n ?g3 ?g4" by (rule step) (simp add: next_g_def p(4))
  ultimately have "(queues_step wq lib acc mem n)\<^sup>*\<^sup>* g ?g4"
    by (meson converse_rtranclp_into_rtranclp rtranclp.rtrancl_refl)
  then show thesis by (rule that) (simp_all add: next_g_def p assms(1))
qed

lemma slice_queue_handles:
  fixes g :: "('p, 'q) change_queues"
  assumes "cq_slices g = NewQueuedEventHandler q s" and "0 < n" and "wq_Get wq q = Some (Some x, q')"
    and "accessor_documented acc" and "caches ix ls" and "services_ok ls"
  obtains g' where "(queues_step wq lib acc mem n)\<^sup>*\<^sup>* g g'" and "cq_log g' = cq_log g @ [SliceHandled ls x]"
proof -
  let ?s = "cq_watches g" and ?h = "endpointSliceChangedHandler lib acc ix mem"
  obtain p1 p2 p3 p4 where p: "pool_step wq ?h n (NewQueuedEventHandler q ?s) p1"
    "pool_step wq ?h n p1 p2" "pool_step wq ?h n p2 p3" "pool_step wq ?h n p3 p4"
    "pl_state p1 = ?s" "pl_state p2 = ?s" "pl_state p3 = ?s"
    "handled p1 p2 = []" "handled p2 p3 = []" "handled p3 p4 = [x]"
    by (rule pool_handles_first [OF assms(2,3) slice_item_notifies [OF assms(4-6)]])
  define next_g where "next_g g b = g\<lparr>cq_slices := b, cq_watches := pl_state b,
    cq_log := cq_log g @ map (SliceHandled ls) (handled (cq_slices g) b)\<rparr>" for g :: "('p, 'q) change_queues" and b
  have step: "queues_step wq lib acc mem n u (next_g u b)"
    if "pool_step wq ?h n ((cq_slices u)\<lparr>pl_state := cq_watches u\<rparr>) b" for u b
    unfolding next_g_def by (rule queues_step.slice_pool [OF assms(5,6) that])
  let ?g1 = "next_g g p1" let ?g2 = "next_g ?g1 p2" let ?g3 = "next_g ?g2 p3" let ?g4 = "next_g ?g3 p4"
  have "queues_step wq lib acc mem n g ?g1" by (rule step) (simp add: assms(1) p(1))
  moreover have "queues_step wq lib acc mem n ?g1 ?g2" by (rule step) (simp add: next_g_def p(2))
  moreover have "queues_step wq lib acc mem n ?g2 ?g3" by (rule step) (simp add: next_g_def p(3))
  moreover have "queues_step wq lib acc mem n ?g3 ?g4" by (rule step) (simp add: next_g_def p(4))
  ultimately have "(queues_step wq lib acc mem n)\<^sup>*\<^sup>* g ?g4"
    by (meson converse_rtranclp_into_rtranclp rtranclp.rtrancl_refl)
  then show thesis by (rule that) (simp_all add: next_g_def p assms(1))
qed

text \<open>Both queues hold the addition of an object, a listener in one and a slice of its service in the other;
  one watcher is subscribed to the load assignment of the service.\<close>

definition added :: "nat \<Rightarrow> nat item" where
  "added a = Event \<lparr>qe_kind = kindAdd, qe_object = Some a, qe_oldObj = None, qe_newObj = None\<rparr>"

definition queue_with :: "nat item \<Rightarrow> nat wq_state" where
  "queue_with x = \<lparr>wqs_queue = [x], wqs_dirty = [x], wqs_processing = [], wqs_shutdown = False\<rparr>"

definition sample_objects :: "nat \<Rightarrow> k8s_object" where
  "sample_objects a = (if a = 0 then ListenerObj sample_listener else SliceObj sample_slice)"

theorem queues_share_the_registry_witness:
  "\<exists>g. (queues_step documented_queue sample_lib sample_accessor sample_objects 10)\<^sup>*\<^sup>*
      (change_queues_init (queue_with (added 0)) (queue_with (added 1)) sample_watches) g \<and>
     cq_log g = [ListenerHandled (added 0), SliceHandled [sample_listener] (added 1)] \<and>
     cq_watches g = fold watches_notifyChanged (listener_refs sample_lib sample_listener @
       endpoint_refs sample_lib (es_ObjectMeta sample_slice) [sample_listener]) sample_watches"
proof -
  let ?step = "queues_step documented_queue sample_lib sample_accessor sample_objects 10"
  let ?g = "change_queues_init (queue_with (added 0)) (queue_with (added 1)) sample_watches :: (nat, nat wq_state) change_queues"
  have get: "wq_Get documented_queue (queue_with x) = Some (Some x,
      \<lparr>wqs_queue = [], wqs_dirty = [], wqs_processing = [x], wqs_shutdown = False\<rparr>)" for x
    by (simp add: queue_with_def documented_queue_def wqs_get_def)
  obtain g1 where g1: "?step\<^sup>*\<^sup>* ?g g1" "cq_log g1 = [ListenerHandled (added 0)]" "cq_slices g1 = cq_slices ?g"
    by (rule listener_queue_handles [OF _ _ get, where g = ?g and n = 10]) (simp_all add: change_queues_init_def)
  obtain g2 where g2: "?step\<^sup>*\<^sup>* g1 g2" "cq_log g2 = cq_log g1 @ [SliceHandled [sample_listener] (added 1)]"
    by (rule slice_queue_handles [OF _ _ get sample_accessor_documented sample_cache sample_services,
        where g = g1 and n = 10])
      (simp_all add: g1(3) change_queues_init_def)
  have run: "?step\<^sup>*\<^sup>* ?g g2" using g1(1) g2(1) by (rule rtranclp_trans)
  have refs: "listener_item_refs sample_lib sample_objects (added 0) = listener_refs sample_lib sample_listener"
    "slice_item_refs sample_lib [sample_listener] sample_objects (added 1) =
      endpoint_refs sample_lib (es_ObjectMeta sample_slice) [sample_listener]"
    by (simp_all add: listener_item_refs_def slice_item_refs_def added_def sample_objects_def object_meta_def item_simps)
  from queues_share_the_registry [OF run sample_watches_inv sample_accessor_documented] g1(2) g2(2) run
  show ?thesis by (intro exI [of _ g2]) (simp add: refs(1) refs(2) [unfolded One_nat_def])
qed

end
