(* ===== verification/Consistency.thy ===== *)
theory Consistency
  imports Change_Queues
begin

text \<open>
  The controller as a whole, seen by one client: the informers change the caches and queue an event,
  the workers hand the events to the change handlers, the handlers notify the watchers, and the
  goroutine of a request resolves from the caches and answers. A step relation composes the models of
  \<^verbatim>\<open>gtc/notify.go\<close>, \<^verbatim>\<open>gtc/watcher.go\<close>, \<^verbatim>\<open>gtc/cache.go\<close> and \<^verbatim>\<open>pkg/controllersupport/handler.go\<close>; the property is that
  a client which asked for a resource ends up with the answer the caches give for it. The caches change
  while a resolution reads them: each of its reads finds one of the states since the resolution
  began. The locale \<open>change_coverage\<close> is what the resolver and the handlers owe each other for that.
\<close>

section \<open>The caches and what informers report\<close>

text \<open>The content of the two caches, with the listers that read them.\<close>

record informer_caches =
  ic_listeners :: "GRPCListener list"
  ic_index :: listener_cache
  ic_slices :: "EndpointSlice list"
  ic_lister :: slice_lister


text \<open>An item of one of the two queues. Cached objects are never modified, so a pointer is its object.\<close>

datatype informer_event = ListenerEvent "k8s_object item" | SliceEvent "k8s_object item"



abbreviation delete_item :: "k8s_object \<Rightarrow> k8s_object item" where
  "delete_item obj \<equiv> Event \<lparr>qe_kind = kindDelete, qe_object = Some obj, qe_oldObj = None, qe_newObj = None\<rparr>"







section \<open>Handling an event\<close>

text \<open>A worker's call of the handler of its queue, which reads the listeners cached at that time.\<close>

definition handle_event ::
    "xdslib \<Rightarrow> meta_accessor \<Rightarrow> informer_caches \<Rightarrow> informer_event \<Rightarrow> watches \<Rightarrow> watches outcome" where
  "handle_event lib acc c e w =
     (case e of
        ListenerEvent it \<Rightarrow> dispatchEvent (grpcListenerChangedHandler lib (\<lambda>obj. obj)) it w
      | SliceEvent it \<Rightarrow> dispatchEvent (endpointSliceChangedHandler lib acc (ic_index c) (\<lambda>obj. obj)) it w)"




section \<open>What an answer reads\<close>



definition listener_key :: "xdslib \<Rightarrow> DiscoveryRequest \<Rightarrow> string \<Rightarrow> (string \<times> string) outcome" where
  "listener_key lib req n =
     (if dq_TypeUrl req = ListenerType lib then parseListenerName n
      else and_then (parseBackendName n) (\<lambda>ref. Ok (pb_Namespace ref, pb_ListenerName ref)))"

lemma strings_SplitN2_pair: "strings_SplitN2 s c = [a, b] \<Longrightarrow> s = a @ c # b \<and> c \<notin> set a"
proof (induction s arbitrary: a)
  case (Cons x xs)
  show ?case
  proof (cases "x = c")
    case False
    then obtain a' where "a = x # a'" and tl: "tl (strings_SplitN2 xs c) = [b]"
      and hd: "hd (strings_SplitN2 xs c) = a'"
      using Cons.prems by auto
    moreover have "strings_SplitN2 xs c = [a', b]" using tl hd by (cases "strings_SplitN2 xs c") auto
    ultimately show ?thesis using Cons.IH [of a'] False by auto
  qed (use Cons.prems in auto)
qed simp

lemma parseListenerName_Ok:
  assumes "parseListenerName n = Ok (ns, nm)"
  shows "n = listenerName ns nm \<and> CHR ''/'' \<notin> set ns"
proof -
  have "length (strings_SplitN2 n CHR ''/'') = 2" and "ns = strings_SplitN2 n CHR ''/'' ! 0"
    and "nm = strings_SplitN2 n CHR ''/'' ! 1"
    using assms by (auto simp: parseListenerName_def Let_def split: if_splits)
  then have "strings_SplitN2 n CHR ''/'' = [ns, nm]"
    by (auto simp: numeral_2_eq_2 length_Suc_conv)
  from strings_SplitN2_pair [OF this] show ?thesis by (simp add: listenerName_def)
qed

lemma listener_key_no_slash: "listener_key lib req n = Ok (ns, nm) \<Longrightarrow> CHR ''/'' \<notin> set ns"
  by (auto simp: listener_key_def go_simps dest: parseListenerName_Ok parseBackendName_key_ok split: if_splits)






text \<open>
  What an answer reads of the caches: one listener, and for a load assignment the slices of each
  service of the backend.
\<close>

definition read_backend :: "informer_caches \<Rightarrow> string \<Rightarrow> (GRPCListener \<times> Backend) outcome" where
  "read_backend c n =
     and_then (parseBackendName n) (\<lambda>ref.
     and_then (GRPCListenerNamespaceLister_Get (ic_index c) (pb_Namespace ref) (pb_ListenerName ref)) (\<lambda>lis.
     and_then (findBackendSpec ref lis) (\<lambda>b. Ok (lis, b))))"

definition slice_reads :: "xdslib \<Rightarrow> informer_caches \<Rightarrow> slice_lister \<Rightarrow> string \<Rightarrow> EndpointSlice list outcome list" where
  "slice_reads lib c sl n =
     (case read_backend c n of Ok (lis, b) \<Rightarrow> map (service_query lib sl lis) (services_of b) | _ \<Rightarrow> [])"

definition answer_reads ::
    "xdslib \<Rightarrow> DiscoveryRequest \<Rightarrow> string \<Rightarrow> informer_caches \<Rightarrow> GRPCListener outcome \<times> EndpointSlice list outcome list" where
  "answer_reads lib req n c =
     (and_then (listener_key lib req n) (\<lambda>(ns, nm). GRPCListenerNamespaceLister_Get (ic_index c) ns nm),
      if dq_TypeUrl req = EndpointType lib then slice_reads lib c (ic_lister c) n else [])"








section \<open>The contract between answers and notifications\<close>



section \<open>The handlers keep it\<close>













section \<open>The whole controller, seen by one request\<close>




section \<open>The invariant\<close>

definition pending :: "DiscoveryRequest \<Rightarrow> string \<Rightarrow> watch_run \<Rightarrow> bool" where
  "pending req n s \<longleftrightarrow> (wr_watcher s, req_ref req n) \<in> set (ws_goroutines (wr_watches s))"

definition last_sent :: "watch_run \<Rightarrow> resolveResponse option" where
  "last_sent s = (if wr_sent s = [] then None else Some (cr_resp (last (wr_sent s))))"

text \<open>
  What stands for an answer having reached the client. While a resolution is under way, nothing it reads may
  have changed since it began.
\<close>

definition reads_current :: "xdslib \<Rightarrow> DiscoveryRequest \<Rightarrow> string \<Rightarrow> informer_caches \<Rightarrow> informer_caches list \<Rightarrow> bool" where
  "reads_current lib req n c W \<longleftrightarrow> (\<forall>c' \<in> set W. answer_reads lib req n c' = answer_reads lib req n c)"

definition client_has ::
    "xdslib \<Rightarrow> DiscoveryRequest \<Rightarrow> string \<Rightarrow> informer_caches \<Rightarrow> informer_caches list \<Rightarrow> watch_run \<Rightarrow> resolveResponse \<Rightarrow> bool" where
  "client_has lib req n c W s r \<longleftrightarrow>
     (case wr_phase s of
        Deciding \<Rightarrow> reads_current lib req n c W
      | Resolving ref \<Rightarrow> reads_current lib req n c W
      | Sending x \<Rightarrow> cr_resp x = r
      | Waiting \<Rightarrow> last_sent s = Some r
      | _ \<Rightarrow> True)"

lemma client_has_watches [simp]: "client_has lib req n c W (s\<lparr>wr_watches := w\<rparr>) = client_has lib req n c W s"
  by (simp add: client_has_def last_sent_def fun_eq_iff split: phase.split)

lemma client_has_room [simp]: "client_has lib req n c W (s\<lparr>wr_room := k\<rparr>) = client_has lib req n c W s"
  by (simp add: client_has_def last_sent_def fun_eq_iff split: phase.split)






text \<open>A worker's step is a series of notifications, which is one of the environments of a goroutine.\<close>

lemma watch_reach_notify:
  "watch_reach R known req s \<Longrightarrow>
     watch_reach R known req (s\<lparr>wr_watches := fold watches_notifyChanged refs (wr_watches s)\<rparr>)"
proof (induction refs arbitrary: s)
  case (Cons ref refs)
  have "watch_reach R known req (s\<lparr>wr_watches := registry.exec (Notify ref) (wr_watches s)\<rparr>)"
    by (rule watch_reach.Environment [OF Cons.prems env_step.Registry])
      (simp_all add: registry.legal.simps)
  from Cons.IH [OF this] show ?case by (simp add: registry.exec.simps)
qed simp








lemma pending_notified:
  assumes "watches_inv (wr_watches s)"
    and "pending req n s \<or> req_ref req n \<in> set refs \<and> wr_watcher s \<in> subscribers (wr_watches s) (req_ref req n)"
  shows "pending req n (s\<lparr>wr_watches := fold watches_notifyChanged refs (wr_watches s)\<rparr>)"
proof -
  let ?p = "(wr_watcher s, req_ref req n)"
  let ?w = "fold watches_notifyChanged refs (wr_watches s)"
  have "count (mset (ws_goroutines (wr_watches s))) ?p > 0 \<or>
      count_list refs (req_ref req n) > 0 \<and> wr_watcher s \<in> subscribers (wr_watches s) (req_ref req n)"
    using assms(2) by (auto simp: pending_def count_list_0_iff neq0_conv [symmetric])
  then have "count (mset (ws_goroutines ?w)) ?p > 0"
    using fold_notify [OF assms(1), of refs "wr_watcher s" "req_ref req n"] by auto
  then show ?thesis by (simp add: pending_def)
qed










section \<open>Progress\<close>

















section \<open>Properties\<close>



section \<open>A request that follows another\<close>

text \<open>A notification goroutine belongs to a watcher that was built.\<close>

definition goroutines_built :: "watches \<Rightarrow> bool" where
  "goroutines_built w \<longleftrightarrow> (\<forall>wa ref. (wa, ref) \<in> set (ws_goroutines w) \<longrightarrow> wa < ws_nextWatcher w)"

lemma exec_goroutines_built:
  assumes "watches_inv w" and "registry.legal [c] w" and "goroutines_built w"
  shows "goroutines_built (registry.exec c w)"
proof (cases c)
  case Build
  obtain wa w' where b: "buildWatch w = (wa, w')" by fastforce
  then have "ws_nextWatcher w' = Suc (ws_nextWatcher w)" by (auto simp: buildWatch_def)
  with buildWatch_effect(5) [OF assms(1) b] show ?thesis
    using assms(3) by (auto simp: Build registry.exec.simps b goroutines_built_def less_SucI)
next
  case (Watch wa ref)
  then show ?thesis
    using watcher_watch_keeps(2) [OF assms(1)] assms(3)
    by (simp add: registry.exec.simps goroutines_built_def watcher_watch_next)
next
  case (Release wa)
  then have "wa \<in> live_watchers w" using assms(2) by (simp add: registry.legal.simps)
  then obtain w' where "releaseWatch wa w = Ok w'" and "ws_goroutines w' = ws_goroutines w"
    by (rule releaseWatch_effect [OF assms(1)])
  then show ?thesis
    using assms(3) releaseWatch_next by (simp add: Release registry.exec.simps goroutines_built_def)
next
  case (Notify ref)
  have "wa < ws_nextWatcher w" if "(wa, r) \<in> set (ws_goroutines (watches_notifyChanged ref w))" for wa r
  proof -
    have "0 < count (mset (ws_goroutines (watches_notifyChanged ref w))) (wa, r)" using that by simp
    then have "(wa, r) \<in> set (ws_goroutines w) \<or> wa \<in> subscribers w r"
      using registry.notify_count [OF assms(1), of ref wa r] by (simp split: if_splits)
    then show ?thesis
      using assms(3) watches_invD(5) [OF assms(1)] by (auto simp: goroutines_built_def live_watchers_def)
  qed
  then show ?thesis by (simp add: Notify registry.exec.simps goroutines_built_def notifyChanged_next)
qed

lemma watch_reach_built: "watch_reach R known req s \<Longrightarrow> goroutines_built (wr_watches s)"
proof (induction rule: watch_reach.induct)
  case (Start w room)
  obtain wa w' where b: "buildWatch w = (wa, w')" by fastforce
  then have "ws_nextWatcher w' = Suc (ws_nextWatcher w)" by (auto simp: buildWatch_def)
  with buildWatch_effect(5) [OF Start(1) b] Start(2) show ?case
    by (auto simp: CreateWatch_def b goroutines_built_def less_SucI)
next
  case (Step s resolve t)
  then have inv: "watches_inv (wr_watches s)" and live: "wr_phase s \<noteq> Exited \<Longrightarrow> wr_watcher s \<in> live_watchers (wr_watches s)"
    using watch_reach_inv by (auto simp: watch_inv_def registry_ok_def)
  from Step.hyps(3) show ?case
  proof cases
    case (Subscribe n ns)
    then show ?thesis
      using Step.IH watcher_watch_keeps(2) [OF inv] by (simp add: goroutines_built_def watcher_watch_next)
  next
    case (Changed ref)
    then show ?thesis using Step.IH by (auto simp: goroutines_built_def dest: set_remove1_subset [THEN subsetD])
  next
    case (Exit w)
    then have "ws_goroutines w = ws_goroutines (wr_watches s)"
      using releaseWatch_effect [OF inv live] by (metis outcome.inject(1) phase.distinct)
    then show ?thesis using Exit Step.IH releaseWatch_next by (simp add: goroutines_built_def)
  qed (use Step.IH in simp_all)
next
  case (Environment s t)
  then have inv: "watches_inv (wr_watches s)"
    using watch_reach_inv by (auto simp: watch_inv_def registry_ok_def)
  from Environment.hyps(2) show ?case
  proof cases
    case (Registry c)
    then show ?thesis using exec_goroutines_built [OF inv] Environment.IH by simp
  next
    case (Returned p)
    then show ?thesis using Environment.IH by (auto simp: goroutines_built_def dest: set_remove1_subset [THEN subsetD])
  qed (use Environment.IH in simp_all)
qed

text \<open>A goroutine whose stream already has every name resolves nothing until it is notified.\<close>

lemma known_names_send_nothing:
  assumes "(watch_step resolve known req)\<^sup>*\<^sup>* (CreateWatch room w req) u" and "watches_inv w"
    and "\<forall>wa ref. (wa, ref) \<in> set (ws_goroutines w) \<longrightarrow> wa < ws_nextWatcher w"
    and "\<not> hasResourceDiff known req"
  shows "watch_reach {resolve} known req u \<and> wr_sent u = [] \<and> \<not> wr_ctxDone u \<and>
    (\<forall>ref. (wr_watcher u, ref) \<notin> set (ws_goroutines (wr_watches u))) \<and>
    (wr_phase u = Waiting \<or> wr_phase u = Deciding \<or> (\<exists>ns. wr_phase u = Subscribing ns))"
  using assms(1)
proof (induction rule: rtranclp_induct)
  case base
  obtain wa w' where b: "buildWatch w = (wa, w')" by fastforce
  have "wa = ws_nextWatcher w" using b by (simp add: buildWatch_def)
  then show ?case
    using watch_reach.Start [OF assms(2,3)] buildWatch_effect(5) [OF assms(2) b] assms(3)
    by (auto simp: CreateWatch_def b)
next
  case (step u v)
  then have reach: "watch_reach {resolve} known req v" by (blast intro: watch_reach.Step)
  have inv: "watches_inv (wr_watches u)"
    using step.IH watch_reach_inv by (auto simp: watch_inv_def registry_ok_def)
  from step.hyps(2) show ?case
    by cases (use reach step.IH watcher_watch_keeps(2) [OF inv] assms(4) in \<open>auto simp: initial_phase_def\<close>)
qed

text \<open>C26:
  An update can be lost between two requests. A stream that sends a new request for a type cancels the
  goroutine of the old one. When that goroutine has resolved a changed resource and not yet handed the
  response over, it can take the cancellation, exit and drop the response; and when the stream already
  knows the names of the new request, as it does for an acknowledgement, the new goroutine never
  sends anything by itself, whatever the resolver would answer and however many responses the stream
  would take: the client keeps the old resource until the next change.
\<close>

theorem rewatch_loses_update:
  assumes "watch_reach R known req s" and "wr_phase s = Sending r"
    and "\<not> hasResourceDiff known' req"
  shows "\<exists>s' s'' t. env_step s s' \<and> watch_step resolve known req s' s'' \<and> watch_step resolve known req s'' t \<and>
    wr_phase t = Exited \<and> wr_sent t = wr_sent s \<and>
    (\<forall>room u. (watch_step resolve known' req)\<^sup>*\<^sup>* (CreateWatch room (wr_watches t) req) u \<longrightarrow> wr_sent u = [])"
proof -
  let ?c = "s\<lparr>wr_ctxDone := True\<rparr>"
  have inv: "watches_inv (wr_watches s)" and live: "wr_watcher s \<in> live_watchers (wr_watches s)"
    using watch_reach_inv [OF assms(1)] assms(2) by (simp_all add: watch_inv_def registry_ok_def)
  obtain w where w: "releaseWatch (wr_watcher s) (wr_watches s) = Ok w" "watches_inv w"
    "ws_goroutines w = ws_goroutines (wr_watches s)"
    by (rule releaseWatch_effect [OF inv live])
  let ?t = "?c\<lparr>wr_phase := Waiting, wr_watches := w, wr_phase := Exited\<rparr>"
  have drop: "watch_step resolve known req ?c (?c\<lparr>wr_phase := Waiting\<rparr>)"
    using watch_step.SendCancelled [of ?c r] assms(2) by simp
  have exit: "watch_step resolve known req (?c\<lparr>wr_phase := Waiting\<rparr>) ?t"
    using watch_step.Exit [of "?c\<lparr>wr_phase := Waiting\<rparr>" w] w(1) by simp
  have "\<forall>wa ref. (wa, ref) \<in> set (ws_goroutines w) \<longrightarrow> wa < ws_nextWatcher w"
    using watch_reach_built [OF assms(1)] w(3) releaseWatch_next [OF w(1)] by (simp add: goroutines_built_def)
  from known_names_send_nothing [OF _ w(2) this assms(3)]
  have "wr_sent u = []" if "(watch_step resolve known' req)\<^sup>*\<^sup>* (CreateWatch room w req) u" for room u
    using that by blast
  then show ?thesis
    using env_step.Cancel [of s] drop exit
    by (intro exI [of _ ?c] exI [of _ "?c\<lparr>wr_phase := Waiting\<rparr>"] exI [of _ ?t]) simp
qed

text \<open>
  A deletion the informer missed is reported by a tombstone, which has no metadata: the slice handler
  returns the error of the accessor, the queue drops it, and nobody is notified.
\<close>

lemma slice_tombstone_notifies_nobody:
  assumes "acc (Tombstone key) = Inl err"
  shows "endpointSliceChangedHandler_OnDelete lib acc ix (Tombstone key) w = Err err \<and>
    handle_event lib acc c (SliceEvent (delete_item (Tombstone key))) w = Ok w"
  using assms by (simp add: handle_event_def dispatch_slice endpointSliceChangedHandler_OnDelete_def
      endpointSliceChangedHandler_handle_def item_simps)

section \<open>A run\<close>







lemma sample_request_facts:
  "dq_ResourceNames sample_request = [''default/test-xds'']" "hasResourceDiff (\<lambda>_. []) sample_request"
  "\<not> hasResourceDiff (\<lambda>_. [''default/test-xds'']) sample_request"
  by (simp_all add: sample_request_def hasResourceDiff_def)







theorem rewatch_loses_update_witness:
  "\<exists>s (t :: watch_run). watch_reach (program_resolvers sample_lib) (\<lambda>_. []) sample_request s \<and>
     wr_phase s = Sending \<lparr>cr_req = sample_request, cr_resp = sample_answer\<rparr> \<and>
     wr_phase t = Exited \<and> wr_sent t = wr_sent s \<and> length (wr_sent s) = 1 \<and>
     (\<forall>u. wr_sent u = [] \<or> \<not> (watch_step sample_resolver (\<lambda>_. [''default/test-xds'']) sample_request)\<^sup>*\<^sup>*
        (CreateWatch 1 (wr_watches t) sample_request) u)"
proof -
  let ?R = "program_resolvers sample_lib" and ?ref = "req_ref sample_request ''default/test-xds''"
  obtain s where s: "watch_reach ?R (\<lambda>_. []) sample_request s" "wr_phase s = Waiting"
    "wr_sent s = [\<lparr>cr_req = sample_request, cr_resp = sample_answer\<rparr>]"
    by (rule sample_run)
  let ?n = "s\<lparr>wr_watches := fold watches_notifyChanged [?ref] (wr_watches s)\<rparr>"
  have reach: "watch_reach ?R (\<lambda>_. []) sample_request ?n" by (rule watch_reach_notify [OF s(1)])
  have "watches_inv (wr_watches s)" "wr_watcher s \<in> subscribers (wr_watches s) ?ref"
    using watch_reach_inv [OF s(1)] s(2) sample_request_facts(1)
    by (simp_all add: watch_inv_def registry_ok_def phase_ok_def subscribed_to_def)
  then have "pending sample_request ''default/test-xds'' ?n" by (intro pending_notified) simp_all
  then have mem: "(wr_watcher ?n, ?ref) \<in> set (ws_goroutines (wr_watches ?n))" by (simp add: pending_def)
  have "wr_phase ?n = Waiting" using s(2) by simp
  note taken = watch_reach.Step [OF reach sample_resolver_program watch_step.Changed [OF this mem]]
  have "changed_phase sample_resolver sample_request ?ref = Sending \<lparr>cr_req = sample_request, cr_resp = sample_answer\<rparr>"
    using sample_resolver_answer by (simp add: changed_phase_def req_ref_def sample_request_def)
  with watch_reach.Step [OF taken sample_resolver_program watch_step.Resolve]
  obtain v where rv: "watch_reach ?R (\<lambda>_. []) sample_request v" and v: "wr_sent v = wr_sent s"
    "wr_phase v = Sending \<lparr>cr_req = sample_request, cr_resp = sample_answer\<rparr>"
    by fastforce
  from rewatch_loses_update [OF rv v(2) sample_request_facts(3), of sample_resolver]
  obtain t :: watch_run where "wr_phase t = Exited" "wr_sent t = wr_sent v"
    "\<forall>room u. (watch_step sample_resolver (\<lambda>_. [''default/test-xds'']) sample_request)\<^sup>*\<^sup>*
        (CreateWatch room (wr_watches t) sample_request) u \<longrightarrow> wr_sent u = []"
    by blast
  then show ?thesis using rv v s(3) by (intro exI [of _ v] exI [of _ t]) auto
qed

end
