(* ===== verification/Client_View.thy ===== *)
theory Client_View
  imports Consistency
begin

text \<open>
  Consistency of requests for any number of resources, as the client sees it. A response carries
  encoded resources; the client decodes each, reads its name and keeps the last one it got under each
  name. Whatever the goroutine of a request has delivered under a name is the current resource of that
  name as soon as the controller has settled, although a response after a change carries one resource
  only and the first response is all or nothing. What the client got from earlier requests is not
  counted: it may be out of date (\<open>rewatch_loses_update\<close>). The decoder is the client's protobuf library, a
  parameter.
\<close>

section \<open>What the client holds\<close>

type_synonym decoder = "string \<Rightarrow> string \<Rightarrow> string"


definition any_name :: "decoder \<Rightarrow> AnyMsg \<Rightarrow> string" where
  "any_name dec a = dec (any_TypeUrl a) (any_Value a)"

definition resources_of :: "cacheResponse \<Rightarrow> AnyMsg list" where
  "resources_of r = List.map_filter id (rr_resources (cr_resp r))"

definition client_view :: "decoder \<Rightarrow> string \<Rightarrow> cacheResponse list \<Rightarrow> AnyMsg option" where
  "client_view dec n rs =
     (let as = filter (\<lambda>a. any_name dec a = n) (concat (map resources_of rs))
      in if as = [] then None else Some (last as))"

lemma client_view_Nil [simp]: "client_view dec n [] = None"
  by (simp add: client_view_def)


section \<open>The names of the answers\<close>





section \<open>The invariant\<close>

text \<open>What the stream has taken or is about to take.\<close>

definition answered :: "watch_run \<Rightarrow> cacheResponse list" where
  "answered s = wr_sent s @ (case wr_phase s of Sending r \<Rightarrow> [r] | _ \<Rightarrow> [])"

lemma answered_watches [simp]: "answered (s\<lparr>wr_watches := w\<rparr>) = answered s"
  by (simp add: answered_def split: phase.split)

lemma answered_room [simp]: "answered (s\<lparr>wr_room := k\<rparr>) = answered s"
  by (simp add: answered_def split: phase.split)

text \<open>
  The resource delivered under a name is the answer for it; while a resolution of the name is under way,
  nothing it reads may have changed since it began.
\<close>

definition view_has ::
    "xdslib \<Rightarrow> DiscoveryRequest \<Rightarrow> decoder \<Rightarrow> string \<Rightarrow> informer_caches \<Rightarrow> informer_caches list \<Rightarrow> watch_run \<Rightarrow>
     resolveResponse \<Rightarrow> bool" where
  "view_has lib req dec n c W s r \<longleftrightarrow>
     (if wr_phase s = Deciding \<or> wr_phase s = Resolving (req_ref req n) then reads_current lib req n c W
      else \<forall>a. client_view dec n (answered s) = Some a \<longrightarrow> rr_resources r = [Some a])"

lemma view_has_watches [simp]: "view_has lib req dec n c W (s\<lparr>wr_watches := w\<rparr>) = view_has lib req dec n c W s"
  by (simp add: view_has_def fun_eq_iff)

lemma view_has_room [simp]: "view_has lib req dec n c W (s\<lparr>wr_room := k\<rparr>) = view_has lib req dec n c W s"
  by (simp add: view_has_def fun_eq_iff)













section \<open>No stale resource\<close>


section \<open>A request for two listeners\<close>




















end
