(* ===== verification/Clientset.thy ===== *)
theory Clientset
  imports Client_Api Complex_Main
begin

text \<open>
  The generated clientset: how it is built from a REST configuration
  (\<^verbatim>\<open>client/clientset/versioned/clientset.go\<close>, \<^verbatim>\<open>typed/gtc/v1alpha1/gtc_client.go\<close>), its fake
  (\<^verbatim>\<open>fake/clientset_generated.go\<close>, \<^verbatim>\<open>typed/gtc/v1alpha1/fake\<close>) and the registration of the API types
  (\<^verbatim>\<open>api/gtc/v1alpha1/register.go\<close>, \<^verbatim>\<open>scheme/register.go\<close>, \<^verbatim>\<open>fake/register.go\<close>). The REST library, the
  discovery client, the scheme and the fake's action recorder with its object tracker are libraries.
\<close>

section \<open>The API group\<close>

record group_version =
  gv_Group :: string
  gv_Version :: string

record group_version_kind = group_version +
  gvk_Kind :: string

record group_version_resource = group_version +
  gvr_Resource :: string

definition GroupName :: string where "GroupName = ''api.gtc.dev''"

definition Version :: string where "Version = ''v1alpha1''"

definition SchemeGroupVersion :: group_version where
  "SchemeGroupVersion = \<lparr>gv_Group = GroupName, gv_Version = Version\<rparr>"

text \<open>The kind and the resource of a group and version, and their group-qualified forms, as pairs.\<close>

definition gv_WithKind :: "group_version \<Rightarrow> string \<Rightarrow> group_version_kind" where
  "gv_WithKind gv k = \<lparr>gv_Group = gv_Group gv, gv_Version = gv_Version gv, gvk_Kind = k\<rparr>"

definition gv_WithResource :: "group_version \<Rightarrow> string \<Rightarrow> group_version_resource" where
  "gv_WithResource gv r = \<lparr>gv_Group = gv_Group gv, gv_Version = gv_Version gv, gvr_Resource = r\<rparr>"

definition register_Kind :: "string \<Rightarrow> string \<times> string" where
  "register_Kind kind = (let gvk = gv_WithKind SchemeGroupVersion kind in (gv_Group gvk, gvk_Kind gvk))"

definition register_Resource :: "string \<Rightarrow> string \<times> string" where
  "register_Resource res = (let gvr = gv_WithResource SchemeGroupVersion res in (gv_Group gvr, gvr_Resource gvr))"

text \<open>
  The scheme library: registering Go types under a group and version, adding the meta types, and
  running the functions of a scheme builder.
\<close>

record 's scheme_lib =
  sch_New :: 's
  sch_AddKnownTypes :: "group_version \<Rightarrow> string list \<Rightarrow> 's \<Rightarrow> 's"
  sch_AddToGroupVersion :: "group_version \<Rightarrow> 's \<Rightarrow> 's"
  sch_RunBuilder :: "('s \<Rightarrow> 's outcome) list \<Rightarrow> 's \<Rightarrow> 's outcome"

definition addKnownTypes :: "'s scheme_lib \<Rightarrow> 's \<Rightarrow> 's outcome" where
  "addKnownTypes sl scheme =
     (let scheme = sch_AddKnownTypes sl SchemeGroupVersion [''GRPCListener'', ''GRPCListenerList''] scheme
      in Ok (sch_AddToGroupVersion sl SchemeGroupVersion scheme))"

definition api_AddToScheme :: "'s scheme_lib \<Rightarrow> 's \<Rightarrow> 's outcome" where
  "api_AddToScheme sl = sch_RunBuilder sl [addKnownTypes sl]"

definition client_AddToScheme :: "'s scheme_lib \<Rightarrow> 's \<Rightarrow> 's outcome" where
  "client_AddToScheme sl = sch_RunBuilder sl [api_AddToScheme sl]"

definition util_Must :: "'a outcome \<Rightarrow> 'a outcome" where
  "util_Must r = (case r of Err e \<Rightarrow> Panic (PanicWith e) | _ \<Rightarrow> r)"

definition scheme_init :: "'s scheme_lib \<Rightarrow> 's outcome" where
  "scheme_init sl =
     (let scheme = sch_AddToGroupVersion sl \<lparr>gv_Group = '''', gv_Version = ''v1''\<rparr> (sch_New sl)
      in util_Must (client_AddToScheme sl scheme))"

section \<open>The REST configuration\<close>

text \<open>
  The fields the clientset reads or writes; the transport and the credentials are \<open>rest\<close>. \<^verbatim>\<open>QPS\<close> is a
  float that is only compared with zero and handed on.
\<close>

record ('l, 's, 'x) rest_config =
  rc_APIPath :: string
  rc_GroupVersion :: "group_version option"
  rc_NegotiatedSerializer :: "'s option"
  rc_UserAgent :: string
  rc_QPS :: rat
  rc_Burst :: int
  rc_RateLimiter :: "'l option"
  rc_rest :: 'x

record ('l, 's, 'x, 'h, 'r, 'd) rest_lib =
  rl_DefaultKubernetesUserAgent :: string
  rl_WithoutConversion :: 's
  rl_NewTokenBucketRateLimiter :: "rat \<Rightarrow> int \<Rightarrow> 'l"
  rl_HTTPClientFor :: "('l, 's, 'x) rest_config \<Rightarrow> go_error + 'h"
  rl_RESTClientForConfigAndClient :: "('l, 's, 'x) rest_config \<Rightarrow> 'h \<Rightarrow> go_error + 'r"
  rl_NewDiscoveryClientForConfigAndClient :: "('l, 's, 'x) rest_config \<Rightarrow> 'h \<Rightarrow> go_error + 'd"
  rl_NewDiscoveryClient :: "'r \<Rightarrow> 'd"

section \<open>The client of the group\<close>

record 'r ApiV1alpha1Client =
  ac_restClient :: 'r

definition setConfigDefaults ::
    "('l, 's, 'x, 'h, 'r, 'd) rest_lib \<Rightarrow> ('l, 's, 'x) rest_config \<Rightarrow> ('l, 's, 'x) rest_config outcome" where
  "setConfigDefaults rl config =
     (let config = config\<lparr>rc_GroupVersion := Some SchemeGroupVersion, rc_APIPath := ''/apis'',
            rc_NegotiatedSerializer := Some (rl_WithoutConversion rl)\<rparr>;
          config = (if rc_UserAgent config = ''''
            then config\<lparr>rc_UserAgent := rl_DefaultKubernetesUserAgent rl\<rparr> else config)
      in Ok config)"

definition api_NewForConfigAndClient ::
    "('l, 's, 'x, 'h, 'r, 'd) rest_lib \<Rightarrow> ('l, 's, 'x) rest_config option \<Rightarrow> 'h \<Rightarrow> 'r ApiV1alpha1Client outcome" where
  "api_NewForConfigAndClient rl c h =
     and_then (deref c) (\<lambda>config.
     and_then (setConfigDefaults rl config) (\<lambda>config.
     and_then (of_lib (rl_RESTClientForConfigAndClient rl config h)) (\<lambda>client.
       Ok \<lparr>ac_restClient = client\<rparr>)))"

definition api_NewForConfig ::
    "('l, 's, 'x, 'h, 'r, 'd) rest_lib \<Rightarrow> ('l, 's, 'x) rest_config option \<Rightarrow> 'r ApiV1alpha1Client outcome" where
  "api_NewForConfig rl c =
     and_then (deref c) (\<lambda>config.
     and_then (setConfigDefaults rl config) (\<lambda>config.
     and_then (of_lib (rl_HTTPClientFor rl config)) (\<lambda>httpClient.
       api_NewForConfigAndClient rl (Some config) httpClient)))"

definition api_NewForConfigOrDie ::
    "('l, 's, 'x, 'h, 'r, 'd) rest_lib \<Rightarrow> ('l, 's, 'x) rest_config option \<Rightarrow> 'r ApiV1alpha1Client outcome" where
  "api_NewForConfigOrDie rl c = util_Must (api_NewForConfig rl c)"

definition api_New :: "'r \<Rightarrow> 'r ApiV1alpha1Client" where
  "api_New c = \<lparr>ac_restClient = c\<rparr>"

definition api_RESTClient :: "'r ApiV1alpha1Client option \<Rightarrow> 'r option" where
  "api_RESTClient c = (case c of None \<Rightarrow> None | Some c \<Rightarrow> Some (ac_restClient c))"

record 'r gRPCListeners =
  grl_client :: "'r option"
  grl_ns :: string

definition newGRPCListeners :: "'r ApiV1alpha1Client option \<Rightarrow> string \<Rightarrow> 'r gRPCListeners" where
  "newGRPCListeners c namespace = \<lparr>grl_client = api_RESTClient c, grl_ns = namespace\<rparr>"

definition api_GRPCListeners :: "'r ApiV1alpha1Client option \<Rightarrow> string \<Rightarrow> 'r gRPCListeners" where
  "api_GRPCListeners c namespace = newGRPCListeners c namespace"

section \<open>The clientset\<close>

record ('r, 'd) Clientset =
  cs_DiscoveryClient :: 'd
  cs_apiV1alpha1 :: "'r ApiV1alpha1Client"

definition cs_ApiV1alpha1 :: "('r, 'd) Clientset option \<Rightarrow> 'r ApiV1alpha1Client outcome" where
  "cs_ApiV1alpha1 c = and_then (deref c) (\<lambda>c. Ok (cs_apiV1alpha1 c))"

definition cs_Discovery :: "('r, 'd) Clientset option \<Rightarrow> 'd option" where
  "cs_Discovery c = (case c of None \<Rightarrow> None | Some c \<Rightarrow> Some (cs_DiscoveryClient c))"

definition NewForConfigAndClient ::
    "('l, 's, 'x, 'h, 'r, 'd) rest_lib \<Rightarrow> ('l, 's, 'x) rest_config option \<Rightarrow> 'h \<Rightarrow> ('r, 'd) Clientset outcome" where
  "NewForConfigAndClient rl c httpClient =
     and_then (deref c) (\<lambda>config.
     and_then
       (if rc_RateLimiter config = None \<and> rc_QPS config > 0 then
          (if rc_Burst config \<le> 0 then
             Err (ErrorsNew ''burst is required to be greater than 0 when RateLimiter is not set and QPS is set to greater than 0'')
           else Ok (config\<lparr>rc_RateLimiter := Some (rl_NewTokenBucketRateLimiter rl (rc_QPS config) (rc_Burst config))\<rparr>))
        else Ok config) (\<lambda>config.
     and_then (api_NewForConfigAndClient rl (Some config) httpClient) (\<lambda>api.
     and_then (of_lib (rl_NewDiscoveryClientForConfigAndClient rl config httpClient)) (\<lambda>discovery.
       Ok \<lparr>cs_DiscoveryClient = discovery, cs_apiV1alpha1 = api\<rparr>))))"

definition NewForConfig ::
    "('l, 's, 'x, 'h, 'r, 'd) rest_lib \<Rightarrow> ('l, 's, 'x) rest_config option \<Rightarrow> ('r, 'd) Clientset outcome" where
  "NewForConfig rl c =
     and_then (deref c) (\<lambda>config.
       let config = (if rc_UserAgent config = ''''
             then config\<lparr>rc_UserAgent := rl_DefaultKubernetesUserAgent rl\<rparr> else config)
       in and_then (of_lib (rl_HTTPClientFor rl config)) (\<lambda>httpClient.
            NewForConfigAndClient rl (Some config) httpClient))"

definition NewForConfigOrDie ::
    "('l, 's, 'x, 'h, 'r, 'd) rest_lib \<Rightarrow> ('l, 's, 'x) rest_config option \<Rightarrow> ('r, 'd) Clientset outcome" where
  "NewForConfigOrDie rl c = util_Must (NewForConfig rl c)"

definition clientset_New :: "('l, 's, 'x, 'h, 'r, 'd) rest_lib \<Rightarrow> 'r \<Rightarrow> ('r, 'd) Clientset" where
  "clientset_New rl c = \<lparr>cs_DiscoveryClient = rl_NewDiscoveryClient rl c, cs_apiV1alpha1 = api_New c\<rparr>"

section \<open>The fake\<close>

text \<open>
  A fake method turns the call into an action and hands it to the recorder, which answers with an
  object or nil and an error; both are returned. The objects of the group are the listener and its
  list, any other object fails the type assertion.
\<close>

datatype 'm runtime_object = ListenerObject GRPCListener | ListenerListObject 'm "GRPCListener list" | OtherObject

datatype ('d, 'o) fake_action =
    GetAction group_version_resource string string
  | ListAction group_version_resource group_version_kind string "'o ListOptions"
  | WatchAction group_version_resource string "'o ListOptions"
  | CreateAction group_version_resource string "GRPCListener option"
  | UpdateAction group_version_resource string "GRPCListener option"
  | DeleteActionWithOptions group_version_resource string string 'd
  | DeleteCollectionAction group_version_resource string "'o ListOptions"
  | PatchSubresourceAction group_version_resource string string string "8 word list" "string list"

type_synonym ('f, 'm, 'd, 'o) invokes =
  "('d, 'o) fake_action \<Rightarrow> 'm runtime_object \<Rightarrow> 'f \<Rightarrow> ('m runtime_object option \<times> go_error option) \<times> 'f"

type_synonym ('f, 'a) fake_call = "(('a option \<times> go_error option) outcome) \<times> 'f"

record FakeGRPCListeners =
  fk_ns :: string

definition grpclistenersResource :: group_version_resource where
  "grpclistenersResource = gv_WithResource SchemeGroupVersion ''grpclisteners''"

definition grpclistenersKind :: group_version_kind where
  "grpclistenersKind = gv_WithKind SchemeGroupVersion ''GRPCListener''"

definition fake_GRPCListeners :: "string \<Rightarrow> FakeGRPCListeners" where
  "fake_GRPCListeners namespace = \<lparr>fk_ns = namespace\<rparr>"

text \<open>\<^verbatim>\<open>RESTClient\<close> of the fake returns an interface that holds a nil pointer.\<close>

definition fake_RESTClient :: "'r option" where
  "fake_RESTClient = None"

definition wrong_type :: go_panic where
  "wrong_type = PanicWith (LibraryError ''interface conversion'')"

definition empty_listener :: GRPCListener where
  "empty_listener = \<lparr>gl_TypeMeta = \<lparr>tm_Kind = [], tm_APIVersion = []\<rparr>,
     gl_ObjectMeta = \<lparr>om_Name = [], om_Namespace = [], om_ResourceVersion = [], om_Labels = (\<lambda>_. None)\<rparr>,
     gl_Spec = \<lparr>ls_MaxStreamDuration = None, ls_Interceptors = [], ls_Retry = None, ls_Routes = []\<rparr>\<rparr>"

text \<open>The common end of the methods that return a listener.\<close>

definition listener_result :: "'m runtime_object option \<times> go_error option \<Rightarrow> (GRPCListener option \<times> go_error option) outcome" where
  "listener_result r =
     (case fst r of
        None \<Rightarrow> Ok (None, snd r)
      | Some (ListenerObject l) \<Rightarrow> Ok (Some l, snd r)
      | Some _ \<Rightarrow> Panic wrong_type)"

definition fake_Get ::
    "('f, 'm, 'd, 'o) invokes \<Rightarrow> FakeGRPCListeners \<Rightarrow> string \<Rightarrow> 'f \<Rightarrow> ('f, GRPCListener) fake_call" where
  "fake_Get Invokes c name f =
     (let (r, f) = Invokes (GetAction grpclistenersResource (fk_ns c) name) (ListenerObject empty_listener) f
      in (listener_result r, f))"

text \<open>\<open>label_of\<close> is the selector \<^verbatim>\<open>testing.ExtractFromListOptions\<close> finds, \<open>noMeta\<close> the zero list metadata.\<close>

definition fake_ListListeners ::
    "('f, 'm, 'd, 'o) invokes \<Rightarrow> ('o ListOptions \<Rightarrow> ((string \<rightharpoonup> string) \<Rightarrow> bool) option) \<Rightarrow> 'm \<Rightarrow> FakeGRPCListeners \<Rightarrow>
     'o ListOptions \<Rightarrow> 'f \<Rightarrow> ('f, 'm \<times> GRPCListener list) fake_call" where
  "fake_ListListeners Invokes label_of noMeta c opts f =
     (let (r, f) = Invokes (ListAction grpclistenersResource grpclistenersKind (fk_ns c) opts)
            (ListenerListObject noMeta []) f
      in (case fst r of
            None \<Rightarrow> Ok (None, snd r)
          | Some (ListenerListObject listMeta items) \<Rightarrow>
              Ok (map_option (Pair listMeta)
                    (fake_List (om_Labels \<circ> gl_ObjectMeta) (label_of opts) (Some items)), snd r)
          | Some _ \<Rightarrow> Panic wrong_type, f))"

definition fake_Watch ::
    "(('d, 'o) fake_action \<Rightarrow> 'f \<Rightarrow> 'w \<times> 'f) \<Rightarrow> FakeGRPCListeners \<Rightarrow> 'o ListOptions \<Rightarrow> 'f \<Rightarrow> 'w \<times> 'f" where
  "fake_Watch InvokesWatch c opts f = InvokesWatch (WatchAction grpclistenersResource (fk_ns c) opts) f"

definition fake_Create ::
    "('f, 'm, 'd, 'o) invokes \<Rightarrow> FakeGRPCListeners \<Rightarrow> GRPCListener option \<Rightarrow> 'f \<Rightarrow> ('f, GRPCListener) fake_call" where
  "fake_Create Invokes c lis f =
     (let (r, f) = Invokes (CreateAction grpclistenersResource (fk_ns c) lis) (ListenerObject empty_listener) f
      in (listener_result r, f))"

definition fake_Update ::
    "('f, 'm, 'd, 'o) invokes \<Rightarrow> FakeGRPCListeners \<Rightarrow> GRPCListener option \<Rightarrow> 'f \<Rightarrow> ('f, GRPCListener) fake_call" where
  "fake_Update Invokes c lis f =
     (let (r, f) = Invokes (UpdateAction grpclistenersResource (fk_ns c) lis) (ListenerObject empty_listener) f
      in (listener_result r, f))"

definition fake_Delete ::
    "('f, 'm, 'd, 'o) invokes \<Rightarrow> FakeGRPCListeners \<Rightarrow> string \<Rightarrow> 'd \<Rightarrow> 'f \<Rightarrow> go_error option \<times> 'f" where
  "fake_Delete Invokes c name opts f =
     (let (r, f) = Invokes (DeleteActionWithOptions grpclistenersResource (fk_ns c) name opts)
            (ListenerObject empty_listener) f
      in (snd r, f))"

definition fake_DeleteCollection ::
    "('f, 'm, 'd, 'o) invokes \<Rightarrow> 'm \<Rightarrow> FakeGRPCListeners \<Rightarrow> 'd \<Rightarrow> 'o ListOptions \<Rightarrow> 'f \<Rightarrow> go_error option \<times> 'f" where
  "fake_DeleteCollection Invokes noMeta c opts listOpts f =
     (let action = DeleteCollectionAction grpclistenersResource (fk_ns c) listOpts;
          (r, f) = Invokes action (ListenerListObject noMeta []) f
      in (snd r, f))"

definition fake_Patch ::
    "('f, 'm, 'd, 'o) invokes \<Rightarrow> FakeGRPCListeners \<Rightarrow> string \<Rightarrow> string \<Rightarrow> 8 word list \<Rightarrow> string list \<Rightarrow> 'f \<Rightarrow>
     ('f, GRPCListener) fake_call" where
  "fake_Patch Invokes c name pt data subresources f =
     (let (r, f) = Invokes (PatchSubresourceAction grpclistenersResource (fk_ns c) name pt data subresources)
            (ListenerObject empty_listener) f
      in (listener_result r, f))"

definition fake_Apply ::
    "('f, 'm, 'd, 'o) invokes \<Rightarrow> (('t, 'r, 's) GRPCListenerApply \<Rightarrow> go_error + 8 word list) \<Rightarrow> FakeGRPCListeners \<Rightarrow>
     ('t, 'r, 's) GRPCListenerApply option \<Rightarrow> 'f \<Rightarrow> ('f, GRPCListener) fake_call" where
  "fake_Apply Invokes marshal c cfg f =
     (case cfg of
        None \<Rightarrow> (Ok (None, Some (ErrorsNew ''gRPCListener provided to Apply must not be nil'')), f)
      | Some b \<Rightarrow>
          (case marshal b of
             Inl err \<Rightarrow> (Ok (None, Some err), f)
           | Inr data \<Rightarrow>
               (case gla_ObjectMeta b of
                  None \<Rightarrow> (Panic NilDereference, f)
                | Some m \<Rightarrow>
                    (case oma_Name m of
                       None \<Rightarrow> (Ok (None, Some (ErrorsNew ''gRPCListener.Name must be provided to Apply'')), f)
                     | Some name \<Rightarrow>
                         (let (r, f) = Invokes (PatchSubresourceAction grpclistenersResource (fk_ns c) name
                                ''application/apply-patch+yaml'' data []) (ListenerObject empty_listener) f
                          in (listener_result r, f))))))"

text \<open>
  The fake clientset: the tracker is filled with the objects it is given, a failure panics, and its
  reactors answer every action from the tracker.
\<close>

record 'tr FakeClientset =
  fc_tracker :: 'tr

definition NewSimpleClientset :: "('o \<Rightarrow> 'tr \<Rightarrow> go_error + 'tr) \<Rightarrow> 'tr \<Rightarrow> 'o list \<Rightarrow> 'tr FakeClientset outcome" where
  "NewSimpleClientset add newTracker objects =
     and_then (for_range (\<lambda>i obj tr. util_Must (of_lib (add obj tr))) 0 objects newTracker)
       (\<lambda>tr. Ok \<lparr>fc_tracker = tr\<rparr>)"

text \<open>The reactor of watches: an error of the tracker leaves the action unhandled.\<close>

definition watch_reaction :: "(group_version_resource \<Rightarrow> string \<Rightarrow> 'tr \<Rightarrow> (go_error + 'w) \<times> 'tr) \<Rightarrow>
    group_version_resource \<Rightarrow> string \<Rightarrow> 'tr \<Rightarrow> (bool \<times> 'w option \<times> go_error option) \<times> 'tr" where
  "watch_reaction watch gvr ns tr =
     (case watch gvr ns tr of
        (Inl err, tr) \<Rightarrow> ((False, None, Some err), tr)
      | (Inr w, tr) \<Rightarrow> ((True, Some w, None), tr))"

definition fake_Tracker :: "'tr FakeClientset option \<Rightarrow> 'tr outcome" where
  "fake_Tracker c = and_then (deref c) (\<lambda>c. Ok (fc_tracker c))"

section \<open>Building a client\<close>

lemma util_Must_simps [simp]: "util_Must (Ok a) = Ok a" "util_Must (Err e) = Panic (PanicWith e)" "util_Must (Panic p) = Panic p"
  by (simp_all add: util_Must_def)

lemma setConfigDefaults_idem: "setConfigDefaults rl c = Ok c' \<Longrightarrow> setConfigDefaults rl c' = Ok c'"
  by (cases c) (auto simp: setConfigDefaults_def Let_def split: if_splits)

text \<open>The two constructors of the group's client agree: the defaults are set twice, to the same effect.\<close>

lemma api_NewForConfig_eq:
  "api_NewForConfig rl c =
     and_then (deref c) (\<lambda>config. and_then (setConfigDefaults rl config) (\<lambda>config.
       and_then (of_lib (rl_HTTPClientFor rl config)) (api_NewForConfigAndClient rl c)))"
proof (cases c)
  case (Some config)
  obtain d where d: "setConfigDefaults rl config = Ok d" by (simp add: setConfigDefaults_def Let_def)
  from setConfigDefaults_idem [OF d] show ?thesis
    by (cases "rl_HTTPClientFor rl d") (simp_all add: api_NewForConfig_def api_NewForConfigAndClient_def Some d)
qed (simp add: api_NewForConfig_def deref_def)

text \<open>
  A clientset that is built shares one HTTP client and one rate limiter between its two clients, and
  has a limiter whenever the configuration asks for a rate.
\<close>

lemma clientset_shares_transport:
  assumes "NewForConfig rl (Some c) = Ok cs"
  shows "\<exists>config h d. rl_NewDiscoveryClientForConfigAndClient rl config h = Inr (cs_DiscoveryClient cs) \<and>
    setConfigDefaults rl config = Ok d \<and>
    rl_RESTClientForConfigAndClient rl d h = Inr (ac_restClient (cs_apiV1alpha1 cs)) \<and>
    rc_RateLimiter d = rc_RateLimiter config \<and> (rc_RateLimiter config = None \<longrightarrow> rc_QPS c \<le> 0)"
proof -
  define a where "a = (if rc_UserAgent c = [] then c\<lparr>rc_UserAgent := rl_DefaultKubernetesUserAgent rl\<rparr> else c)"
  have qps: "rc_QPS a = rc_QPS c" by (simp add: a_def)
  obtain h where "NewForConfigAndClient rl (Some a) h = Ok cs"
    using assms by (auto simp: NewForConfig_def a_def [symmetric] go_simps)
  moreover define config where "config = (if rc_RateLimiter a = None \<and> rc_QPS a > 0
    then a\<lparr>rc_RateLimiter := Some (rl_NewTokenBucketRateLimiter rl (rc_QPS a) (rc_Burst a))\<rparr> else a)"
  ultimately have disc: "rl_NewDiscoveryClientForConfigAndClient rl config h = Inr (cs_DiscoveryClient cs)"
    and api: "api_NewForConfigAndClient rl (Some config) h = Ok (cs_apiV1alpha1 cs)"
    by (auto simp: NewForConfigAndClient_def go_simps split: if_splits)
  have "rc_RateLimiter config = None \<longrightarrow> rc_QPS a \<le> 0" by (auto simp: config_def)
  moreover obtain d where d: "setConfigDefaults rl config = Ok d" by (simp add: setConfigDefaults_def Let_def)
  moreover have "rc_RateLimiter d = rc_RateLimiter config"
    using d by (auto simp: setConfigDefaults_def Let_def)
  moreover have "rl_RESTClientForConfigAndClient rl d h = Inr (ac_restClient (cs_apiV1alpha1 cs))"
    using api by (auto simp: api_NewForConfigAndClient_def d go_simps)
      (metis ApiV1alpha1Client.select_convs(1))
  ultimately show ?thesis
    using qps disc by (intro exI [of _ config] exI [of _ h] exI [of _ d]) simp
qed

text \<open>A rate without a burst is refused, and the constructors that die turn every error into a panic.\<close>

lemma burst_is_required:
  assumes "rc_RateLimiter c = None" and "rc_QPS c > 0" and "rc_Burst c \<le> 0"
    and "rl_HTTPClientFor rl (if rc_UserAgent c = [] then c\<lparr>rc_UserAgent := rl_DefaultKubernetesUserAgent rl\<rparr> else c) = Inr h"
  shows "\<exists>msg. NewForConfig rl (Some c) = Err (ErrorsNew msg) \<and>
    NewForConfigOrDie rl (Some c) = Panic (PanicWith (ErrorsNew msg))"
  using assms by (simp add: NewForConfigOrDie_def NewForConfig_def NewForConfigAndClient_def Let_def)

text \<open>The package's initialisation registers the two types and cannot panic, as no registration fails.\<close>

lemma scheme_init_registers:
  assumes "\<And>fs s. sch_RunBuilder sl fs s = each (\<lambda>f. f) fs s"
  shows "scheme_init sl = Ok (sch_AddToGroupVersion sl SchemeGroupVersion
    (sch_AddKnownTypes sl SchemeGroupVersion [''GRPCListener'', ''GRPCListenerList'']
      (sch_AddToGroupVersion sl \<lparr>gv_Group = [], gv_Version = ''v1''\<rparr> (sch_New sl))))"
  by (simp add: scheme_init_def client_AddToScheme_def api_AddToScheme_def addKnownTypes_def assms Let_def)

text \<open>A fake clientset starts with all its objects, or panics at the first one the tracker refuses.\<close>

lemma NewSimpleClientset_result:
  "NewSimpleClientset add tr objects =
     (case fold (\<lambda>obj r. case r of Inl e \<Rightarrow> Inl e | Inr tr \<Rightarrow> add obj tr) objects (Inr tr) of
        Inl e \<Rightarrow> Panic (PanicWith e) | Inr tr' \<Rightarrow> Ok \<lparr>fc_tracker = tr'\<rparr>)"
proof -
  have stuck: "fold (\<lambda>obj r. case r of Inl e \<Rightarrow> Inl e | Inr tr \<Rightarrow> add obj tr) objs (Inl e) = Inl e" for objs and e :: go_error
    by (induction objs) simp_all
  have "for_range (\<lambda>i obj tr. util_Must (of_lib (add obj tr))) i objects tr =
     (case fold (\<lambda>obj r. case r of Inl e \<Rightarrow> Inl e | Inr tr \<Rightarrow> add obj tr) objects (Inr tr) of
        Inl e \<Rightarrow> Panic (PanicWith e) | Inr tr' \<Rightarrow> Ok tr')" for i
  proof (induction objects arbitrary: i tr)
    case (Cons obj objects)
    then show ?case by (cases "add obj tr") (simp_all add: stuck)
  qed simp
  then show ?thesis by (simp add: NewSimpleClientset_def split: sum.split)
qed

section \<open>The fake answers like the client\<close>

text \<open>The methods of \<^verbatim>\<open>GRPCListenerInterface\<close>, which both implement.\<close>

datatype ('p, 'o, 't, 'r, 's) interface_call =
    IGet string 'p
  | IList "'o ListOptions"
  | IWatch "'o ListOptions"
  | ICreate "GRPCListener option" 'p
  | IUpdate "GRPCListener option" 'p
  | IDelete string 'p
  | IDeleteCollection 'p "'o ListOptions"
  | IPatch string string "8 word list" 'p "string list"
  | IApply "('t, 'r, 's) GRPCListenerApply option" 'p

fun client_request ::
    "(('t, 'r, 's) GRPCListenerApply \<Rightarrow> go_error + 8 word list) \<Rightarrow> ('p \<Rightarrow> 'p) \<Rightarrow> string \<Rightarrow>
     ('p, 'o, 't, 'r, 's) interface_call \<Rightarrow> ('p, 'o) rest_request outcome" where
  "client_request marshal toPatch ns (IGet name opts) = Ok (client_Get ns name opts)"
| "client_request marshal toPatch ns (IList opts) = Ok (client_List ns opts)"
| "client_request marshal toPatch ns (IWatch opts) = Ok (client_Watch ns opts)"
| "client_request marshal toPatch ns (ICreate lis opts) = Ok (client_Create ns lis opts)"
| "client_request marshal toPatch ns (IUpdate lis opts) = client_Update ns lis opts"
| "client_request marshal toPatch ns (IDelete name opts) = Ok (client_Delete ns name opts)"
| "client_request marshal toPatch ns (IDeleteCollection opts listOpts) = Ok (client_DeleteCollection ns opts listOpts)"
| "client_request marshal toPatch ns (IPatch name pt data opts subs) = Ok (client_Patch ns name pt data opts subs)"
| "client_request marshal toPatch ns (IApply cfg opts) = client_Apply marshal toPatch ns cfg opts"

text \<open>
  The REST client sends a request unless its builder has noted an error, for a name that is empty or has a
  slash for instance; \<open>refuses\<close> is that error.
\<close>

definition client_run ::
    "(('p, 'o) rest_request \<Rightarrow> go_error option) \<Rightarrow> (('t, 'r, 's) GRPCListenerApply \<Rightarrow> go_error + 8 word list) \<Rightarrow> ('p \<Rightarrow> 'p) \<Rightarrow>
     string \<Rightarrow> ('p, 'o, 't, 'r, 's) interface_call \<Rightarrow> ('p, 'o) rest_request outcome" where
  "client_run refuses marshal toPatch ns call =
     and_then (client_request marshal toPatch ns call) (\<lambda>req. case refuses req of None \<Rightarrow> Ok req | Some e \<Rightarrow> Err e)"

text \<open>A recorder that keeps the actions and gives the default object back, and a call on the fake.\<close>

definition record_action :: "(('d, 'o) fake_action list, 'm, 'd, 'o) invokes" where
  "record_action a obj acts = ((Some obj, None), acts @ [a])"

definition error_of :: "('a option \<times> go_error option) outcome \<Rightarrow> unit outcome" where
  "error_of r = and_then r (\<lambda>(x, err). case err of None \<Rightarrow> Ok () | Some e \<Rightarrow> Err e)"

fun fake_run ::
    "(('t, 'r, 's) GRPCListenerApply \<Rightarrow> go_error + 8 word list) \<Rightarrow>
     ('o ListOptions \<Rightarrow> ((string \<rightharpoonup> string) \<Rightarrow> bool) option) \<Rightarrow> 'm \<Rightarrow> string \<Rightarrow>
     ('p, 'o, 't, 'r, 's) interface_call \<Rightarrow> ('p, 'o) fake_action list \<Rightarrow> unit outcome \<times> ('p, 'o) fake_action list" where
  "fake_run marshal label_of noMeta ns (IGet name opts) f =
     apfst error_of (fake_Get (record_action :: (_, 'm, _, _) invokes) (fake_GRPCListeners ns) name f)"
| "fake_run marshal label_of noMeta ns (IList opts) f =
     apfst error_of (fake_ListListeners record_action label_of noMeta (fake_GRPCListeners ns) opts f)"
| "fake_run marshal label_of noMeta ns (IWatch opts) f =
     fake_Watch (\<lambda>a f. (Ok (), f @ [a])) (fake_GRPCListeners ns) opts f"
| "fake_run marshal label_of noMeta ns (ICreate lis opts) f =
     apfst error_of (fake_Create (record_action :: (_, 'm, _, _) invokes) (fake_GRPCListeners ns) lis f)"
| "fake_run marshal label_of noMeta ns (IUpdate lis opts) f =
     apfst error_of (fake_Update (record_action :: (_, 'm, _, _) invokes) (fake_GRPCListeners ns) lis f)"
| "fake_run marshal label_of noMeta ns (IDelete name opts) f =
     apfst (\<lambda>e. error_of (Ok (None :: unit option, e)))
       (fake_Delete (record_action :: (_, 'm, _, _) invokes) (fake_GRPCListeners ns) name opts f)"
| "fake_run marshal label_of noMeta ns (IDeleteCollection opts listOpts) f =
     apfst (\<lambda>e. error_of (Ok (None :: unit option, e)))
       (fake_DeleteCollection record_action noMeta (fake_GRPCListeners ns) opts listOpts f)"
| "fake_run marshal label_of noMeta ns (IPatch name pt data opts subs) f =
     apfst error_of (fake_Patch (record_action :: (_, 'm, _, _) invokes) (fake_GRPCListeners ns) name pt data subs f)"
| "fake_run marshal label_of noMeta ns (IApply cfg opts) f =
     apfst error_of (fake_Apply (record_action :: (_, 'm, _, _) invokes) marshal (fake_GRPCListeners ns) cfg f)"

text \<open>What a request and an action address: the verb, and the object with the body.\<close>

datatype api_verb = VGet | VList | VWatch | VCreate | VUpdate | VDelete | VDeleteCollection | VPatch string

record api_target =
  tg_verb :: api_verb
  tg_resource :: string
  tg_namespace :: string
  tg_name :: "string option"
  tg_subresources :: "string list"
  tg_object :: "GRPCListener option"
  tg_data :: "8 word list"

definition request_verb :: "('p, 'o) rest_request \<Rightarrow> api_verb" where
  "request_verb r =
     (case rr_verb r of
        GET \<Rightarrow> (case rr_params r of ListParams opts \<Rightarrow> if lso_Watch opts then VWatch else VList | _ \<Rightarrow> VGet)
      | POST \<Rightarrow> VCreate
      | PUT \<Rightarrow> VUpdate
      | DELETE \<Rightarrow> if rr_name r = None then VDeleteCollection else VDelete
      | PATCH pt \<Rightarrow> VPatch pt)"

definition request_target :: "('p, 'o) rest_request \<Rightarrow> api_target" where
  "request_target r =
     \<lparr>tg_verb = request_verb r, tg_resource = rr_resource r, tg_namespace = rr_namespace r, tg_name = rr_name r,
      tg_subresources = rr_subresources r,
      tg_object = (case rr_body r of ListenerBody l \<Rightarrow> Some l | _ \<Rightarrow> None),
      tg_data = (case rr_body r of DataBody d \<Rightarrow> d | _ \<Rightarrow> [])\<rparr>"

abbreviation target_of :: "api_verb \<Rightarrow> group_version_resource \<Rightarrow> string \<Rightarrow> string option \<Rightarrow> api_target" where
  "target_of v gvr ns name \<equiv> \<lparr>tg_verb = v, tg_resource = gvr_Resource gvr, tg_namespace = ns, tg_name = name,
     tg_subresources = [], tg_object = None, tg_data = []\<rparr>"

fun action_target :: "('d, 'o) fake_action \<Rightarrow> api_target" where
  "action_target (GetAction gvr ns name) = target_of VGet gvr ns (Some name)"
| "action_target (ListAction gvr gvk ns opts) = target_of VList gvr ns None"
| "action_target (WatchAction gvr ns opts) = target_of VWatch gvr ns None"
| "action_target (CreateAction gvr ns lis) = (target_of VCreate gvr ns None)\<lparr>tg_object := lis\<rparr>"
| "action_target (UpdateAction gvr ns lis) =
     (target_of VUpdate gvr ns (map_option lis_Name lis))\<lparr>tg_object := lis\<rparr>"
| "action_target (DeleteActionWithOptions gvr ns name opts) = target_of VDelete gvr ns (Some name)"
| "action_target (DeleteCollectionAction gvr ns opts) = target_of VDeleteCollection gvr ns None"
| "action_target (PatchSubresourceAction gvr ns name pt data subs) =
     (target_of (VPatch pt) gvr ns (Some name))\<lparr>tg_subresources := subs, tg_data := data\<rparr>"

text \<open>The verb of a method, and the one call on which the client panics and the fake does not.\<close>

fun call_verb :: "('p, 'o, 't, 'r, 's) interface_call \<Rightarrow> api_verb" where
  "call_verb (IGet name opts) = VGet"
| "call_verb (IList opts) = VList"
| "call_verb (IWatch opts) = VWatch"
| "call_verb (ICreate lis opts) = VCreate"
| "call_verb (IUpdate lis opts) = VUpdate"
| "call_verb (IDelete name opts) = VDelete"
| "call_verb (IDeleteCollection opts listOpts) = VDeleteCollection"
| "call_verb (IPatch name pt data opts subs) = VPatch pt"
| "call_verb (IApply cfg opts) = VPatch ''application/apply-patch+yaml''"

fun nil_update :: "('p, 'o, 't, 'r, 's) interface_call \<Rightarrow> bool" where
  "nil_update (IUpdate None opts) = True"
| "nil_update c = False"

fun watching_list :: "('p, 'o, 't, 'r, 's) interface_call \<Rightarrow> bool" where
  "watching_list (IList opts) = lso_Watch opts"
| "watching_list c = False"

lemmas fake_defs = fake_Get_def fake_ListListeners_def fake_Watch_def fake_Create_def fake_Update_def fake_Delete_def
  fake_DeleteCollection_def fake_Patch_def fake_Apply_def fake_GRPCListeners_def record_action_def listener_result_def
  grpclistenersResource_def gv_WithResource_def fake_List_filter

lemmas client_defs = client_Get_def client_List_def client_Watch_def client_Create_def client_Update_def client_Delete_def
  client_DeleteCollection_def client_Patch_def client_Apply_def rest_to_def request_target_def request_verb_def

text \<open>C35:
  How far the fake of the listener client stands for the client, for every call of the interface and a
  recorder that accepts every action. When the client builds a request, the fake reports success and
  records one action, with the method's verb and the resource, namespace, name, subresources and body of
  that request, also when the REST client then refuses the request (an empty name, say) and returns an
  error; the verb is the request's, except for a list whose options ask for a watch, which the client sends
  as a watch. When the client fails before it has a request, the fake fails with the same error or panic
  and records nothing, except for the update with a nil listener, on which the client panics while the
  fake records an action without object and reports success.
\<close>

theorem fake_mirrors_the_client:
  "case client_request marshal toPatch ns call of
     Ok req \<Rightarrow>
       client_run refuses marshal toPatch ns call = (case refuses req of None \<Rightarrow> Ok req | Some e \<Rightarrow> Err e) \<and>
       fst (fake_run marshal label_of noMeta ns call acts) = Ok () \<and>
       map action_target (snd (fake_run marshal label_of noMeta ns call acts)) =
         map action_target acts @ [(request_target req)\<lparr>tg_verb := call_verb call\<rparr>] \<and>
       (request_verb req = call_verb call) = (\<not> watching_list call)
   | Err e \<Rightarrow>
       client_run refuses marshal toPatch ns call = Err e \<and> fake_run marshal label_of noMeta ns call acts = (Err e, acts)
   | Panic p \<Rightarrow>
       client_run refuses marshal toPatch ns call = Panic p \<and>
       (if nil_update call
        then fst (fake_run marshal label_of noMeta ns call acts) = Ok () \<and>
          map action_target (snd (fake_run marshal label_of noMeta ns call acts)) =
            map action_target acts @ [target_of VUpdate grpclistenersResource ns None]
        else fake_run marshal label_of noMeta ns call acts = (Panic p, acts))"
proof (cases call)
  case (IApply cfg opts)
  show ?thesis
  proof (cases cfg)
    case (Some b)
    then show ?thesis
      by (cases "marshal b"; cases "gla_ObjectMeta b")
        (auto simp: IApply client_run_def fake_defs client_defs error_of_def split: option.split)
  qed (simp add: IApply client_run_def fake_defs client_defs error_of_def)
next
  case (IUpdate lis opts)
  then show ?thesis by (cases lis) (simp_all add: client_run_def fake_defs client_defs error_of_def)
next
  case (ICreate lis opts)
  then show ?thesis by (cases lis) (simp_all add: client_run_def fake_defs client_defs error_of_def)
qed (simp_all add: client_run_def fake_defs client_defs error_of_def)

end
