(* ===== verification/Controller.thy ===== *)
theory Controller
  imports Server Clientset
begin

text \<open>
  The controller's command, \<^verbatim>\<open>cmd/controller/main.go\<close>: the set-up with its early returns, the error
  group of the xDS server and the web server, and the end of the process. The run composes the run of
  \<^verbatim>\<open>XDSServer.Run\<close> (theory \<open>Server\<close>) with the one of \<^verbatim>\<open>runWebserver\<close>. Flags, signals, zap and \<^verbatim>\<open>net/http\<close>
  are libraries.
\<close>

section \<open>The set-up\<close>

record main_flags =
  mf_xdsAddr :: string
  mf_httpAddr :: string
  mf_logLevel :: string

definition default_flags :: main_flags where
  "default_flags = \<lparr>mf_xdsAddr = '':18000'', mf_httpAddr = '':8081'', mf_logLevel = ''info''\<rparr>"

record ('lg, 'l, 's, 'x, 'k) main_lib =
  ml_NewDevelopment :: "go_error + 'lg"
  ml_NewProduction :: "go_error + 'lg"
  ml_InClusterConfig :: "go_error + ('l, 's, 'x) rest_config"
  ml_KubeNewForConfig :: "('l, 's, 'x) rest_config \<Rightarrow> go_error + 'k"

definition newLogger :: "('lg, 'l, 's, 'x, 'k) main_lib \<Rightarrow> string \<Rightarrow> go_error + 'lg" where
  "newLogger ml lvl = (if lvl = ''debug'' then ml_NewDevelopment ml else ml_NewProduction ml)"

abbreviation log_info :: "string \<Rightarrow> log_entry" where
  "log_info msg \<equiv> \<lparr>le_level = InfoLevel, le_message = msg, le_fields = []\<rparr>"

definition log_error :: "string \<Rightarrow> go_error \<Rightarrow> log_entry" where
  "log_error msg err = \<lparr>le_level = ErrorLevel, le_message = msg, le_fields = [(''error'', LogError err)]\<rparr>"

text \<open>
  From the flags to the started informers: what is logged, and what runs. An error is logged and ends
  \<^verbatim>\<open>main\<close>; only a failing logger panics. The value of the Kubernetes client stands for its informer factory.
\<close>

definition main_start ::
    "xdslib \<Rightarrow> meta_accessor \<Rightarrow> ('p \<Rightarrow> k8s_object) \<Rightarrow> (('r, 'd) Clientset, 'o, 'i, 're, 'w, 'p) server_lib \<Rightarrow>
     ('k, 'p, 'ch) kube_lib \<Rightarrow> ('l, 's, 'x, 'h, 'r, 'd) rest_lib \<Rightarrow> ('lg, 'l, 's, 'x, 'k) main_lib \<Rightarrow> main_flags \<Rightarrow>
     'ctx \<Rightarrow> 'ch \<Rightarrow> rtype list \<Rightarrow> 'w \<Rightarrow>
     (log_entry list \<times> (('p, 'ctx) xds_server \<times> (('r, 'd) Clientset, 'o, 'i) sharedInformerFactory \<times>
        (rtype \<times> 'i \<times> 'ch) list \<times> 'k) option) outcome" where
  "main_start lib acc mem sl kl rl ml flags ctx ctxDone order w =
     and_then (util_Must (of_lib (newLogger ml (mf_logLevel flags)))) (\<lambda>logger.
     case ml_InClusterConfig ml of
       Inl err \<Rightarrow> Ok ([log_error ''Can't build kube config'' err], None)
     | Inr kubeConfig \<Rightarrow>
       (case ml_KubeNewForConfig ml kubeConfig of
          Inl err \<Rightarrow> Ok ([log_error ''Can't create kubernetes client'' err], None)
        | Inr k \<Rightarrow>
          (case NewForConfig rl (Some kubeConfig) of
             Panic p \<Rightarrow> Panic p
           | Err err \<Rightarrow> Ok ([log_error ''Can't create gtc client'' err], None)
           | Ok gtcClient \<Rightarrow>
             (case controller_setup lib acc mem sl kl ctx (mf_xdsAddr flags) gtcClient ctxDone order w k of
                Panic p \<Rightarrow> Panic p
              | Err err \<Rightarrow> Ok ([log_error ''Can't create gtc server'' err], None)
              | Ok r \<Rightarrow> Ok ([log_info ''Starting informers...'', log_info ''Running gRPC Traffic controller''], Some r)))))"

text \<open>What \<^verbatim>\<open>main\<close> logs when the group has returned.\<close>

definition main_end :: "go_error option \<Rightarrow> log_entry list" where
  "main_end r = (case r of Some err \<Rightarrow> [log_error ''Controller reported an error'' err]
     | None \<Rightarrow> [log_info ''gRPC Traffic controller exited''])"

section \<open>The web server\<close>

record http_server =
  hs_Addr :: string
  hs_Handler :: "string \<Rightarrow> nat \<times> string"
  hs_ReadTimeout :: nat
  hs_WriteTimeout :: nat
  hs_MaxHeaderBytes :: nat

definition webserver :: "string \<Rightarrow> http_server" where
  "webserver addr = \<lparr>hs_Addr = addr, hs_Handler = web_handler, hs_ReadTimeout = 5, hs_WriteTimeout = 5,
     hs_MaxHeaderBytes = 2 ^ 20\<rparr>"

text \<open>
  \<^verbatim>\<open>ListenAndServe\<close> returns \<^verbatim>\<open>ErrServerClosed\<close> as soon as \<^verbatim>\<open>Shutdown\<close> has been called, whatever requests are
  still being served, and another error when it cannot bind or accept. \<^verbatim>\<open>Shutdown\<close> ends when no request is
  left or fails after ten seconds; then \<^verbatim>\<open>Close\<close> drops the requests.
\<close>

datatype web_phase = WebStarting | WebListening | WebReturned

datatype closer_phase = AwaitingCancel | ShuttingDown | ShutdownFailed | CloserDone

section \<open>The group\<close>

record controller_run =
  ct_signalled :: bool
  ct_groupErr :: "go_error option"
  ct_server :: server_run
  ct_serverDone :: bool
  ct_web :: web_phase
  ct_closer :: closer_phase
  ct_requests :: nat
  ct_exit :: "go_error option option"

definition controller_init :: controller_run where
  "controller_init = \<lparr>ct_signalled = False, ct_groupErr = None, ct_server = server_init, ct_serverDone = False,
     ct_web = WebStarting, ct_closer = AwaitingCancel, ct_requests = 0, ct_exit = None\<rparr>"

text \<open>The group's context, which the xDS server runs under, and the failure of a member, which cancels it.\<close>

definition main_done :: "controller_run \<Rightarrow> bool" where
  "main_done s \<longleftrightarrow> ct_signalled s \<or> ct_groupErr s \<noteq> None"

definition fail_group :: "go_error \<Rightarrow> controller_run \<Rightarrow> controller_run" where
  "fail_group err s = s\<lparr>ct_groupErr := first_error (ct_groupErr s) err,
     ct_server := (ct_server s)\<lparr>sr_ctxDone := True\<rparr>\<rparr>"

text \<open>
  The steps of the process. The stream server of the library was given the context of the signals, not
  the group's, so a failing member leaves \<open>sr_streamCtxDone\<close> alone.
\<close>

inductive controller_step :: "controller_run \<Rightarrow> controller_run \<Rightarrow> bool" where
  server_runs:
    "ct_exit s = None \<Longrightarrow> server_step (ct_server s) t \<Longrightarrow>
     controller_step s (s\<lparr>ct_server := t\<rparr>)"
| server_returned:
    "ct_exit s = None \<Longrightarrow> \<not> ct_serverDone s \<Longrightarrow> sr_result (ct_server s) = Some None \<Longrightarrow>
     controller_step s (s\<lparr>ct_serverDone := True\<rparr>)"
| server_failed:
    "ct_exit s = None \<Longrightarrow> \<not> ct_serverDone s \<Longrightarrow> sr_result (ct_server s) = Some (Some err) \<Longrightarrow>
     controller_step s (fail_group err (s\<lparr>ct_serverDone := True\<rparr>))"
| web_listens:
    "ct_exit s = None \<Longrightarrow> ct_web s = WebStarting \<Longrightarrow> ct_closer s = AwaitingCancel \<Longrightarrow>
     controller_step s (s\<lparr>ct_web := WebListening\<rparr>)"
| web_closed:
    "ct_exit s = None \<Longrightarrow> ct_web s \<noteq> WebReturned \<Longrightarrow> ct_closer s \<noteq> AwaitingCancel \<Longrightarrow>
     controller_step s (s\<lparr>ct_web := WebReturned\<rparr>)"
| shutdown:
    "ct_exit s = None \<Longrightarrow> ct_closer s = AwaitingCancel \<Longrightarrow> main_done s \<Longrightarrow>
     controller_step s (s\<lparr>ct_closer := ShuttingDown\<rparr>)"
| shutdown_ends:
    "ct_exit s = None \<Longrightarrow> ct_closer s = ShuttingDown \<Longrightarrow> ct_requests s = 0 \<Longrightarrow>
     controller_step s (s\<lparr>ct_closer := CloserDone\<rparr>)"
| shutdown_fails:
    "ct_exit s = None \<Longrightarrow> ct_closer s = ShuttingDown \<Longrightarrow>
     controller_step s (s\<lparr>ct_closer := ShutdownFailed\<rparr>)"
| closes:
    "ct_exit s = None \<Longrightarrow> ct_closer s = ShutdownFailed \<Longrightarrow>
     controller_step s (s\<lparr>ct_closer := CloserDone, ct_requests := 0\<rparr>)"
| request_ends:
    "ct_exit s = None \<Longrightarrow> ct_requests s = Suc n \<Longrightarrow> controller_step s (s\<lparr>ct_requests := n\<rparr>)"
| group_returns:
    "ct_exit s = None \<Longrightarrow> ct_serverDone s \<Longrightarrow> ct_web s = WebReturned \<Longrightarrow>
     controller_step s (s\<lparr>ct_exit := Some (ct_groupErr s)\<rparr>)"

text \<open>
  What happens around the process: a signal, the streams of clients, HTTP requests, and the failures of
  the two listeners, which are no steps of the process, so that its end cannot depend on one.
\<close>

inductive controller_env :: "controller_run \<Rightarrow> controller_run \<Rightarrow> bool" where
  signalled: "controller_env s (s\<lparr>ct_signalled := True,
    ct_server := (ct_server s)\<lparr>sr_ctxDone := True, sr_streamCtxDone := True\<rparr>\<rparr>)"
| stream_opened:
    "sr_serve (ct_server s) = Serving \<Longrightarrow> sr_stopper (ct_server s) = StopperWaiting \<Longrightarrow>
     controller_env s (s\<lparr>ct_server := (ct_server s)\<lparr>sr_streams := Suc (sr_streams (ct_server s))\<rparr>\<rparr>)"
| stream_left:
    "sr_streams (ct_server s) = Suc n \<Longrightarrow> controller_env s (s\<lparr>ct_server := (ct_server s)\<lparr>sr_streams := n\<rparr>\<rparr>)"
| request:
    "ct_web s = WebListening \<Longrightarrow> ct_closer s = AwaitingCancel \<Longrightarrow>
     controller_env s (s\<lparr>ct_requests := Suc (ct_requests s)\<rparr>)"
| accept_failed:
    "sr_serve (ct_server s) = Serving \<Longrightarrow> sr_stopper (ct_server s) = StopperWaiting \<Longrightarrow>
     controller_env s (s\<lparr>ct_server := (ct_server s)\<lparr>sr_serve := ServeReturned,
       sr_groupErr := first_error (sr_groupErr (ct_server s)) (LibraryError err)\<rparr>\<rparr>)"
| web_failed:
    "ct_exit s = None \<Longrightarrow> ct_web s \<noteq> WebReturned \<Longrightarrow> ct_closer s = AwaitingCancel \<Longrightarrow>
     controller_env s (fail_group (LibraryError err) (s\<lparr>ct_web := WebReturned\<rparr>))"

definition controller_reaches :: "controller_run \<Rightarrow> controller_run \<Rightarrow> bool" where
  "controller_reaches = (\<lambda>s s'. controller_step s s' \<or> controller_env s s')\<^sup>*\<^sup>*"

section \<open>The invariant of the process\<close>

definition controller_inv :: "controller_run \<Rightarrow> bool" where
  "controller_inv s \<longleftrightarrow>
     server_inv (ct_server s) \<and> (sr_ctxDone (ct_server s) \<longleftrightarrow> main_done s) \<and>
     (sr_streamCtxDone (ct_server s) \<longleftrightarrow> ct_signalled s) \<and>
     (ct_closer s \<noteq> AwaitingCancel \<longrightarrow> main_done s) \<and>
     (ct_web s = WebReturned \<and> ct_groupErr s = None \<longrightarrow> ct_closer s \<noteq> AwaitingCancel) \<and>
     (ct_serverDone s \<longrightarrow> (\<exists>r. sr_result (ct_server s) = Some r \<and> (r = None \<or> ct_groupErr s \<noteq> None))) \<and>
     (\<forall>r. ct_exit s = Some r \<longrightarrow> ct_serverDone s \<and> ct_web s = WebReturned \<and> r = ct_groupErr s)"

lemma server_inv_cancel:
  "server_inv t \<Longrightarrow> server_inv (t\<lparr>sr_ctxDone := True\<rparr>)"
  "server_inv t \<Longrightarrow> server_inv (t\<lparr>sr_ctxDone := True, sr_streamCtxDone := True\<rparr>)"
  using server_inv_env [OF _ cancel_ctx, of t] server_inv_env [OF _ cancel_streams, of "t\<lparr>sr_ctxDone := True\<rparr>"] by simp_all

lemma server_inv_streams: "server_inv t \<Longrightarrow> sr_streams t = Suc n \<Longrightarrow> server_inv (t\<lparr>sr_streams := n\<rparr>)"
  using server_inv_env [OF _ close_stream] by simp

lemma server_step_ctxDone: "server_step t t' \<Longrightarrow> sr_ctxDone t' = sr_ctxDone t"
  by (induction rule: server_step.induct) simp_all

lemma server_step_result: "server_step t t' \<Longrightarrow> sr_result t = Some r \<Longrightarrow> sr_result t' = Some r"
  by (induction rule: server_step.induct) simp_all

lemma controller_inv_init: "controller_inv controller_init"
  by (simp add: controller_inv_def controller_init_def server_inv_init main_done_def) (simp add: server_init_def)

lemma controller_inv_fail:
  assumes "server_inv (ct_server s)" and "ct_exit s = None" and "sr_streamCtxDone (ct_server s) \<longleftrightarrow> ct_signalled s"
    and "ct_serverDone s \<Longrightarrow> \<exists>r. sr_result (ct_server s) = Some r"
  shows "controller_inv (fail_group err s)"
  using assms by (auto simp: controller_inv_def fail_group_def main_done_def intro: server_inv_cancel)

lemma controller_inv_step:
  assumes "controller_inv s" and "controller_step s s'"
  shows "controller_inv s'"
  using assms(2)
proof cases
  case (server_runs t)
  then have "server_inv t" using assms(1) server_inv_step by (auto simp: controller_inv_def)
  then show ?thesis
    using assms(1) server_runs server_step_ctxDone [OF server_runs(3)] server_step_result [OF server_runs(3)]
      server_step_streamCtx [OF server_runs(3)]
    by (auto simp: controller_inv_def main_done_def)
next
  case (server_failed err)
  show ?thesis
    unfolding server_failed(1) by (rule controller_inv_fail) (use assms(1) server_failed in \<open>auto simp: controller_inv_def\<close>)
qed (use assms(1) in \<open>auto simp: controller_inv_def main_done_def\<close>)

lemma controller_inv_env:
  assumes "controller_inv s" and "controller_env s s'"
  shows "controller_inv s'"
  using assms(2)
proof cases
  case signalled
  then show ?thesis
    using assms(1) server_inv_cancel by (auto simp: controller_inv_def main_done_def)
next
  case stream_opened
  then show ?thesis
    using assms(1) server_inv_env [OF _ open_stream] by (auto simp: controller_inv_def main_done_def)
next
  case (stream_left n)
  then show ?thesis
    using assms(1) server_inv_streams by (auto simp: controller_inv_def main_done_def)
next
  case (accept_failed err)
  then show ?thesis
    using assms(1) server_inv_env [OF _ serve_failed] by (auto simp: controller_inv_def main_done_def server_inv_def)
next
  case (web_failed err)
  show ?thesis
    unfolding web_failed(1) by (rule controller_inv_fail) (use assms(1) web_failed in \<open>auto simp: controller_inv_def\<close>)
qed (use assms(1) in \<open>auto simp: controller_inv_def main_done_def\<close>)

lemma controller_inv_reaches: "controller_reaches controller_init s \<Longrightarrow> controller_inv s"
  unfolding controller_reaches_def
  by (induction rule: rtranclp_induct) (auto intro: controller_inv_init controller_inv_step controller_inv_env)

section \<open>The work that is left\<close>

primrec web_work :: "web_phase \<Rightarrow> nat" where
  "web_work WebStarting = 2"
| "web_work WebListening = 1"
| "web_work WebReturned = 0"

primrec closer_work :: "closer_phase \<Rightarrow> nat" where
  "closer_work AwaitingCancel = 3"
| "closer_work ShuttingDown = 2"
| "closer_work ShutdownFailed = 1"
| "closer_work CloserDone = 0"

definition controller_work :: "controller_run \<Rightarrow> nat" where
  "controller_work s = server_work (ct_server s) + (if ct_serverDone s then 0 else 1) + web_work (ct_web s) +
     closer_work (ct_closer s) + ct_requests s + (if ct_exit s = None then 1 else 0)"

lemma server_work_cancel [simp]: "server_work (t\<lparr>sr_ctxDone := b\<rparr>) = server_work t"
  by (simp add: server_work_def)

lemma controller_work_step:
  assumes "controller_step s s'" and "controller_inv s"
  shows "controller_work s' < controller_work s"
  using assms(1)
proof cases
  case (server_runs t)
  then show ?thesis using server_work_step assms(2) by (simp add: controller_work_def controller_inv_def)
next
  case web_closed
  then show ?thesis by (cases "ct_web s") (simp_all add: controller_work_def)
qed (simp_all add: controller_work_def fail_group_def)

lemma signalled_step: "controller_step s s' \<Longrightarrow> ct_signalled s' = ct_signalled s"
  by (induction rule: controller_step.induct) (simp_all add: fail_group_def)

lemma signalled_run: "(controller_step ^^ k) s s' \<Longrightarrow> ct_signalled s' = ct_signalled s"
  by (induction k arbitrary: s') (auto dest: signalled_step)

lemma controller_not_stuck:
  assumes inv: "controller_inv s" and sig: "ct_signalled s" and run: "ct_exit s = None"
  shows "\<exists>s'. controller_step s s'"
proof (cases "ct_serverDone s")
  case False
  then show ?thesis
  proof (cases "sr_result (ct_server s)")
    case None
    have "server_inv (ct_server s)" and "group_done (ct_server s)" and "\<not> awaits_clients (ct_server s)"
      using inv sig by (auto simp: controller_inv_def group_done_def main_done_def awaits_clients_def)
    then obtain t where "server_step (ct_server s) t" using server_not_stuck None by blast
    from controller_step.server_runs [OF run this] show ?thesis by blast
  next
    case (Some r)
    then show ?thesis
      using controller_step.server_returned [OF run False] controller_step.server_failed [OF run False] by (cases r) auto
  qed
next
  case True
  show ?thesis
  proof (cases "ct_web s = WebReturned")
    case True
    with \<open>ct_serverDone s\<close> controller_step.group_returns [OF run] show ?thesis by blast
  next
    case False
    then show ?thesis
      using controller_step.shutdown [OF run] controller_step.web_closed [OF run False] sig
      by (cases "ct_closer s = AwaitingCancel") (auto simp: main_done_def)
  qed
qed

interpretation controller_end: bounded_settling controller_step "\<lambda>s. controller_inv s \<and> ct_signalled s" controller_work
    "\<lambda>s. ct_exit s \<noteq> None"
proof
  fix s t
  assume "controller_inv s \<and> ct_signalled s"
  then show "controller_step s t \<Longrightarrow> controller_inv t \<and> ct_signalled t"
    and "controller_step s t \<Longrightarrow> controller_work t < controller_work s"
    and "\<not> ct_exit s \<noteq> None \<Longrightarrow> \<exists>t. controller_step s t"
    using controller_inv_step signalled_step controller_work_step controller_not_stuck by blast+
qed

lemma controller_inv_run: "(controller_step ^^ k) s s' \<Longrightarrow> controller_inv s \<Longrightarrow> controller_inv s'"
  by (induction k arbitrary: s') (auto intro: controller_inv_step)

section \<open>Properties\<close>

text \<open>C20:
  The process ends after a signal: once it was interrupted or asked to terminate, the steps of its
  goroutines, of the streams and of the requests being served are bounded in number, and when none is
  left \<^verbatim>\<open>main\<close> has returned, whether or not a listener fails meanwhile. It returns without an error only after a signal, and the error it returns is the
  first one a member of the group reported.
\<close>

theorem main_returns_after_a_signal:
  assumes "controller_reaches controller_init s" and "(controller_step ^^ k) s s'"
  shows "(ct_signalled s \<longrightarrow> k \<le> controller_work s \<and>
      ((\<exists>s''. controller_step s' s'') \<or> (\<exists>r. ct_exit s' = Some r))) \<and>
    (\<forall>r. ct_exit s' = Some r \<longrightarrow> r = ct_groupErr s' \<and> (r = None \<longrightarrow> ct_signalled s))"
proof -
  have inv: "controller_inv s" "controller_inv s'"
    using controller_inv_reaches [OF assms(1)] controller_inv_run [OF assms(2)] by auto
  have sig: "ct_signalled s' = ct_signalled s" by (rule signalled_run [OF assms(2)])
  have "k \<le> controller_work s \<and> ((\<exists>s''. controller_step s' s'') \<or> (\<exists>r. ct_exit s' = Some r))" if "ct_signalled s"
    using controller_end.run_bounded [OF assms(2)] controller_end.stuck_run_is_settled [OF assms(2)] inv(1) that by blast
  moreover have "r = ct_groupErr s' \<and> (r = None \<longrightarrow> ct_signalled s)" if "ct_exit s' = Some r" for r
    using inv(2) that sig by (auto simp: controller_inv_def main_done_def)
  ultimately show ?thesis by blast
qed

section \<open>Two ways the end goes wrong\<close>

text \<open>The server serves a client after another member of the group has failed, and no signal came.\<close>

definition draining :: "nat \<Rightarrow> controller_run \<Rightarrow> bool" where
  "draining n s \<longleftrightarrow> \<not> ct_signalled s \<and> ct_groupErr s \<noteq> None \<and> ct_exit s = None \<and>
     sr_serve (ct_server s) = Serving \<and> sr_streams (ct_server s) = Suc n"

lemma draining_server_step:
  assumes "server_step t t'" and "server_inv t" and "sr_serve t = Serving" and "sr_streams t = Suc n"
    and "\<not> sr_streamCtxDone t"
  shows "sr_serve t' = Serving \<and> sr_streams t' = Suc n"
  using assms by cases (auto simp: server_inv_def)

lemma draining_step:
  assumes "controller_step s s'" and "controller_inv s" and "draining n s"
  shows "draining n s'"
  using assms(1)
proof cases
  case (server_runs t)
  have "server_inv (ct_server s)" and "\<not> sr_streamCtxDone (ct_server s)"
    using assms(2,3) by (simp_all add: controller_inv_def draining_def)
  with draining_server_step [OF server_runs(3)] server_runs(1) assms(3) show ?thesis by (simp add: draining_def)
qed (use assms(2,3) in \<open>auto simp: draining_def fail_group_def controller_inv_def server_inv_def\<close>)

lemma draining_progress:
  assumes "controller_inv s" and "draining n s" and "sr_stopper (ct_server s) \<noteq> Stopping"
  shows "\<exists>s'. controller_step s s'"
proof -
  have "group_done (ct_server s)"
    using assms(1,2) by (auto simp: draining_def controller_inv_def group_done_def main_done_def)
  moreover have "sr_stopper (ct_server s) = StopperWaiting"
    using assms by (cases "sr_stopper (ct_server s)") (auto simp: draining_def controller_inv_def server_inv_def)
  ultimately show ?thesis
    using controller_step.server_runs [of s] graceful_stop [of "ct_server s"] assms(2) by (auto simp: draining_def)
qed

interpretation controller_hang: bounded_settling controller_step "\<lambda>s. controller_inv s \<and> draining n s" controller_work
    "\<lambda>s. sr_stopper (ct_server s) = Stopping" for n
  by unfold_locales (use controller_inv_step draining_step controller_work_step draining_progress in blast)+

text \<open>C21:
  A failed web server can leave the process hanging. When the web server fails while the xDS server
  serves, the latter is told to stop and waits for its streams to end; but the streams run under the
  context of the signals and are not told anything. As long as no client leaves and no signal comes,
  no sequence of steps ends the process: it comes to rest, within a bound, with the stream still open
  and the xDS server stopping, so that it neither serves new clients nor exits.
\<close>

theorem failed_web_server_hangs:
  assumes "controller_reaches controller_init s" and "\<not> ct_signalled s"
    and "ct_web s = WebReturned" and "ct_groupErr s \<noteq> None"
    and "sr_serve (ct_server s) = Serving" and "sr_streams (ct_server s) = Suc n" and "(controller_step ^^ k) s s'"
  shows "k \<le> controller_work s \<and> ct_exit s' = None \<and> sr_streams (ct_server s') = Suc n \<and>
    (\<not> (\<exists>s''. controller_step s' s'') \<longrightarrow> sr_serve (ct_server s') = Serving \<and> sr_stopper (ct_server s') = Stopping)"
proof -
  have inv: "controller_inv s" by (rule controller_inv_reaches [OF assms(1)])
  then have "draining n s"
    using assms(2-6) by (cases "ct_exit s") (auto simp: controller_inv_def draining_def server_inv_def)
  with inv have ok: "controller_inv s \<and> draining n s" by simp
  then have "draining n s'" using controller_hang.run_works [OF assms(7)] by simp
  then show ?thesis
    using controller_hang.run_bounded [OF assms(7) ok] controller_hang.stuck_run_is_settled [OF assms(7) ok]
    by (auto simp: draining_def)
qed

lemma server_steps_lift:
  "server_step\<^sup>*\<^sup>* t t' \<Longrightarrow> ct_server s = t \<Longrightarrow> ct_exit s = None \<Longrightarrow>
   controller_step\<^sup>*\<^sup>* s (s\<lparr>ct_server := t'\<rparr>)"
proof (induction rule: rtranclp_induct)
  case base
  then show ?case by (cases s) auto
next
  case (step u v)
  have "controller_step (s\<lparr>ct_server := u\<rparr>) (s\<lparr>ct_server := v\<rparr>)"
    using controller_step.server_runs [of "s\<lparr>ct_server := u\<rparr>" v] step by simp
  then show ?case using step by auto
qed

lemma stopped_group_exits:
  assumes "controller_inv s" and "ct_signalled s" and "ct_exit s = None" and "ct_web s = WebReturned"
  shows "\<exists>s' r. controller_step\<^sup>*\<^sup>* s s' \<and> ct_exit s' = Some r \<and> ct_requests s' = ct_requests s \<and> ct_closer s' = ct_closer s"
proof (cases "ct_serverDone s")
  case True
  from controller_step.group_returns [OF assms(3) True assms(4)] show ?thesis
    by (intro exI [of _ "s\<lparr>ct_exit := Some (ct_groupErr s)\<rparr>"] exI [of _ "ct_groupErr s"]) auto
next
  case False
  have "server_inv (ct_server s)" and "group_done (ct_server s)"
    using assms by (auto simp: controller_inv_def main_done_def group_done_def)
  then obtain t where t: "server_step\<^sup>*\<^sup>* (ct_server s) t" "sr_result t \<noteq> None \<or> awaits_clients t"
    using server_end.settles [of "ct_server s"] by blast
  from t(1) have "sr_streamCtxDone t = sr_streamCtxDone (ct_server s)"
    by (induction rule: rtranclp_induct) (simp_all add: server_step_streamCtx)
  then have "\<not> awaits_clients t" using assms(1,2) by (simp add: controller_inv_def awaits_clients_def)
  then obtain r where "server_step\<^sup>*\<^sup>* (ct_server s) t" and r: "sr_result t = Some r" using t by auto
  then have run: "controller_step\<^sup>*\<^sup>* s (s\<lparr>ct_server := t\<rparr>)" using server_steps_lift assms(3) by blast
  let ?u = "s\<lparr>ct_server := t\<rparr>"
  have "\<exists>u'. controller_step ?u u' \<and> ct_serverDone u' \<and> ct_exit u' = None \<and> ct_web u' = WebReturned \<and>
      ct_requests u' = ct_requests s \<and> ct_closer u' = ct_closer s"
  proof (cases r)
    case None
    with controller_step.server_returned [of ?u] r assms(3,4) False show ?thesis by fastforce
  next
    case (Some err)
    with controller_step.server_failed [of ?u err] r assms(3,4) False show ?thesis by (fastforce simp: fail_group_def)
  qed
  then obtain u' where u': "controller_step ?u u'" "ct_serverDone u'" "ct_exit u' = None" "ct_web u' = WebReturned"
    "ct_requests u' = ct_requests s" "ct_closer u' = ct_closer s" by blast
  have "controller_step\<^sup>*\<^sup>* s (u'\<lparr>ct_exit := Some (ct_groupErr u')\<rparr>)"
    using run u'(1) controller_step.group_returns [OF u'(3,2,4)] by (meson rtranclp.rtrancl_into_rtrancl)
  then show ?thesis using u' by (intro exI [of _ "u'\<lparr>ct_exit := Some (ct_groupErr u')\<rparr>"]) simp
qed

text \<open>
  The process does not wait for the requests of its web server: \<^verbatim>\<open>runWebserver\<close> returns when \<^verbatim>\<open>Shutdown\<close> begins,
  so that, whatever requests are being served when the signal comes, \<^verbatim>\<open>main\<close> can return with all of them
  unanswered and the shutdown still waiting for them.
\<close>

lemma exit_does_not_wait_for_requests:
  assumes "controller_reaches controller_init s" and "ct_signalled s" and "ct_exit s = None"
    and "ct_closer s = AwaitingCancel"
  shows "\<exists>s' r. controller_step\<^sup>*\<^sup>* s s' \<and> ct_exit s' = Some r \<and> ct_requests s' = ct_requests s \<and>
    ct_closer s' = ShuttingDown"
proof -
  have inv: "controller_inv s" by (rule controller_inv_reaches [OF assms(1)])
  let ?u = "s\<lparr>ct_closer := ShuttingDown\<rparr>"
  have down: "controller_step s ?u"
    using controller_step.shutdown [OF assms(3,4)] assms(2) by (simp add: main_done_def)
  let ?v = "?u\<lparr>ct_web := WebReturned\<rparr>"
  have closed: "controller_step\<^sup>*\<^sup>* s ?v"
  proof (cases "ct_web s = WebReturned")
    case True
    then have "?v = ?u" by (cases s) simp
    then show ?thesis using down by auto
  next
    case False
    then have "controller_step ?u ?v" using controller_step.web_closed [of ?u] assms(3) by simp
    then show ?thesis using down by (meson r_into_rtranclp rtranclp.rtrancl_into_rtrancl)
  qed
  from closed inv have "controller_inv ?v"
    by (induction rule: rtranclp_induct) (auto intro: controller_inv_step)
  from stopped_group_exits [OF this] assms(2,3) obtain s' r where
    "controller_step\<^sup>*\<^sup>* ?v s'" "ct_exit s' = Some r" "ct_requests s' = ct_requests s" "ct_closer s' = ShuttingDown"
    by auto
  then show ?thesis using closed by (meson rtranclp_trans)
qed

section \<open>The set-up ends or runs\<close>

lemma controller_setup_no_panic: "controller_setup lib acc mem sl kl ctx addr c ch order w k \<noteq> Panic p"
  by (simp add: controller_setup_def NewXDSServer_def Let_def split: prod.splits sum.splits)

lemma NewForConfig_no_panic: "NewForConfig rl (Some c) \<noteq> Panic p"
proof -
  have "\<not> is_Panic (NewForConfig rl (Some c))"
    by (auto simp: NewForConfig_def NewForConfigAndClient_def api_NewForConfigAndClient_def setConfigDefaults_def
        Let_def is_Panic_and_then split: if_splits)
  then show ?thesis by auto
qed

text \<open>Starting runs the controller, or logs one error and ends; the only panic is that of a failing logger.\<close>

lemma main_start_result:
  "is_Panic (main_start lib acc mem sl kl rl ml flags ctx ch order w) \<longleftrightarrow> (\<exists>e. newLogger ml (mf_logLevel flags) = Inl e)"
  "main_start lib acc mem sl kl rl ml flags ctx ch order w = Ok (logs, None) \<Longrightarrow> length logs = 1 \<and> le_level (hd logs) = ErrorLevel"
  "main_start lib acc mem sl kl rl ml flags ctx ch order w = Ok (logs, Some r) \<Longrightarrow> (\<forall>e \<in> set logs. le_level e = InfoLevel)"
proof -
  let ?lg = "newLogger ml (mf_logLevel flags)"
  show "is_Panic (main_start lib acc mem sl kl rl ml flags ctx ch order w) \<longleftrightarrow> (\<exists>e. ?lg = Inl e)"
    using controller_setup_no_panic [of lib acc mem sl kl ctx "mf_xdsAddr flags" _ ch order w] NewForConfig_no_panic [of rl]
    by (cases ?lg) (auto simp: main_start_def split: sum.splits outcome.splits)
  show "length logs = 1 \<and> le_level (hd logs) = ErrorLevel"
    if "main_start lib acc mem sl kl rl ml flags ctx ch order w = Ok (logs, None)"
    using that by (cases ?lg) (auto simp: main_start_def log_error_def split: sum.splits outcome.splits)
  show "\<forall>e \<in> set logs. le_level e = InfoLevel"
    if "main_start lib acc mem sl kl rl ml flags ctx ch order w = Ok (logs, Some r)"
    using that by (cases ?lg) (auto simp: main_start_def split: sum.splits outcome.splits)
qed

section \<open>Runs\<close>

lemma reaches_step: "controller_reaches a s \<Longrightarrow> controller_step s s' \<Longrightarrow> controller_reaches a s'"
  by (simp add: controller_reaches_def rtranclp.rtrancl_into_rtrancl)

lemma reaches_env: "controller_reaches a s \<Longrightarrow> controller_env s s' \<Longrightarrow> controller_reaches a s'"
  by (simp add: controller_reaches_def rtranclp.rtrancl_into_rtrancl)

lemma reaches_refl: "controller_reaches a a"
  by (simp add: controller_reaches_def)

text \<open>A client opens a stream, then the web server fails.\<close>

lemma hanging_run:
  obtains s where "controller_reaches controller_init s" and "\<not> ct_signalled s" and "ct_web s = WebReturned"
    and "ct_groupErr s \<noteq> None" and "sr_serve (ct_server s) = Serving" and "sr_streams (ct_server s) = Suc 0"
proof -
  let ?t1 = "server_init\<lparr>sr_serve := Bound, sr_stopper := StopperWaiting\<rparr>"
  let ?t2 = "?t1\<lparr>sr_serve := Serving\<rparr>"
  let ?t3 = "?t2\<lparr>sr_streams := Suc 0\<rparr>"
  let ?s3 = "controller_init\<lparr>ct_server := ?t3\<rparr>"
  let ?s4 = "fail_group (LibraryError ''bind'') (?s3\<lparr>ct_web := WebReturned\<rparr>)"
  have "controller_reaches controller_init (controller_init\<lparr>ct_server := ?t1\<rparr>)"
    by (rule reaches_step [OF reaches_refl controller_step.server_runs])
      (use bind [of server_init] in \<open>auto simp: controller_init_def server_init_def\<close>)
  moreover have "server_step ?t1 ?t2" using serve [of ?t1] by simp
  ultimately have "controller_reaches controller_init (controller_init\<lparr>ct_server := ?t2\<rparr>)"
    using reaches_step [OF _ controller_step.server_runs, of controller_init "controller_init\<lparr>ct_server := ?t1\<rparr>" ?t2]
    by (simp add: controller_init_def)
  from reaches_env [OF this controller_env.stream_opened] have "controller_reaches controller_init ?s3"
    by (simp add: server_init_def)
  moreover have "controller_env ?s3 ?s4"
    using controller_env.web_failed [of ?s3 "''bind''"] by (simp add: controller_init_def)
  ultimately have "controller_reaches controller_init ?s4" by (rule reaches_env)
  from that [OF this] show thesis by (simp add: fail_group_def controller_init_def)
qed

theorem failed_web_server_hangs_witness:
  "\<exists>s s' k. controller_reaches controller_init s \<and> ct_web s = WebReturned \<and> (controller_step ^^ k) s s' \<and>
     \<not> (\<exists>s''. controller_step s' s'') \<and> ct_exit s' = None \<and> sr_stopper (ct_server s') = Stopping"
proof -
  obtain s where s: "controller_reaches controller_init s" "\<not> ct_signalled s" "ct_web s = WebReturned"
    "ct_groupErr s \<noteq> None" "sr_serve (ct_server s) = Serving" "sr_streams (ct_server s) = Suc 0"
    by (rule hanging_run)
  have inv: "controller_inv s" by (rule controller_inv_reaches [OF s(1)])
  have "ct_exit s = None" using inv s(5) by (cases "ct_exit s") (auto simp: controller_inv_def server_inv_def)
  then have "controller_inv s \<and> draining 0 s" using s inv by (simp add: draining_def)
  from controller_hang.comes_to_rest [OF this]
  obtain k s' where run: "(controller_step ^^ k) s s'" and stuck: "\<not> (\<exists>s''. controller_step s' s'')"
    by (auto dest: rtranclp_imp_relpowp)
  from failed_web_server_hangs [OF s run] stuck s run show ?thesis by blast
qed

theorem main_returns_after_a_signal_witness:
  "\<exists>s s' r. controller_reaches controller_init s \<and> ct_signalled s \<and> (\<exists>k. (controller_step ^^ k) s s') \<and>
     ct_exit s' = Some r \<and> r = ct_groupErr s'"
proof -
  let ?s = "controller_init\<lparr>ct_signalled := True, ct_server := server_init\<lparr>sr_ctxDone := True, sr_streamCtxDone := True\<rparr>\<rparr>"
  have reach: "controller_reaches controller_init ?s"
    using reaches_env [OF reaches_refl controller_env.signalled, of controller_init] by (simp add: controller_init_def)
  obtain s' r where "controller_step\<^sup>*\<^sup>* ?s s'" and r: "ct_exit s' = Some r"
    using exit_does_not_wait_for_requests [OF reach] by (auto simp: controller_init_def)
  then obtain k where k: "(controller_step ^^ k) ?s s'" by (auto dest: rtranclp_imp_relpowp)
  from main_returns_after_a_signal [OF reach k] r have "r = ct_groupErr s'" by blast
  then show ?thesis using reach k r by (intro exI [of _ ?s] exI [of _ s'] exI [of _ r]) auto
qed

end
