(* ===== verification/Old_Configs.thy ===== *)
theory Old_Configs
  imports Apply_Config
begin

text \<open>
  The apply configurations that were generated for structs the API has since renamed or dropped
  (\<^verbatim>\<open>faultfilter.go\<close>, \<^verbatim>\<open>filter.go\<close>, \<^verbatim>\<open>cluster.go\<close>, \<^verbatim>\<open>defaultcluster.go\<close> and \<^verbatim>\<open>clusterref.go\<close> of
  \<^verbatim>\<open>client/applyconfiguration/gtc/v1alpha1\<close>). Nothing refers to them; a chain of setters on them carries over
  to the struct that took the old one's place.
\<close>

section \<open>faultfilter.go\<close>

record FaultFilterApply =
  ffa_Delay :: "FaultDelayApply option"
  ffa_Abort :: "FaultAbortApply option"
  ffa_MaxActiveFaults :: "uint32 option"
  ffa_Headers :: "HeaderMatcherApply list"

definition FaultFilter_config :: FaultFilterApply where [config_defs]:
  "FaultFilter_config = \<lparr>ffa_Delay = None, ffa_Abort = None, ffa_MaxActiveFaults = None, ffa_Headers = []\<rparr>"

definition FaultFilter_WithDelay :: "FaultDelayApply option \<Rightarrow> FaultFilterApply \<Rightarrow> FaultFilterApply" where [config_defs]:
  "FaultFilter_WithDelay v b = b\<lparr>ffa_Delay := v\<rparr>"

definition FaultFilter_WithAbort :: "FaultAbortApply option \<Rightarrow> FaultFilterApply \<Rightarrow> FaultFilterApply" where [config_defs]:
  "FaultFilter_WithAbort v b = b\<lparr>ffa_Abort := v\<rparr>"

definition FaultFilter_WithMaxActiveFaults :: "uint32 \<Rightarrow> FaultFilterApply \<Rightarrow> FaultFilterApply" where [config_defs]:
  "FaultFilter_WithMaxActiveFaults v b = b\<lparr>ffa_MaxActiveFaults := Some v\<rparr>"

definition FaultFilter_WithHeaders :: "HeaderMatcherApply option list \<Rightarrow> FaultFilterApply \<Rightarrow> FaultFilterApply outcome" where [config_defs]:
  "FaultFilter_WithHeaders = append_values ''WithHeaders'' ffa_Headers_update"

section \<open>filter.go\<close>

record FilterApply =
  fla_Fault :: "FaultFilterApply option"

definition Filter_config :: FilterApply where [config_defs]:
  "Filter_config = \<lparr>fla_Fault = None\<rparr>"

definition Filter_WithFault :: "FaultFilterApply option \<Rightarrow> FilterApply \<Rightarrow> FilterApply" where [config_defs]:
  "Filter_WithFault v b = b\<lparr>fla_Fault := v\<rparr>"

section \<open>cluster.go\<close>

record ClusterApply =
  cua_Weight :: "uint32 option"
  cua_MaxRequests :: "uint32 option"
  cua_Service :: "ServiceRefApply option"
  cua_Localities :: "LocalityApply list"

definition Cluster_config :: ClusterApply where [config_defs]:
  "Cluster_config = \<lparr>cua_Weight = None, cua_MaxRequests = None, cua_Service = None, cua_Localities = []\<rparr>"

definition Cluster_WithWeight :: "uint32 \<Rightarrow> ClusterApply \<Rightarrow> ClusterApply" where [config_defs]:
  "Cluster_WithWeight v b = b\<lparr>cua_Weight := Some v\<rparr>"

definition Cluster_WithMaxRequests :: "uint32 \<Rightarrow> ClusterApply \<Rightarrow> ClusterApply" where [config_defs]:
  "Cluster_WithMaxRequests v b = b\<lparr>cua_MaxRequests := Some v\<rparr>"

definition Cluster_WithService :: "ServiceRefApply option \<Rightarrow> ClusterApply \<Rightarrow> ClusterApply" where [config_defs]:
  "Cluster_WithService v b = b\<lparr>cua_Service := v\<rparr>"

definition Cluster_WithLocalities :: "LocalityApply option list \<Rightarrow> ClusterApply \<Rightarrow> ClusterApply outcome" where [config_defs]:
  "Cluster_WithLocalities = append_values ''WithLocalities'' cua_Localities_update"

section \<open>defaultcluster.go\<close>

record DefaultClusterApply =
  dca_MaxRequests :: "uint32 option"
  dca_Service :: "ServiceRefApply option"

definition DefaultCluster_config :: DefaultClusterApply where [config_defs]:
  "DefaultCluster_config = \<lparr>dca_MaxRequests = None, dca_Service = None\<rparr>"

definition DefaultCluster_WithMaxRequests :: "uint32 \<Rightarrow> DefaultClusterApply \<Rightarrow> DefaultClusterApply" where [config_defs]:
  "DefaultCluster_WithMaxRequests v b = b\<lparr>dca_MaxRequests := Some v\<rparr>"

definition DefaultCluster_WithService :: "ServiceRefApply option \<Rightarrow> DefaultClusterApply \<Rightarrow> DefaultClusterApply" where [config_defs]:
  "DefaultCluster_WithService v b = b\<lparr>dca_Service := v\<rparr>"

section \<open>clusterref.go\<close>

record ClusterRefApply =
  cra_Name :: "string option"

definition ClusterRef_config :: ClusterRefApply where [config_defs]:
  "ClusterRef_config = \<lparr>cra_Name = None\<rparr>"

definition ClusterRef_WithName :: "string \<Rightarrow> ClusterRefApply \<Rightarrow> ClusterRefApply" where [config_defs]:
  "ClusterRef_WithName v b = b\<lparr>cra_Name := Some v\<rparr>"

section \<open>What became of them\<close>

text \<open>A fault filter is now a fault interceptor, a filter an interceptor, and a cluster a backend.\<close>

definition to_FaultInterceptor :: "FaultFilterApply \<Rightarrow> FaultInterceptorApply" where
  "to_FaultInterceptor c = \<lparr>fia_Delay = ffa_Delay c, fia_Abort = ffa_Abort c,
     fia_MaxActiveFaults = ffa_MaxActiveFaults c, fia_Headers = ffa_Headers c\<rparr>"

definition to_Interceptor :: "FilterApply \<Rightarrow> InterceptorApply" where
  "to_Interceptor c = \<lparr>ica_Fault = map_option to_FaultInterceptor (fla_Fault c)\<rparr>"

definition to_Backend :: "ClusterApply \<Rightarrow> BackendApply" where
  "to_Backend c = Backend_config\<lparr>bka_Weight := cua_Weight c, bka_MaxRequests := cua_MaxRequests c,
     bka_Service := cua_Service c, bka_Localities := cua_Localities c\<rparr>"

text \<open>Two slice fields that the setters extend in the same way, through a function between the structs.\<close>

lemma append_values_transfer:
  assumes "\<And>f b. conv (upd f b) = upd' f (conv b)"
  shows "append_values s upd' vs (conv b) = and_then (append_values s upd vs b) (\<lambda>b. Ok (conv b))"
proof -
  have "for_range (\<lambda>i v b. case v of None \<Rightarrow> Panic (PanicWith (ErrorsNew (''nil value passed to '' @ s)))
      | Some x \<Rightarrow> Ok (upd' (\<lambda>xs. xs @ [x]) b)) i vs (conv b) =
    and_then (for_range (\<lambda>i v b. case v of None \<Rightarrow> Panic (PanicWith (ErrorsNew (''nil value passed to '' @ s)))
      | Some x \<Rightarrow> Ok (upd (\<lambda>xs. xs @ [x]) b)) i vs b) (\<lambda>b. Ok (conv b))" for i
    by (induction vs arbitrary: i b) (auto simp: assms [symmetric] split: option.split)
  then show ?thesis by (simp add: append_values_def)
qed

text \<open>Every setter of an old struct is the setter of the new one, and a nil value panics in both.\<close>

lemma FaultFilter_setters:
  "to_FaultInterceptor FaultFilter_config = FaultInterceptor_config"
  "to_FaultInterceptor (FaultFilter_WithDelay d b) = FaultInterceptor_WithDelay d (to_FaultInterceptor b)"
  "to_FaultInterceptor (FaultFilter_WithAbort a b) = FaultInterceptor_WithAbort a (to_FaultInterceptor b)"
  "to_FaultInterceptor (FaultFilter_WithMaxActiveFaults n b) = FaultInterceptor_WithMaxActiveFaults n (to_FaultInterceptor b)"
  by (simp_all add: config_defs to_FaultInterceptor_def)

lemma FaultFilter_WithHeaders_carries_over:
  "FaultInterceptor_WithHeaders hs (to_FaultInterceptor b) =
     and_then (FaultFilter_WithHeaders hs b) (\<lambda>b. Ok (to_FaultInterceptor b))"
  unfolding FaultInterceptor_WithHeaders_def FaultFilter_WithHeaders_def
  by (rule append_values_transfer) (simp add: to_FaultInterceptor_def)

lemma Filter_setters:
  "to_Interceptor Filter_config = Interceptor_config"
  "to_Interceptor (Filter_WithFault v b) = Interceptor_WithFault (map_option to_FaultInterceptor v) (to_Interceptor b)"
  by (simp_all add: config_defs to_Interceptor_def)

lemma Cluster_setters:
  "to_Backend Cluster_config = Backend_config"
  "to_Backend (Cluster_WithWeight n b) = Backend_WithWeight n (to_Backend b)"
  "to_Backend (Cluster_WithMaxRequests n b) = Backend_WithMaxRequests n (to_Backend b)"
  "to_Backend (Cluster_WithService s b) = Backend_WithService s (to_Backend b)"
  by (simp_all add: config_defs to_Backend_def)

lemma Cluster_WithLocalities_carries_over:
  "Backend_WithLocalities ls (to_Backend b) = and_then (Cluster_WithLocalities ls b) (\<lambda>b. Ok (to_Backend b))"
  unfolding Backend_WithLocalities_def Cluster_WithLocalities_def
  by (rule append_values_transfer) (simp add: to_Backend_def)

text \<open>No kind of the group has one of the old configurations any more.\<close>

lemma old_kinds_are_unknown:
  "ForKind \<lparr>gvk_Group = ''api.gtc.dev'', gvk_Version = ''v1alpha1'', gvk_Kind = ''FaultFilter''\<rparr> = None"
  "ForKind \<lparr>gvk_Group = ''api.gtc.dev'', gvk_Version = ''v1alpha1'', gvk_Kind = ''Filter''\<rparr> = None"
  "ForKind \<lparr>gvk_Group = ''api.gtc.dev'', gvk_Version = ''v1alpha1'', gvk_Kind = ''Cluster''\<rparr> = None"
  "ForKind \<lparr>gvk_Group = ''api.gtc.dev'', gvk_Version = ''v1alpha1'', gvk_Kind = ''DefaultCluster''\<rparr> = None"
  "ForKind \<lparr>gvk_Group = ''api.gtc.dev'', gvk_Version = ''v1alpha1'', gvk_Kind = ''ClusterRef''\<rparr> = None"
  by (simp_all add: ForKind_def)

section \<open>The schema\<close>

text \<open>
  \<^verbatim>\<open>client/applyconfiguration/internal/internal.go\<close>: the schema generated for the configurations, which names none of
  the types of the API, and its parser, made once. Nothing calls it. \<open>newParser\<close> is the structured-merge
  library's; what is passed to \<^verbatim>\<open>sync.Once\<close> counts as done also when it panics.
\<close>

definition schemaYAML :: string where
  "schemaYAML = concat (map (\<lambda>l. l @ [CHR 0x0A])
     [''types:'',
      ''- name: __untyped_atomic_'',
      ''  scalar: untyped'',
      ''  list:'',
      ''    elementType:'',
      ''      namedType: __untyped_atomic_'',
      ''    elementRelationship: atomic'',
      ''  map:'',
      ''    elementType:'',
      ''      namedType: __untyped_atomic_'',
      ''    elementRelationship: atomic'',
      ''- name: __untyped_deduced_'',
      ''  scalar: untyped'',
      ''  list:'',
      ''    elementType:'',
      ''      namedType: __untyped_atomic_'',
      ''    elementRelationship: atomic'',
      ''  map:'',
      ''    elementType:'',
      ''      namedType: __untyped_deduced_'',
      ''    elementRelationship: separable''])"

record 'p parser_vars =
  pv_parserOnce :: bool
  pv_parser :: "'p option"

definition Parser :: "(string \<Rightarrow> go_error + 'p) \<Rightarrow> 'p parser_vars \<Rightarrow> 'p option outcome \<times> 'p parser_vars" where
  "Parser newParser v =
     (if pv_parserOnce v then (Ok (pv_parser v), v)
      else case newParser schemaYAML of
        Inl err \<Rightarrow> (Panic (PanicWith (ErrorsNew ''Failed to parse schema: '')), \<lparr>pv_parserOnce = True, pv_parser = None\<rparr>)
      | Inr p \<Rightarrow> (Ok (Some p), \<lparr>pv_parserOnce = True, pv_parser = Some p\<rparr>))"

text \<open>
  The schema is parsed once: every later call returns what the first one left, whatever the library would
  answer then. After a first call that panicked, that is a nil parser and no error.
\<close>

lemma Parser_once:
  assumes "Parser newParser \<lparr>pv_parserOnce = False, pv_parser = None\<rparr> = (r, v)"
  shows "Parser newParser' v = (Ok (pv_parser v), v)"
    and "r = Ok (Some p) \<longleftrightarrow> newParser schemaYAML = Inr p"
    and "is_Panic r \<Longrightarrow> Parser newParser' v = (Ok None, v)"
  using assms by (auto simp: Parser_def split: sum.splits)

end
