(* ===== verification/Test_Backends.thy ===== *)
theory Test_Backends
  imports Go_Strings
begin

text \<open>
  The echo backends of the tests: \<^verbatim>\<open>pkg/echoserver/server.go\<close> (a server of two functions, and one whose
  implementation can be swapped) and \<^verbatim>\<open>pkg/testruntime/backend.go\<close> (behaviours, and starting and stopping
  backends). The network, the gRPC server and the generated protobuf code are libraries; an error of a
  call is a status code with a message.
\<close>

section \<open>The echo server\<close>

record EchoRequest =
  eq_Payload :: string

record EchoReply =
  er_ServerId :: string
  er_Payload :: string
  er_Variant :: string

type_synonym echo_result = "(nat \<times> string) + EchoReply"

text \<open>What the closures of a behaviour keep: two counters, and the time they have slept.\<close>

record echo_state =
  st_echoCount :: nat
  st_echoPremiumCount :: nat
  st_slept :: nat

type_synonym echo_func = "EchoRequest \<Rightarrow> echo_state \<Rightarrow> echo_result \<times> echo_state"

record echo_server =
  sv_EchoFunc :: echo_func
  sv_EchoPremiumFunc :: echo_func
  sv_state :: echo_state

definition Server_Echo :: "EchoRequest \<Rightarrow> echo_server \<Rightarrow> echo_result \<times> echo_server" where
  "Server_Echo req e = (let (r, st) = sv_EchoFunc e req (sv_state e) in (r, e\<lparr>sv_state := st\<rparr>))"

definition Server_EchoPremium :: "EchoRequest \<Rightarrow> echo_server \<Rightarrow> echo_result \<times> echo_server" where
  "Server_EchoPremium req e = (let (r, st) = sv_EchoPremiumFunc e req (sv_state e) in (r, e\<lparr>sv_state := st\<rparr>))"

record SwapableServer =
  ss_impl :: "echo_server option"

definition Swap :: "echo_server \<Rightarrow> SwapableServer \<Rightarrow> SwapableServer" where
  "Swap impl s = s\<lparr>ss_impl := Some impl\<rparr>"

definition Swapable_Echo :: "EchoRequest \<Rightarrow> SwapableServer \<Rightarrow> (echo_result \<times> SwapableServer) outcome" where
  "Swapable_Echo req s =
     and_then (deref (ss_impl s)) (\<lambda>impl.
       let (r, impl) = Server_Echo req impl in Ok (r, s\<lparr>ss_impl := Some impl\<rparr>))"

definition Swapable_EchoPremium :: "EchoRequest \<Rightarrow> SwapableServer \<Rightarrow> (echo_result \<times> SwapableServer) outcome" where
  "Swapable_EchoPremium req s =
     and_then (deref (ss_impl s)) (\<lambda>impl.
       let (r, impl) = Server_EchoPremium req impl in Ok (r, s\<lparr>ss_impl := Some impl\<rparr>))"

section \<open>Behaviours\<close>

type_synonym Behavior = "string \<Rightarrow> echo_server"

abbreviation fresh :: echo_state where
  "fresh \<equiv> \<lparr>st_echoCount = 0, st_echoPremiumCount = 0, st_slept = 0\<rparr>"

abbreviation reply :: "string \<Rightarrow> EchoRequest \<Rightarrow> string \<Rightarrow> EchoReply" where
  "reply i req variant \<equiv> \<lparr>er_ServerId = i, er_Payload = eq_Payload req, er_Variant = variant\<rparr>"

definition DefaultBehavior :: Behavior where
  "DefaultBehavior i =
     \<lparr>sv_EchoFunc = (\<lambda>req st. (Inr (reply i req ''standard''), st)),
      sv_EchoPremiumFunc = (\<lambda>req st. (Inr (reply i req ''premium''), st)),
      sv_state = fresh\<rparr>"

definition SequenceBehavior :: "nat list \<Rightarrow> Behavior" where
  "SequenceBehavior codes i =
     \<lparr>sv_EchoFunc = (\<lambda>req st.
        if st_echoCount st < length codes
        then (Inl (codes ! st_echoCount st, ''nope''), st\<lparr>st_echoCount := st_echoCount st + 1\<rparr>)
        else (Inr (reply i req ''standard''), st)),
      sv_EchoPremiumFunc = (\<lambda>req st.
        if st_echoPremiumCount st < length codes
        then (Inl (codes ! st_echoPremiumCount st, ''nope''), st\<lparr>st_echoPremiumCount := st_echoPremiumCount st + 1\<rparr>)
        else (Inr (reply i req ''premium''), st)),
      sv_state = fresh\<rparr>"

definition HangBehavior :: "nat \<Rightarrow> Behavior" where
  "HangBehavior d i =
     \<lparr>sv_EchoFunc = (\<lambda>req st. (Inr (reply i req ''standard''), st\<lparr>st_slept := st_slept st + d\<rparr>)),
      sv_EchoPremiumFunc = (\<lambda>req st. (Inr (reply i req ''premium''), st\<lparr>st_slept := st_slept st + d\<rparr>)),
      sv_state = fresh\<rparr>"

section \<open>Backends\<close>

text \<open>The listener of a backend is its address, as \<^verbatim>\<open>Addr().String()\<close> gives it.\<close>

record TestBackend =
  tb_ID :: string
  tb_Listener :: string
  tb_Impl :: SwapableServer

record 'w net_lib =
  nl_Listen :: "'w \<Rightarrow> (go_error + string) \<times> 'w"
  nl_Serve :: "string \<Rightarrow> 'w \<Rightarrow> 'w"
  nl_Stop :: "string \<Rightarrow> 'w \<Rightarrow> 'w"
  nl_Close :: "string \<Rightarrow> 'w \<Rightarrow> go_error option \<times> 'w"

definition backend_SetBehavior :: "Behavior \<Rightarrow> TestBackend \<Rightarrow> TestBackend" where
  "backend_SetBehavior bh b = b\<lparr>tb_Impl := Swap (bh (tb_ID b)) (tb_Impl b)\<rparr>"

definition newBackend :: "'w net_lib \<Rightarrow> string \<Rightarrow> 'w \<Rightarrow> (go_error + TestBackend) \<times> 'w" where
  "newBackend nl i w =
     (case nl_Listen nl w of
        (Inl err, w) \<Rightarrow> (Inl err, w)
      | (Inr listener, w) \<Rightarrow>
          let b = \<lparr>tb_ID = i, tb_Listener = listener, tb_Impl = \<lparr>ss_impl = None\<rparr>\<rparr>;
              b = backend_SetBehavior DefaultBehavior b
          in (Inr b, nl_Serve nl listener w))"

text \<open>The loop fills \<open>backends\<close> from \<open>i\<close> on; an error returns at once.\<close>

fun start_backends :: "'w net_lib \<Rightarrow> nat \<Rightarrow> nat \<Rightarrow> 'w \<Rightarrow> (go_error + TestBackend list) \<times> 'w" where
  "start_backends nl i 0 w = (Inr [], w)"
| "start_backends nl i (Suc n) w =
     (case newBackend nl (''backend-'' @ Itoa (int i)) w of
        (Inl err, w) \<Rightarrow> (Inl err, w)
      | (Inr b, w) \<Rightarrow>
          (case start_backends nl (Suc i) n w of
             (Inl err, w) \<Rightarrow> (Inl err, w)
           | (Inr bs, w) \<Rightarrow> (Inr (b # bs), w)))"

text \<open>A negative count is refused by \<^verbatim>\<open>make\<close>.\<close>

definition StartBackends :: "'w net_lib \<Rightarrow> int \<Rightarrow> 'w \<Rightarrow> TestBackend list outcome \<times> 'w" where
  "StartBackends nl count w =
     (if count < 0 then (Panic (PanicWith (LibraryError ''makeslice: len out of range'')), w)
      else (case start_backends nl 0 (nat count) w of (r, w) \<Rightarrow> (of_lib r, w)))"

definition backend_Close :: "'w net_lib \<Rightarrow> TestBackend \<Rightarrow> 'w \<Rightarrow> go_error option \<times> 'w" where
  "backend_Close nl b w = nl_Close nl (tb_Listener b) (nl_Stop nl (tb_Listener b) w)"

definition Backends_Stop :: "'w net_lib \<Rightarrow> TestBackend list \<Rightarrow> 'w \<Rightarrow> unit outcome \<times> 'w" where
  "Backends_Stop nl bs w = (Ok (), fold (\<lambda>b w. snd (backend_Close nl b w)) bs w)"

definition Backends_SetBehavior :: "Behavior \<Rightarrow> TestBackend list \<Rightarrow> TestBackend list" where
  "Backends_SetBehavior bh bs = map (backend_SetBehavior bh) bs"

section \<open>Addresses\<close>

text \<open>\<^verbatim>\<open>net.JoinHostPort\<close>, which renders the address of a listener, and \<^verbatim>\<open>net.SplitHostPort\<close>.\<close>

definition JoinHostPort :: "string \<Rightarrow> string \<Rightarrow> string" where
  "JoinHostPort host port = (if CHR '':'' \<in> set host then ''['' @ host @ '']:'' @ port else host @ '':'' @ port)"

definition before :: "char \<Rightarrow> string \<Rightarrow> string" where
  "before c s = takeWhile (\<lambda>x. x \<noteq> c) s"

definition after_last :: "char \<Rightarrow> string \<Rightarrow> string" where
  "after_last c s = rev (takeWhile (\<lambda>x. x \<noteq> c) (rev s))"

definition before_last :: "char \<Rightarrow> string \<Rightarrow> string" where
  "before_last c s = rev (tl (dropWhile (\<lambda>x. x \<noteq> c) (rev s)))"

text \<open>The port starts after the last colon; a bracketed host ends just before it.\<close>

definition SplitHostPort :: "string \<Rightarrow> (string \<times> string) option" where
  "SplitHostPort hostport =
     (if CHR '':'' \<notin> set hostport then None
      else let host = before_last CHR '':'' hostport; port = after_last CHR '':'' hostport in
        if hd hostport = CHR ''['' then
          (if CHR '']'' \<in> set hostport \<and> before CHR '']'' hostport @ '']'' = host \<and>
              CHR ''['' \<notin> set (tl hostport) \<and> CHR '']'' \<notin> set port
           then Some (tl (before CHR '']'' hostport), port) else None)
        else if CHR '':'' \<in> set host \<or> CHR ''['' \<in> set hostport \<or> CHR '']'' \<in> set hostport then None
        else Some (host, port))"

text \<open>\<^verbatim>\<open>strconv.ParseInt\<close> at 32 bits.\<close>

definition ParseInt32 :: "string \<Rightarrow> int option" where
  "ParseInt32 s = (case Atoi s of None \<Rightarrow> None | Some n \<Rightarrow> if - (2 ^ 31) \<le> n \<and> n < 2 ^ 31 then Some n else None)"

definition PortNumber :: "TestBackend \<Rightarrow> int32 outcome" where
  "PortNumber b =
     (case SplitHostPort (tb_Listener b) of
        None \<Rightarrow> Panic (PanicWith (LibraryError ''address''))
      | Some (host, p) \<Rightarrow>
          (case ParseInt32 p of
             None \<Rightarrow> Panic (PanicWith (LibraryError ''parsing''))
           | Some pint \<Rightarrow> Ok (of_int pint)))"

section \<open>Lemmas\<close>

lemma last_colon:
  assumes "c \<notin> set p"
  shows "after_last c (h @ c # p) = p" and "before_last c (h @ c # p) = h"
proof -
  have "takeWhile (\<lambda>x. x \<noteq> c) (rev p @ c # rev h) = rev p" and "dropWhile (\<lambda>x. x \<noteq> c) (rev p @ c # rev h) = c # rev h"
    using assms by (induction "rev p") (auto simp: takeWhile_append dropWhile_append)
  then show "after_last c (h @ c # p) = p" and "before_last c (h @ c # p) = h"
    by (simp_all add: after_last_def before_last_def)
qed

lemma before_bracket: "c \<notin> set s \<Longrightarrow> before c (s @ c # t) = s"
  by (induction s) (auto simp: before_def)

text \<open>Splitting the rendered address of a host and a port gives them back.\<close>

lemma SplitHostPort_JoinHostPort:
  assumes "set host \<inter> {CHR ''['', CHR '']''} = {}" and "set port \<inter> {CHR ''['', CHR '']'', CHR '':''} = {}"
  shows "SplitHostPort (JoinHostPort host port) = Some (host, port)"
proof -
  have port: "CHR '':'' \<notin> set port" using assms(2) by auto
  show ?thesis
  proof (cases "CHR '':'' \<in> set host")
    case True
    let ?a = "''['' @ host @ '']''"
    have eq: "JoinHostPort host port = ?a @ CHR '':'' # port" using True by (simp add: JoinHostPort_def)
    have "before CHR '']'' (?a @ CHR '':'' # port) = ''['' @ host"
      using before_bracket [of "CHR '']''" "''['' @ host" "CHR '':'' # port"] assms(1) by auto
    then show ?thesis
      unfolding eq SplitHostPort_def Let_def
      using assms last_colon [OF port, of ?a] by (auto simp: disjoint_iff)
  next
    case False
    have eq: "JoinHostPort host port = host @ CHR '':'' # port" using False by (simp add: JoinHostPort_def)
    have "hd (host @ CHR '':'' # port) \<noteq> CHR ''[''" using assms(1) by (cases host) auto
    then show ?thesis
      unfolding eq SplitHostPort_def Let_def
      using assms False last_colon [OF port, of host] by (auto simp: disjoint_iff)
  qed
qed

lemma decimal_set: "c \<in> set (decimal n) \<Longrightarrow> is_digit c"
  using decimal_digits [of n] by (simp add: list_all_iff)

lemma port_digits: "set (Itoa (int p)) \<inter> {CHR ''['', CHR '']'', CHR '':''} = {}"
  by (auto simp: Itoa_def is_digit_def dest!: decimal_set)

text \<open>The port of a backend that listens on a TCP port is that port.\<close>

lemma PortNumber_of_address:
  assumes "set host \<inter> {CHR ''['', CHR '']''} = {}" and "p < 2 ^ 16" and "tb_Listener b = JoinHostPort host (Itoa (int p))"
  shows "PortNumber b = Ok (of_nat p)"
proof -
  have "Atoi (Itoa (int p)) = Some (int p)" using assms(2) by (intro Atoi_Itoa) (simp add: go_int_def)
  then show ?thesis
    using assms SplitHostPort_JoinHostPort [OF assms(1) port_digits] by (simp add: PortNumber_def ParseInt32_def)
qed

text \<open>A started backend answers with its own identifier, and the identifiers differ.\<close>

definition default_backend :: "string \<Rightarrow> TestBackend \<Rightarrow> bool" where
  "default_backend i b \<longleftrightarrow> tb_ID b = i \<and> ss_impl (tb_Impl b) = Some (DefaultBehavior i)"

lemma newBackend_default: "newBackend nl i w = (Inr b, w') \<Longrightarrow> default_backend i b"
  by (auto simp: newBackend_def backend_SetBehavior_def Swap_def default_backend_def Let_def split: prod.splits sum.splits)

lemma start_backends_default:
  "start_backends nl i n w = (Inr bs, w') \<Longrightarrow>
   length bs = n \<and> (\<forall>k < n. default_backend (''backend-'' @ Itoa (int (i + k))) (bs ! k))"
proof (induction n arbitrary: i w bs w')
  case (Suc n)
  then obtain b w1 bs' where b: "newBackend nl (''backend-'' @ Itoa (int i)) w = (Inr b, w1)"
    and rest: "start_backends nl (Suc i) n w1 = (Inr bs', w')" and bs: "bs = b # bs'"
    by (auto split: prod.splits sum.splits)
  from Suc.IH [OF rest] newBackend_default [OF b] show ?case by (auto simp: bs nth_Cons algebra_simps split: nat.split)
qed simp

lemma started_backends_distinct:
  assumes "StartBackends nl count w = (Ok bs, w')"
  shows "length bs = nat count \<and> distinct (map tb_ID bs)"
    and "b \<in> set bs \<Longrightarrow> \<exists>s. Swapable_Echo req (tb_Impl b) = Ok (Inr (reply (tb_ID b) req ''standard''), s)"
proof -
  have r: "start_backends nl 0 (nat count) w = (Inr bs, w')"
    using assms by (auto simp: StartBackends_def split: if_splits prod.splits sum.splits) (metis of_lib.simps outcome.distinct(1) outcome.inject(1) sum.exhaust)
  note bs = start_backends_default [OF r]
  then have "map tb_ID bs = map (\<lambda>k. ''backend-'' @ Itoa (int k)) [0..<length bs]"
    by (intro nth_equalityI) (auto simp: default_backend_def)
  then have "distinct (map tb_ID bs)" by (simp add: distinct_map inj_on_def Itoa_inj)
  then show "length bs = nat count \<and> distinct (map tb_ID bs)" using bs by simp
  show "\<exists>s. Swapable_Echo req (tb_Impl b) = Ok (Inr (reply (tb_ID b) req ''standard''), s)" if "b \<in> set bs"
    using bs that by (auto simp: in_set_conv_nth default_backend_def Swapable_Echo_def Server_Echo_def DefaultBehavior_def)
qed

text \<open>
  When a backend cannot be started, the ones started before it are left running: the world is the one
  their starts and the failing attempt left behind, nothing is stopped or closed.
\<close>

lemma start_backends_leak:
  assumes "start_backends nl i n w = (Inl err, w')"
  shows "\<exists>k < n. \<exists>wk. (\<exists>bs. start_backends nl i k w = (Inr bs, wk)) \<and> nl_Listen nl wk = (Inl err, w')"
  using assms
proof (induction n arbitrary: i w)
  case (Suc n)
  show ?case
  proof (cases "newBackend nl (''backend-'' @ Itoa (int i)) w")
    case (Pair r w1)
    show ?thesis
    proof (cases r)
      case (Inl e)
      then have "nl_Listen nl w = (Inl err, w')"
        using Suc.prems Pair by (auto simp: newBackend_def Let_def split: prod.splits sum.splits)
      then show ?thesis by (intro exI [of _ 0]) simp
    next
      case (Inr b)
      then have "start_backends nl (Suc i) n w1 = (Inl err, w')"
        using Suc.prems Pair by (auto split: prod.splits sum.splits)
      from Suc.IH [OF this] obtain k wk bs where "k < n" "start_backends nl (Suc i) k w1 = (Inr bs, wk)"
        "nl_Listen nl wk = (Inl err, w')" by blast
      then show ?thesis using Pair Inr by (intro exI [of _ "Suc k"]) auto
    qed
  qed
qed simp

section \<open>The behaviour of a sequence\<close>

text \<open>Calls that follow one another get the codes in order, then replies; the two methods count apart.\<close>

fun echo_calls :: "EchoRequest list \<Rightarrow> echo_server \<Rightarrow> echo_result list" where
  "echo_calls [] e = []"
| "echo_calls (req # reqs) e = (case Server_Echo req e of (r, e) \<Rightarrow> r # echo_calls reqs e)"

lemma sequence_calls:
  assumes "sv_EchoFunc e = sv_EchoFunc (SequenceBehavior codes i)" and "st_echoCount (sv_state e) = k" and "k \<le> length codes"
    and "m < length reqs"
  shows "echo_calls reqs e ! m =
    (if k + m < length codes then Inl (codes ! (k + m), ''nope'') else Inr (reply i (reqs ! m) ''standard''))"
  using assms
proof (induction reqs arbitrary: e k m)
  case (Cons req reqs)
  obtain r e' where call: "Server_Echo req e = (r, e')" by fastforce
  have f: "sv_EchoFunc e' = sv_EchoFunc (SequenceBehavior codes i)"
    using call Cons.prems(1) by (auto simp: Server_Echo_def Let_def split: prod.splits)
  show ?case
  proof (cases "k < length codes")
    case True
    then have "st_echoCount (sv_state e') = Suc k" and "r = Inl (codes ! k, ''nope'')"
      using call Cons.prems(1,2) by (auto simp: Server_Echo_def SequenceBehavior_def Let_def)
    then show ?thesis using Cons.IH [OF f, of "Suc k" "m - 1"] Cons.prems(4) True call by (cases m) auto
  next
    case False
    then have "st_echoCount (sv_state e') = k" and "r = Inr (reply i req ''standard'')"
      using call Cons.prems(1,2) by (auto simp: Server_Echo_def SequenceBehavior_def Let_def)
    then show ?thesis using Cons.IH [OF f, of k "m - 1"] Cons.prems(3,4) False call by (cases m) auto
  qed
qed simp

text \<open>
  The counter is not synchronised, and \<^verbatim>\<open>SwapableServer\<close> takes a read lock only, so that calls overlap. A
  call compares the counter, reads the code at the counter, and increments it.
\<close>

datatype seq_call = SeqStart | SeqIndex | SeqIncrement nat | SeqDone "nat option" | SeqPanic

inductive seq_step :: "nat list \<Rightarrow> nat \<times> seq_call list \<Rightarrow> nat \<times> seq_call list \<Rightarrow> bool" for codes where
  Compare: "i < length cs \<Longrightarrow> cs ! i = SeqStart \<Longrightarrow>
    seq_step codes (n, cs) (n, cs[i := if n < length codes then SeqIndex else SeqDone None])"
| Index: "i < length cs \<Longrightarrow> cs ! i = SeqIndex \<Longrightarrow>
    seq_step codes (n, cs) (n, cs[i := if n < length codes then SeqIncrement (codes ! n) else SeqPanic])"
| Increment: "i < length cs \<Longrightarrow> cs ! i = SeqIncrement code \<Longrightarrow>
    seq_step codes (n, cs) (n + 1, cs[i := SeqDone (Some code)])"

text \<open>Two calls that overlap can make one of them index past the end of the codes, which panics.\<close>

lemma overlapping_sequence_panics:
  "(seq_step [c])\<^sup>*\<^sup>* (0, [SeqStart, SeqStart]) (1, [SeqDone (Some c), SeqPanic])"
proof -
  have "seq_step [c] (0, [SeqStart, SeqStart]) (0, [SeqIndex, SeqStart])"
    using seq_step.Compare [of 0 "[SeqStart, SeqStart]" "[c]" 0] by simp
  moreover have "seq_step [c] (0, [SeqIndex, SeqStart]) (0, [SeqIndex, SeqIndex])"
    using seq_step.Compare [of 1 "[SeqIndex, SeqStart]" "[c]" 0] by simp
  moreover have "seq_step [c] (0, [SeqIndex, SeqIndex]) (0, [SeqIncrement c, SeqIndex])"
    using seq_step.Index [of 0 "[SeqIndex, SeqIndex]" "[c]" 0] by simp
  moreover have "seq_step [c] (0, [SeqIncrement c, SeqIndex]) (1, [SeqDone (Some c), SeqIndex])"
    using seq_step.Increment [of 0 "[SeqIncrement c, SeqIndex]" c "[c]" 0] by simp
  moreover have "seq_step [c] (1, [SeqDone (Some c), SeqIndex]) (1, [SeqDone (Some c), SeqPanic])"
    using seq_step.Index [of 1 "[SeqDone (Some c), SeqIndex]" "[c]" 1] by simp
  ultimately show ?thesis by (meson converse_rtranclp_into_rtranclp rtranclp.rtrancl_refl)
qed

end
