(* ===== verification/Test_Fixtures.thy ===== *)
theory Test_Fixtures
  imports Test_Backends Endpoints Clientset Informer_Factory
begin

text \<open>
  The fixtures of the tests: \<^verbatim>\<open>pkg/testruntime/builder.go\<close> (functional options that build listeners) and
  \<^verbatim>\<open>pkg/testruntime/k8s.go\<close> (endpoint slices for the backends and the fake Kubernetes). An option is a function on
  the object it modifies; a builder applies its options in order to a start value.
\<close>

section \<open>builder.go\<close>

type_synonym BackendOption = "Backend \<Rightarrow> Backend"

definition WithMaxRequests :: "uint32 \<Rightarrow> BackendOption" where
  "WithMaxRequests req c = c\<lparr>bk_MaxRequests := Some req\<rparr>"

definition WithServiceRef :: "ServiceRef \<Rightarrow> BackendOption" where
  "WithServiceRef s c = c\<lparr>bk_Service := Some s\<rparr>"

definition WithLocalities :: "Locality list \<Rightarrow> BackendOption" where
  "WithLocalities l c = c\<lparr>bk_Localities := l\<rparr>"

definition WithBackendInterceptorOverrides :: "Interceptor list \<Rightarrow> BackendOption" where
  "WithBackendInterceptorOverrides xs c = c\<lparr>bk_Interceptors := xs\<rparr>"

definition WithBackendRingHashConfig :: "RingHashConfig \<Rightarrow> BackendOption" where
  "WithBackendRingHashConfig config c = c\<lparr>bk_RingHashConfig := Some config\<rparr>"

definition WithBackendLBPolicy :: "string \<Rightarrow> BackendOption" where
  "WithBackendLBPolicy p c = c\<lparr>bk_LBPolicy := p\<rparr>"

definition BuildBackend :: "BackendOption list \<Rightarrow> Backend" where
  "BuildBackend opts =
     fold (\<lambda>opt c. opt c) opts
       \<lparr>bk_Weight = 1, bk_MaxRequests = None, bk_LBPolicy = [], bk_RingHashConfig = None,
        bk_Interceptors = [], bk_Service = None, bk_Localities = []\<rparr>"

type_synonym LocalityOption = "Locality \<Rightarrow> Locality"

definition WithLocalityWeight :: "uint32 \<Rightarrow> LocalityOption" where
  "WithLocalityWeight weight l = l\<lparr>lo_Weight := weight\<rparr>"

definition WithLocalityPriority :: "uint32 \<Rightarrow> LocalityOption" where
  "WithLocalityPriority priority l = l\<lparr>lo_Priority := priority\<rparr>"

definition WithLocalityServiceRef :: "ServiceRef \<Rightarrow> LocalityOption" where
  "WithLocalityServiceRef s l = l\<lparr>lo_Service := Some s\<rparr>"

definition BuildLocality :: "LocalityOption list \<Rightarrow> Locality" where
  "BuildLocality opts = fold (\<lambda>opt l. opt l) opts \<lparr>lo_Weight = 1, lo_Priority = 0, lo_Service = None\<rparr>"

abbreviation no_metadata :: "string \<Rightarrow> MetadataMatcher" where
  "no_metadata name \<equiv> \<lparr>mm_Name = name, mm_Exact = None, mm_Regex = None, mm_Range = None, mm_Present = None,
     mm_Prefix = None, mm_Suffix = None, mm_Invert = False\<rparr>"

definition MetadataInvertMatch :: "MetadataMatcher \<Rightarrow> MetadataMatcher" where
  "MetadataInvertMatch m = m\<lparr>mm_Invert := True\<rparr>"

definition MetadataExactMatch :: "string \<Rightarrow> string \<Rightarrow> MetadataMatcher" where
  "MetadataExactMatch name v = (no_metadata name)\<lparr>mm_Exact := Some v\<rparr>"

definition MetadataPresentMatch :: "string \<Rightarrow> bool \<Rightarrow> MetadataMatcher" where
  "MetadataPresentMatch name present = (no_metadata name)\<lparr>mm_Present := Some present\<rparr>"

definition MetadataPrefixMatch :: "string \<Rightarrow> string \<Rightarrow> MetadataMatcher" where
  "MetadataPrefixMatch name prefix = (no_metadata name)\<lparr>mm_Prefix := Some prefix\<rparr>"

definition MetadataSuffixMatch :: "string \<Rightarrow> string \<Rightarrow> MetadataMatcher" where
  "MetadataSuffixMatch name suffix = (no_metadata name)\<lparr>mm_Suffix := Some suffix\<rparr>"

type_synonym RouteMatcherOption = "RouteMatcher \<Rightarrow> RouteMatcher"

definition WithMethodMatcher :: "string \<Rightarrow> string \<Rightarrow> string \<Rightarrow> RouteMatcherOption" where
  "WithMethodMatcher namespace service meth m =
     m\<lparr>rm_Method := Some \<lparr>me_Namespace = namespace, me_Service = service, me_Method = meth\<rparr>\<rparr>"

definition WithFractionMatcher :: "Fraction \<Rightarrow> RouteMatcherOption" where
  "WithFractionMatcher fr m = m\<lparr>rm_Fraction := Some fr\<rparr>"

definition WithServiceMatcher :: "string \<Rightarrow> string \<Rightarrow> RouteMatcherOption" where
  "WithServiceMatcher namespace service m =
     m\<lparr>rm_Service := Some \<lparr>sm_Namespace = namespace, sm_Service = service\<rparr>\<rparr>"

definition WithNamespaceMatcher :: "string \<Rightarrow> RouteMatcherOption" where
  "WithNamespaceMatcher namespace m = m\<lparr>rm_Namespace := Some namespace\<rparr>"

definition WithMetadataMatchers :: "MetadataMatcher list \<Rightarrow> RouteMatcherOption" where
  "WithMetadataMatchers mms m = m\<lparr>rm_Metadata := mms\<rparr>"

definition BuildRouteMatcher :: "RouteMatcherOption list \<Rightarrow> RouteMatcher" where
  "BuildRouteMatcher opts =
     fold (\<lambda>opt m. opt m) opts
       \<lparr>rm_Method = None, rm_Service = None, rm_Namespace = None, rm_Metadata = [], rm_Fraction = None\<rparr>"

type_synonym RouteOption = "Route \<Rightarrow> Route"

definition WithRouteMatcher :: "RouteMatcher \<Rightarrow> RouteOption" where
  "WithRouteMatcher m r = r\<lparr>rt_Matcher := Some m\<rparr>"

definition WithRouteMaxStreamDuration :: "Duration \<Rightarrow> RouteOption" where
  "WithRouteMaxStreamDuration d r = r\<lparr>rt_MaxStreamDuration := Some d\<rparr>"

definition WithBackends :: "Backend list \<Rightarrow> RouteOption" where
  "WithBackends backends r = r\<lparr>rt_Backends := backends\<rparr>"

definition WithRouteInterceptorOverrides :: "Interceptor list \<Rightarrow> RouteOption" where
  "WithRouteInterceptorOverrides overrides r = r\<lparr>rt_Interceptors := overrides\<rparr>"

definition WithRouteRetry :: "RetryPolicy \<Rightarrow> RouteOption" where
  "WithRouteRetry retry r = r\<lparr>rt_Retry := Some retry\<rparr>"

definition WithRouteHashPolicy :: "HashPolicy list \<Rightarrow> RouteOption" where
  "WithRouteHashPolicy ps r = r\<lparr>rt_HashPolicy := ps\<rparr>"

definition BuildRoute :: "RouteOption list \<Rightarrow> Route" where
  "BuildRoute opts =
     fold (\<lambda>opt r. opt r) opts
       \<lparr>rt_Matcher = None, rt_Interceptors = [], rt_HashPolicy = [], rt_MaxStreamDuration = None,
        rt_GrpcTimeoutHeaderMax = None, rt_Retry = None, rt_Backends = []\<rparr>"

type_synonym ListenerOption = "GRPCListener \<Rightarrow> GRPCListener"

definition WithInterceptors :: "Interceptor list \<Rightarrow> ListenerOption" where
  "WithInterceptors fs s = s\<lparr>gl_Spec := (gl_Spec s)\<lparr>ls_Interceptors := fs\<rparr>\<rparr>"

definition WithRoutes :: "Route list \<Rightarrow> ListenerOption" where
  "WithRoutes rs s = s\<lparr>gl_Spec := (gl_Spec s)\<lparr>ls_Routes := rs\<rparr>\<rparr>"

definition WithMaxStreamDuration :: "Duration \<Rightarrow> ListenerOption" where
  "WithMaxStreamDuration d s = s\<lparr>gl_Spec := (gl_Spec s)\<lparr>ls_MaxStreamDuration := Some d\<rparr>\<rparr>"

definition WithListenerRetry :: "RetryPolicy \<Rightarrow> ListenerOption" where
  "WithListenerRetry r s = s\<lparr>gl_Spec := (gl_Spec s)\<lparr>ls_Retry := Some r\<rparr>\<rparr>"

definition BuildGRPCListener :: "string \<Rightarrow> string \<Rightarrow> ListenerOption list \<Rightarrow> GRPCListener" where
  "BuildGRPCListener name namespace opts =
     fold (\<lambda>opt s. opt s) opts
       \<lparr>gl_TypeMeta = \<lparr>tm_Kind = [], tm_APIVersion = []\<rparr>,
        gl_ObjectMeta = \<lparr>om_Name = name, om_Namespace = namespace, om_ResourceVersion = [], om_Labels = Map.empty\<rparr>,
        gl_Spec = \<lparr>ls_MaxStreamDuration = None, ls_Interceptors = [], ls_Retry = None, ls_Routes = []\<rparr>\<rparr>"

section \<open>k8s.go\<close>

text \<open>\<^verbatim>\<open>strconv.Atoi\<close> with its error dropped: zero after a syntax error, the nearest bound after a range error.\<close>

definition Atoi_value :: "string \<Rightarrow> int" where
  "Atoi_value s =
     (let neg = fst (atoi_sign s); ds = snd (atoi_sign s); n = int (decimal_val ds) in
      if ds = [] \<or> \<not> list_all is_digit ds then 0
      else if neg then max (- (2 ^ 63)) (- n) else min (2 ^ 63 - 1) n)"

definition AppendEndpointSlices :: "EndpointSlice list list \<Rightarrow> EndpointSlice list" where
  "AppendEndpointSlices ss = fold (\<lambda>s r. r @ s) ss []"

type_synonym EndpointSliceOption = "EndpointSlice \<Rightarrow> EndpointSlice outcome"

text \<open>The options index the first endpoint, which panics when there is none.\<close>

definition on_first_endpoint :: "(Endpoint \<Rightarrow> Endpoint) \<Rightarrow> EndpointSliceOption" where
  "on_first_endpoint f s =
     (case es_Endpoints s of [] \<Rightarrow> Panic (IndexOutOfRange 0 0) | e # es \<Rightarrow> Ok (s\<lparr>es_Endpoints := f e # es\<rparr>))"

definition WithEndpointZone :: "string \<Rightarrow> EndpointSliceOption" where
  "WithEndpointZone zone = on_first_endpoint (\<lambda>e. e\<lparr>ep_Zone := Some zone\<rparr>)"

definition WithEndpointHints :: "string list \<Rightarrow> EndpointSliceOption" where
  "WithEndpointHints forZones = on_first_endpoint (\<lambda>e. e\<lparr>ep_Hints := Some forZones\<rparr>)"

definition BuildEndpointSlice ::
    "int \<Rightarrow> string \<Rightarrow> string \<Rightarrow> TestBackend \<Rightarrow> EndpointSliceOption list \<Rightarrow> EndpointSlice outcome" where
  "BuildEndpointSlice i name namespace backend opts =
     (let p = (case SplitHostPort (tb_Listener backend) of None \<Rightarrow> [] | Some (h, p) \<Rightarrow> p);
          pp = Atoi_value p;
          slice = \<lparr>es_ObjectMeta = \<lparr>om_Name = name @ ''-'' @ Itoa i, om_Namespace = namespace, om_ResourceVersion = [],
              om_Labels = [''kubernetes.io/service-name'' \<mapsto> name]\<rparr>,
            es_Endpoints = [\<lparr>ep_Addresses = [''127.0.0.1''], ep_Ready = Some True, ep_Hints = None, ep_Zone = None\<rparr>],
            es_Ports = [\<lparr>ept_Name = Some ''grpc'', ept_Port = Some (of_int pp)\<rparr>]\<rparr>
      in each (\<lambda>opt. opt) opts slice)"

definition BuildEndpointSlices :: "string \<Rightarrow> string \<Rightarrow> TestBackend list \<Rightarrow> EndpointSlice list outcome" where
  "BuildEndpointSlices name namespace backends =
     traverse (\<lambda>i b. BuildEndpointSlice (int i) name namespace b []) 0 backends"

text \<open>
  \<^verbatim>\<open>grpcListenersToRuntimeObjects\<close> and \<^verbatim>\<open>endpointSlicesToRuntimeObjects\<close> on a store, the list of the variables allocated
  so far: each turn of the loop declares a variable of its own (\<^verbatim>\<open>s := s\<close>) and keeps its address.
\<close>

definition toRuntimeObjects :: "'a list \<Rightarrow> 'a list \<Rightarrow> nat option list \<times> 'a list" where
  "toRuntimeObjects xs store =
     fold (\<lambda>(i, s) (res, store). (res[i := Some (length store)], store @ [s])) (enumerate 0 xs)
       (replicate (length xs) None, store)"

definition grpcListenersToRuntimeObjects :: "GRPCListener list \<Rightarrow> GRPCListener list \<Rightarrow> nat option list \<times> GRPCListener list" where
  "grpcListenersToRuntimeObjects = toRuntimeObjects"

definition endpointSlicesToRuntimeObjects :: "EndpointSlice list \<Rightarrow> EndpointSlice list \<Rightarrow> nat option list \<times> EndpointSlice list" where
  "endpointSlicesToRuntimeObjects = toRuntimeObjects"

text \<open>
  The result of \<^verbatim>\<open>WaitForCacheSync\<close>, as the entries in the order of the range loop.
\<close>

fun checkSyncEntries :: "(rtype \<times> bool) list \<Rightarrow> unit outcome" where
  "checkSyncEntries [] = Ok ()"
| "checkSyncEntries ((t, synced) # rest) =
     (if \<not> synced then Err (ErrorsNew (''Cache sync failed for '' @ t @ '', exiting'')) else checkSyncEntries rest)"

definition checkInformerSync :: "(rtype \<times> bool) list \<Rightarrow> unit outcome" where
  "checkInformerSync syncResult =
     (if syncResult = [] then Err (ErrorsNew ''empty sync result'') else checkSyncEntries syncResult)"

record ('c, 'o, 'i, 'k, 'kf) FakeK8s =
  fk8_K8s :: 'k
  fk8_K8sInformers :: 'kf
  fk8_GTCApi :: 'c
  fk8_GTCInformers :: "('c, 'o, 'i) sharedInformerFactory"

text \<open>
  The listeners and the slices become objects of the two fake clientsets; the Kubernetes one and its
  informers are libraries.
\<close>

definition NewFakeK8s ::
    "(GRPCListener \<Rightarrow> 'tr \<Rightarrow> go_error + 'tr) \<Rightarrow> 'tr \<Rightarrow> (EndpointSlice list \<Rightarrow> 'k) \<Rightarrow> ('k \<Rightarrow> nat \<Rightarrow> 'kf) \<Rightarrow>
     GRPCListener list \<Rightarrow> EndpointSlice list \<Rightarrow> ('tr FakeClientset, 'o, 'i, 'k, 'kf) FakeK8s outcome" where
  "NewFakeK8s add newTracker kubeNewSimpleClientset kubeNewSharedInformerFactory listeners endpointSlices =
     and_then (NewSimpleClientset add newTracker listeners) (\<lambda>gtcClientSet.
       let gtcInformers = NewSharedInformerFactory gtcClientSet 60;
           k8sClientSet = kubeNewSimpleClientset endpointSlices;
           k8sInformers = kubeNewSharedInformerFactory k8sClientSet 60
       in Ok \<lparr>fk8_K8s = k8sClientSet, fk8_K8sInformers = k8sInformers, fk8_GTCApi = gtcClientSet,
              fk8_GTCInformers = gtcInformers\<rparr>)"

text \<open>
  \<open>order\<close> and \<open>order'\<close> are the range orders over the informers of the listeners' factory when they are started and
  when their result is checked. An error ends the test.
\<close>

definition FakeK8s_Start ::
    "('kf \<Rightarrow> 'kf) \<Rightarrow> ('kf \<Rightarrow> (rtype \<times> bool) list) \<Rightarrow> ('ch \<Rightarrow> 'i \<Rightarrow> bool) \<Rightarrow> 'ch \<Rightarrow> rtype list \<Rightarrow> rtype list \<Rightarrow>
     ('c, 'o, 'i, 'k, 'kf) FakeK8s \<Rightarrow> ('c, 'o, 'i, 'k, 'kf) FakeK8s outcome" where
  "FakeK8s_Start kubeStart kubeWait cacheSync ctxDone order order' f =
     (let f = f\<lparr>fk8_K8sInformers := kubeStart (fk8_K8sInformers f)\<rparr>;
          f = f\<lparr>fk8_GTCInformers := fst (Start ctxDone order (fk8_GTCInformers f))\<rparr>
      in and_then (checkInformerSync (kubeWait (fk8_K8sInformers f))) (\<lambda>_.
         and_then (checkInformerSync (List.map_filter
             (\<lambda>t. map_option (Pair t) (WaitForCacheSync cacheSync ctxDone (fk8_GTCInformers f) t)) order')) (\<lambda>_.
           Ok f)))"

section \<open>What the fixtures give\<close>

text \<open>A backend listening on a TCP port, under any host.\<close>

definition listens_on :: "TestBackend \<Rightarrow> nat \<Rightarrow> bool" where
  "listens_on b p \<longleftrightarrow> p < 2 ^ 16 \<and>
     (\<exists>host. set host \<inter> {CHR ''['', CHR '']''} = {} \<and> tb_Listener b = JoinHostPort host (Itoa (int p)))"

lemma Atoi_value_Atoi: "Atoi s = Some n \<Longrightarrow> Atoi_value s = n"
  by (auto simp: Atoi_def Atoi_value_def Let_def split: if_splits)

definition slice_for :: "int \<Rightarrow> string \<Rightarrow> string \<Rightarrow> nat \<Rightarrow> EndpointSlice" where
  "slice_for i name namespace p =
     \<lparr>es_ObjectMeta = \<lparr>om_Name = name @ ''-'' @ Itoa i, om_Namespace = namespace, om_ResourceVersion = [],
        om_Labels = [''kubernetes.io/service-name'' \<mapsto> name]\<rparr>,
      es_Endpoints = [\<lparr>ep_Addresses = [''127.0.0.1''], ep_Ready = Some True, ep_Hints = None, ep_Zone = None\<rparr>],
      es_Ports = [\<lparr>ept_Name = Some ''grpc'', ept_Port = Some (of_nat p)\<rparr>]\<rparr>"

lemma BuildEndpointSlice_port:
  assumes "listens_on b p"
  shows "BuildEndpointSlice i name namespace b [] = Ok (slice_for i name namespace p)"
proof -
  obtain host where host: "set host \<inter> {CHR ''['', CHR '']''} = {}" "tb_Listener b = JoinHostPort host (Itoa (int p))"
    using assms by (auto simp: listens_on_def)
  have "Atoi_value (Itoa (int p)) = int p"
    using assms by (intro Atoi_value_Atoi Atoi_Itoa) (simp add: listens_on_def go_int_def)
  then show ?thesis
    using SplitHostPort_JoinHostPort [OF host(1) port_digits [of p]]
    by (simp add: BuildEndpointSlice_def host(2) slice_for_def)
qed

lemma BuildEndpointSlices_ports:
  assumes "\<And>b. b \<in> set bs \<Longrightarrow> listens_on b (port b)"
  shows "BuildEndpointSlices name namespace bs =
    Ok (map (\<lambda>(i, b). slice_for (int i) name namespace (port b)) (enumerate 0 bs))"
  unfolding BuildEndpointSlices_def traverse_Ok_iff
  using assms by (simp add: nth_enumerate_eq BuildEndpointSlice_port)

text \<open>The code takes the port of such a slice by its name, and finds no hints in it.\<close>

lemma slice_for_ready:
  assumes "pr_Name (sr_Port svc) = ''grpc''"
  shows "ready_of svc (slice_for i name ns p) = Ok [\<lparr>ed_port = of_nat p, ed_endpoint =
    \<lparr>ep_Addresses = [''127.0.0.1''], ep_Ready = Some True, ep_Hints = None, ep_Zone = None\<rparr>\<rparr>]"
  using assms by (simp add: ready_of_def slice_for_def lookupK8sPort_def derefBool_def)

lemma fixture_ready:
  assumes "pr_Name (sr_Port svc) = ''grpc''"
  shows "ready_endpoints svc (map (\<lambda>(i, b). slice_for (int i) name ns (port b)) (enumerate k bs)) =
    Ok (map (\<lambda>b. \<lparr>ed_port = of_nat (port b), ed_endpoint =
      \<lparr>ep_Addresses = [''127.0.0.1''], ep_Ready = Some True, ep_Hints = None, ep_Zone = None\<rparr>\<rparr>) bs)"
  by (induction bs arbitrary: k) (simp_all add: ready_endpoints_Cons slice_for_ready [OF assms])

lemma zone_split_unhinted:
  assumes "\<forall>d \<in> set ds. ep_Hints (ed_endpoint d) = None \<and> ep_Zone (ed_endpoint d) = None" and "ds \<noteq> []"
  shows "zone_split nm zone ds =
    [\<lparr>lle_Locality = \<lparr>lcm_Zone = [], lcm_SubZone = nm @ ''-'' @ Itoa 0\<rparr>, lle_LoadBalancingWeight = 1,
      lle_Priority = 0, lle_LbEndpoints = lb_of ds\<rparr>]"
proof -
  have "filter (hinted zone) ds = []" and "filter (\<lambda>d. \<not> hinted zone d) ds = ds"
    using assms(1) by (auto simp: hinted_def filter_empty_conv filter_id_conv)
  moreover have "find (\<lambda>d. ep_Zone (ed_endpoint d) \<noteq> None \<and> ep_Zone (ed_endpoint d) \<noteq> Some []) ds = None"
    using assms(1) by (auto simp: find_None_iff)
  then have "first_zone ds = []" by (simp add: first_zone_def)
  ultimately show ?thesis using assms(2) by (simp add: zone_split_def zone_locality_def)
qed

text \<open>C37:
  The fixtures of the tests reach their backends: when the slices built for some started backends are in
  the cache, with any slices of other services, then a backend of a listener that refers to the
  service by the port name of the slices is resolved to one locality that holds, in order, the address
  of each of the started backends and nothing else.
\<close>

theorem fixtures_reach_the_backends:
  assumes "\<And>b. b \<in> set bs \<Longrightarrow> listens_on b (port b)" and "bs \<noteq> []"
    and "BuildEndpointSlices (sr_Name svc) (serviceNamespace svc lis) bs = Ok slices"
    and "slices_cached sl (AppendEndpointSlices [others, slices])"
    and "\<And>s. s \<in> set others \<Longrightarrow> \<not> slice_of_service (serviceNamespace svc lis) (sr_Name svc) s"
    and "selects_by_label lib" and "label_value_ok lib (sr_Name svc)" and "pr_Name (sr_Port svc) = ''grpc''"
  shows "\<exists>la vs. makeLoadAssignment lib sl (Some n) ref lis (BuildBackend [WithServiceRef svc]) = Ok (la, vs) \<and>
    cla_Endpoints la = [Some \<lparr>lle_Locality = \<lparr>lcm_Zone = [], lcm_SubZone = sr_Name svc @ ''-0''\<rparr>,
      lle_LoadBalancingWeight = 1, lle_Priority = 0,
      lle_LbEndpoints = map (\<lambda>b. \<lparr>lbe_Protocol = TCP, lbe_Address = ''127.0.0.1'', lbe_PortValue = of_nat (port b)\<rparr>) bs\<rparr>]"
proof -
  let ?ns = "serviceNamespace svc lis" and ?b = "BuildBackend [WithServiceRef svc]"
  let ?ds = "map (\<lambda>b. \<lparr>ed_port = of_nat (port b), ed_endpoint =
      \<lparr>ep_Addresses = [''127.0.0.1''], ep_Ready = Some True, ep_Hints = None, ep_Zone = None\<rparr>\<rparr>) bs"
  have zero: "Itoa 0 = ''0''" by code_simp
  have slices: "slices = map (\<lambda>(i, b). slice_for (int i) (sr_Name svc) ?ns (port b)) (enumerate 0 bs)"
    using assms(3) by (simp add: BuildEndpointSlices_ports [OF assms(1)])
  have svc: "bk_Service ?b = Some svc" by (simp add: BuildBackend_def WithServiceRef_def)
  have "filter (slice_of_service ?ns (sr_Name svc)) others = []" using assms(5) by (auto simp: filter_empty_conv)
  moreover have "filter (slice_of_service ?ns (sr_Name svc)) slices = slices"
    by (auto simp: slices slice_of_service_def slice_for_def filter_id_conv)
  ultimately have "filter (slice_of_service ?ns (sr_Name svc)) (AppendEndpointSlices [others, slices]) = slices"
    by (simp add: AppendEndpointSlices_def)
  moreover have "ready_endpoints svc slices = Ok ?ds" unfolding slices by (rule fixture_ready [OF assms(8)])
  moreover have "zone_split (sr_Name svc) z ?ds = [\<lparr>lle_Locality = \<lparr>lcm_Zone = [], lcm_SubZone = sr_Name svc @ ''-0''\<rparr>,
      lle_LoadBalancingWeight = 1, lle_Priority = 0, lle_LbEndpoints = lb_of ?ds\<rparr>]" for z
    using zone_split_unhinted [of ?ds "sr_Name svc" z] assms(2) zero by simp
  moreover have "lb_of ?ds = map (\<lambda>b. \<lparr>lbe_Protocol = TCP, lbe_Address = ''127.0.0.1'', lbe_PortValue = of_nat (port b)\<rparr>) bs"
    by (simp add: lb_of_def makeLbEndpoints_def makeLbEndpoint_def comp_def)
  ultimately show ?thesis
    using makeServiceLoadAssignment_eq [OF assms(6,4) svc assms(7), of n ref lis] by (simp add: makeLoadAssignment_def svc)
qed

text \<open>Two backends, of which the second listens on all IPv6 addresses.\<close>

definition sample_backends :: "TestBackend list" where
  "sample_backends = [\<lparr>tb_ID = ''backend-0'', tb_Listener = JoinHostPort ''127.0.0.1'' (Itoa 3333), tb_Impl = \<lparr>ss_impl = None\<rparr>\<rparr>,
     \<lparr>tb_ID = ''backend-1'', tb_Listener = JoinHostPort ''::'' (Itoa 4444), tb_Impl = \<lparr>ss_impl = None\<rparr>\<rparr>]"

definition sample_port :: "TestBackend \<Rightarrow> nat" where
  "sample_port b = (if tb_ID b = ''backend-0'' then 3333 else 4444)"

lemma sample_backends_listen: "b \<in> set sample_backends \<Longrightarrow> listens_on b (sample_port b)"
  by (auto simp: sample_backends_def listens_on_def sample_port_def intro: exI [of _ "''127.0.0.1''"] exI [of _ "''::''"])

theorem fixtures_reach_the_backends_witness:
  "\<exists>slices la vs. BuildEndpointSlices ''test-service'' ''default'' sample_backends = Ok slices \<and>
     makeLoadAssignment sample_lib (lister_of (AppendEndpointSlices [[], slices])) (Some sample_node)
       (backend_ref sample_listener 0 0) sample_listener
       (BuildBackend [WithServiceRef sample_service]) = Ok (la, vs) \<and> length (cla_Endpoints la) = 1"
proof -
  have ns: "serviceNamespace sample_service sample_listener = ''default''" and name: "sr_Name sample_service = ''test-service''"
    by (simp_all add: serviceNamespace_def go_defs)
  obtain slices where s: "BuildEndpointSlices ''test-service'' ''default'' sample_backends = Ok slices"
    using BuildEndpointSlices_ports [OF sample_backends_listen] by blast
  have "label_value_ok sample_lib ''test-service''" by (simp add: label_value_ok_def sample_lib_def)
  moreover have "pr_Name (sr_Port sample_service) = ''grpc''" by (simp add: sample_service_def)
  moreover have "sample_backends \<noteq> []" by (simp add: sample_backends_def)
  ultimately have "\<exists>la vs. makeLoadAssignment sample_lib (lister_of (AppendEndpointSlices [[], slices])) (Some sample_node)
      (backend_ref sample_listener 0 0) sample_listener (BuildBackend [WithServiceRef sample_service]) = Ok (la, vs) \<and> length (cla_Endpoints la) = 1"
    using fixtures_reach_the_backends [of sample_backends sample_port sample_service sample_listener slices
        "lister_of (AppendEndpointSlices [[], slices])" "[]" sample_lib sample_node "backend_ref sample_listener 0 0"] sample_backends_listen s
    by (fastforce simp: ns name lister_of_cached sample_lib_selects)
  then show ?thesis using s by blast
qed

section \<open>The objects do not share a variable\<close>

text \<open>
  The objects handed to the fake clients are pointers to different variables, each holding one of the
  given values: none of them is the loop variable, which would make all of them the last value.
\<close>

lemma toRuntimeObjects_loop:
  "n + length xs = length res \<Longrightarrow>
   fold (\<lambda>(i, s) (res, store). (res[i := Some (length store)], store @ [s])) (enumerate n xs) (res, store) =
     (take n res @ map Some [length store ..< length store + length xs], store @ xs)"
proof (induction xs arbitrary: n res store)
  case (Cons x xs)
  let ?a = "Some (length store)"
  have "take (Suc n) (res[n := ?a]) = take n res @ [?a]"
    using Cons.prems by (simp add: take_Suc_conv_app_nth)
  moreover have "[length store ..< length store + length (x # xs)] =
      length store # [Suc (length store) ..< length store + length (x # xs)]"
    by (rule upt_conv_Cons) simp
  ultimately show ?case
    using Cons.IH [of "Suc n" "res[n := ?a]" "store @ [x]"] Cons.prems by (simp del: upt_Suc)
qed simp

lemma runtime_objects_are_separate:
  assumes "toRuntimeObjects xs store = (res, store')"
  shows "\<exists>ptrs. res = map Some ptrs \<and> distinct ptrs \<and> map (\<lambda>p. store' ! p) ptrs = xs \<and> take (length store) store' = store"
proof -
  have "res = map Some [length store ..< length store + length xs]" and store': "store' = store @ xs"
    using toRuntimeObjects_loop [of 0 xs "replicate (length xs) None" store] assms
    by (simp_all add: toRuntimeObjects_def)
  moreover have "map (\<lambda>p. store' ! p) [length store ..< length store + length xs] = xs"
    by (rule nth_equalityI) (simp_all add: store' nth_append)
  ultimately show ?thesis by (intro exI [of _ "[length store ..< length store + length xs]"]) simp
qed

section \<open>The sync check\<close>

text \<open>The check passes, in any order of the loop, exactly when something was started and all of it synced.\<close>

lemma checkInformerSync_iff:
  "checkInformerSync res = Ok () \<longleftrightarrow> res \<noteq> [] \<and> (\<forall>(t, synced) \<in> set res. synced)"
proof -
  have "checkSyncEntries res = Ok () \<longleftrightarrow> (\<forall>(t, synced) \<in> set res. synced)"
    by (induction res rule: checkSyncEntries.induct) auto
  then show ?thesis by (simp add: checkInformerSync_def)
qed

text \<open>
  Starting the fake Kubernetes before anything asked for an informer of the listeners fails the test: the
  sync result is empty.
\<close>

lemma FakeK8s_Start_needs_an_informer:
  assumes "sif_informers (fk8_GTCInformers f) = Map.empty" and "checkInformerSync (kubeWait (kubeStart (fk8_K8sInformers f))) = Ok ()"
  shows "FakeK8s_Start kubeStart kubeWait cacheSync ch order order' f = Err (ErrorsNew ''empty sync result'')"
proof -
  have "start_loop ch order (fk8_GTCInformers f) = (fk8_GTCInformers f, [])"
    by (induction order) (simp_all add: assms(1))
  then have "fst (Start ch order (fk8_GTCInformers f)) = fk8_GTCInformers f"
    using assms(1) by (simp add: Start_def)
  then have "List.map_filter (\<lambda>t. map_option (Pair t) (WaitForCacheSync cacheSync ch (fst (Start ch order (fk8_GTCInformers f))) t)) order' = []"
    using assms(1) by (simp add: WaitForCacheSync_def started_informers_def List.map_filter_def)
  then show ?thesis using assms(2) by (simp add: FakeK8s_Start_def Let_def) (simp add: checkInformerSync_def)
qed

end
