(* ===== verification/Test_Assertions.thy ===== *)
theory Test_Assertions
  imports Test_Backends "HOL-Library.Multiset" Complex_Main
begin

text \<open>
  The calls and checks of the tests, \<^verbatim>\<open>pkg/testruntime/assert.go\<close>: a caller runs a method against a client some
  number of times, one after the other or in parallel, and the checks read the outcomes of the calls.
  The gRPC client and its connection are a library that threads the state of the world.
\<close>

section \<open>A test\<close>

text \<open>
  \<^verbatim>\<open>assert\<close> and \<^verbatim>\<open>t.Fail\<close> mark the test as failed and go on; \<^verbatim>\<open>require\<close> and \<^verbatim>\<open>t.Fatal\<close> also stop it, and nothing of
  the test runs after that.
\<close>

record test_state =
  ts_failed :: bool
  ts_stopped :: bool

definition t_Fail :: "test_state \<Rightarrow> test_state" where
  "t_Fail t = t\<lparr>ts_failed := True\<rparr>"

definition t_FailNow :: "test_state \<Rightarrow> test_state" where
  "t_FailNow t = t\<lparr>ts_failed := True, ts_stopped := True\<rparr>"

abbreviation assert_that :: "bool \<Rightarrow> test_state \<Rightarrow> test_state" where
  "assert_that b t \<equiv> if b then t else t_Fail t"

abbreviation require_that :: "bool \<Rightarrow> test_state \<Rightarrow> test_state" where
  "require_that b t \<equiv> if b then t else t_FailNow t"

fun run_all :: "(test_state \<Rightarrow> test_state) list \<Rightarrow> test_state \<Rightarrow> test_state" where
  "run_all [] t = t"
| "run_all (f # fs) t = (let t = f t in if ts_stopped t then t else run_all fs t)"

section \<open>Callers\<close>

text \<open>\<open>'c\<close> is a context, \<open>'w\<close> the world. An error is a status code with its text.\<close>

record ('c, 'w) echo_client =
  ec_Echo :: "'c \<Rightarrow> EchoRequest \<Rightarrow> 'w \<Rightarrow> echo_result \<times> 'w"
  ec_EchoPremium :: "'c \<Rightarrow> EchoRequest \<Rightarrow> 'w \<Rightarrow> echo_result \<times> 'w"

type_synonym ('c, 'w) Method = "'c \<Rightarrow> ('c, 'w) echo_client \<Rightarrow> EchoRequest \<Rightarrow> 'w \<Rightarrow> echo_result \<times> 'w"

definition MethodEcho :: "('c, 'w) Method" where
  "MethodEcho ctx cl req = ec_Echo cl ctx req"

definition MethodEchoPremium :: "('c, 'w) Method" where
  "MethodEchoPremium ctx cl req = ec_EchoPremium cl ctx req"

record ('c, 'w) Caller =
  cl_m :: "('c, 'w) Method"
  cl_req :: EchoRequest
  cl_ctx :: 'c
  cl_timeout :: nat

text \<open>\<open>withTimeout\<close> is \<^verbatim>\<open>context.WithTimeout\<close>; durations are in seconds.\<close>

definition Caller_Do :: "('c \<Rightarrow> nat \<Rightarrow> 'c) \<Rightarrow> ('c, 'w) Caller \<Rightarrow> ('c, 'w) echo_client \<Rightarrow> 'w \<Rightarrow> echo_result \<times> 'w" where
  "Caller_Do withTimeout c cl w = (let ctx = withTimeout (cl_ctx c) (cl_timeout c) in cl_m c ctx cl (cl_req c) w)"

type_synonym ('c, 'w) CallerOpt = "('c, 'w) Caller \<Rightarrow> ('c, 'w) Caller"

definition WithTimeout :: "nat \<Rightarrow> ('c, 'w) CallerOpt" where
  "WithTimeout d c = c\<lparr>cl_timeout := d\<rparr>"

definition WithContext :: "'c \<Rightarrow> ('c, 'w) CallerOpt" where
  "WithContext ctx c = c\<lparr>cl_ctx := ctx\<rparr>"

definition WithMetadata :: "('c \<Rightarrow> (string \<rightharpoonup> string) \<Rightarrow> 'c) \<Rightarrow> 'c \<Rightarrow> (string \<rightharpoonup> string) \<Rightarrow> ('c, 'w) CallerOpt" where
  "WithMetadata newOutgoingContext background md = WithContext (newOutgoingContext background md)"

definition BuildCaller :: "'c \<Rightarrow> ('c, 'w) Method \<Rightarrow> ('c, 'w) CallerOpt list \<Rightarrow> ('c, 'w) Caller" where
  "BuildCaller background m opts =
     fold (\<lambda>opt c. opt c) opts
       \<lparr>cl_m = m, cl_req = \<lparr>eq_Payload = ''Hello There!''\<rparr>, cl_ctx = background, cl_timeout = 10\<rparr>"

section \<open>Calls\<close>

record call =
  ca_addr :: string
  ca_backendID :: string
  ca_err :: "(nat \<times> string) option"

record ('c, 'w) CallContext =
  cc_addr :: string
  cc_client :: "('c, 'w) echo_client"

type_synonym CallsAssertion = "call list \<Rightarrow> test_state \<Rightarrow> test_state"

text \<open>One call and what is recorded of it; \<open>run\<close> is \<^verbatim>\<open>caller.Do\<close> on the client of the context.\<close>

definition record_call :: "string \<Rightarrow> ('w \<Rightarrow> echo_result \<times> 'w) \<Rightarrow> 'w \<Rightarrow> call \<times> 'w" where
  "record_call addr run w =
     (case run w of
        (Inl err, w) \<Rightarrow> (\<lparr>ca_addr = addr, ca_backendID = [], ca_err = Some err\<rparr>, w)
      | (Inr resp, w) \<Rightarrow> (\<lparr>ca_addr = addr, ca_backendID = er_ServerId resp, ca_err = None\<rparr>, w))"

fun call_loop :: "string \<Rightarrow> ('w \<Rightarrow> echo_result \<times> 'w) \<Rightarrow> nat \<Rightarrow> nat \<Rightarrow> call list \<Rightarrow> 'w \<Rightarrow> call list \<times> 'w" where
  "call_loop addr run i 0 calls w = (calls, w)"
| "call_loop addr run i (Suc n) calls w =
     (case record_call addr run w of (c, w) \<Rightarrow> call_loop addr run (Suc i) n (calls[i := c]) w)"

definition no_call :: call where
  "no_call = \<lparr>ca_addr = [], ca_backendID = [], ca_err = None\<rparr>"

abbreviation make_panics :: "'a outcome" where
  "make_panics \<equiv> Panic (PanicWith (LibraryError ''makeslice: len out of range''))"

definition CallN ::
    "('c \<Rightarrow> nat \<Rightarrow> 'c) \<Rightarrow> ('c, 'w) Caller \<Rightarrow> int \<Rightarrow> CallsAssertion list \<Rightarrow> ('c, 'w) CallContext \<Rightarrow> test_state \<Rightarrow> 'w \<Rightarrow>
     (test_state \<times> 'w) outcome" where
  "CallN withTimeout caller cnt assertions callCtx t w =
     (if cnt < 0 then make_panics
      else case call_loop (cc_addr callCtx) (Caller_Do withTimeout caller (cc_client callCtx)) 0 (nat cnt)
                  (replicate (nat cnt) no_call) w of
        (calls, w) \<Rightarrow> Ok (run_all (map (\<lambda>a. a calls) assertions) t, w))"

definition CallOnce ::
    "('c \<Rightarrow> nat \<Rightarrow> 'c) \<Rightarrow> ('c, 'w) Caller \<Rightarrow> CallsAssertion list \<Rightarrow> ('c, 'w) CallContext \<Rightarrow> test_state \<Rightarrow> 'w \<Rightarrow>
     (test_state \<times> 'w) outcome" where
  "CallOnce withTimeout caller assertions = CallN withTimeout caller 1 assertions"

text \<open>
  In parallel, every goroutine makes one call and stores it at its own index; \<open>order\<close> is the order in which the
  calls take effect on the world. The group's error is always nil.
\<close>

fun parallel_calls :: "string \<Rightarrow> ('w \<Rightarrow> echo_result \<times> 'w) \<Rightarrow> nat list \<Rightarrow> call list \<Rightarrow> 'w \<Rightarrow> call list \<times> 'w" where
  "parallel_calls addr run [] calls w = (calls, w)"
| "parallel_calls addr run (i # order) calls w =
     (case record_call addr run w of (c, w) \<Rightarrow> parallel_calls addr run order (calls[i := c]) w)"

definition CallNParallel ::
    "nat list \<Rightarrow> ('c \<Rightarrow> nat \<Rightarrow> 'c) \<Rightarrow> ('c, 'w) Caller \<Rightarrow> int \<Rightarrow> CallsAssertion list \<Rightarrow> ('c, 'w) CallContext \<Rightarrow>
     test_state \<Rightarrow> 'w \<Rightarrow> (test_state \<times> 'w) outcome" where
  "CallNParallel order withTimeout caller cnt assertions callCtx t w =
     (if cnt < 0 then make_panics
      else case parallel_calls (cc_addr callCtx) (Caller_Do withTimeout caller (cc_client callCtx)) order
                  (replicate (nat cnt) no_call) w of
        (calls, w) \<Rightarrow> Ok (run_all (map (\<lambda>a. a calls) assertions) t, w))"

section \<open>Checks of the calls\<close>

definition NoCallErrors :: CallsAssertion where
  "NoCallErrors calls = run_all (map (\<lambda>c. require_that (ca_err c = None)) calls)"

definition MustFail :: CallsAssertion where
  "MustFail calls = run_all (map (\<lambda>c. require_that (ca_err c \<noteq> None)) calls)"

text \<open>\<^verbatim>\<open>status.Code\<close>: a nil error has the code OK, zero.\<close>

definition status_Code :: "(nat \<times> string) option \<Rightarrow> nat" where
  "status_Code err = (case err of None \<Rightarrow> 0 | Some (code, msg) \<Rightarrow> code)"

definition MustFailWithCode :: "nat \<Rightarrow> CallsAssertion" where
  "MustFailWithCode wantCode calls = run_all (map (\<lambda>c. assert_that (status_Code (ca_err c) = wantCode)) calls)"

type_synonym counts = "string \<rightharpoonup> int"

text \<open>A read of a Go map of integers: an absent key reads zero.\<close>

definition count_of :: "counts \<Rightarrow> string \<Rightarrow> int" where
  "count_of agg k = (case agg k of None \<Rightarrow> 0 | Some n \<Rightarrow> n)"

type_synonym AggregatedCallAssertion = "counts \<Rightarrow> test_state \<Rightarrow> test_state"

definition error_counts :: "call list \<Rightarrow> counts" where
  "error_counts calls =
     fold (\<lambda>c agg. let key = (case ca_err c of None \<Rightarrow> ''ok'' | Some (code, msg) \<Rightarrow> msg)
                    in agg(key \<mapsto> count_of agg key + 1)) calls Map.empty"

definition AggregateByError :: "AggregatedCallAssertion list \<Rightarrow> CallsAssertion" where
  "AggregateByError asserts calls = (let agg = error_counts calls in run_all (map (\<lambda>a. a agg) asserts))"

definition backend_counts :: "call list \<Rightarrow> counts" where
  "backend_counts calls =
     fold (\<lambda>c agg. if ca_err c \<noteq> None then agg
                    else agg(ca_backendID c \<mapsto> count_of agg (ca_backendID c) + 1)) calls Map.empty"

definition CountByBackendID :: "AggregatedCallAssertion list \<Rightarrow> CallsAssertion" where
  "CountByBackendID asserts calls = (let agg = backend_counts calls in run_all (map (\<lambda>a. a agg) asserts))"

text \<open>The lines \<^verbatim>\<open>DumpCounts\<close> logs, for the order \<open>keys\<close> of its range loop; the test goes on unchanged.\<close>

definition DumpCounts :: "string list \<Rightarrow> counts \<Rightarrow> string list" where
  "DumpCounts keys agg = map (\<lambda>k. k @ '' => '' @ Itoa (count_of agg k)) keys"

definition AssertCount :: "string \<Rightarrow> int \<Rightarrow> AggregatedCallAssertion" where
  "AssertCount backendID wantCount agg = assert_that (wantCount = count_of agg backendID)"

text \<open>The loops over a map visit its keys in an order \<open>keys\<close> of the runtime.\<close>

fun one_backend_loop :: "int \<Rightarrow> counts \<Rightarrow> string list \<Rightarrow> bool \<Rightarrow> test_state \<Rightarrow> bool \<times> test_state" where
  "one_backend_loop wantCount agg [] gotAll t = (gotAll, t)"
| "one_backend_loop wantCount agg (k # keys) gotAll t =
     (if count_of agg k = wantCount
      then one_backend_loop wantCount agg keys True (if gotAll then t_Fail t else t)
      else one_backend_loop wantCount agg keys gotAll (assert_that (0 = count_of agg k) t))"

definition AssertOneBackendGotAllCalls :: "(counts \<Rightarrow> string list) \<Rightarrow> int \<Rightarrow> AggregatedCallAssertion" where
  "AssertOneBackendGotAllCalls range_keys wantCount agg t =
     (case one_backend_loop wantCount agg (range_keys agg) False t of (gotAll, t) \<Rightarrow> assert_that gotAll t)"

fun strings_Contains :: "string \<Rightarrow> string \<Rightarrow> bool" where
  "strings_Contains [] p = (p = [])"
| "strings_Contains (x # xs) p = (take (length p) (x # xs) = p \<or> strings_Contains xs p)"

definition AssertAggregatedValuePartial :: "(counts \<Rightarrow> string list) \<Rightarrow> string \<Rightarrow> int \<Rightarrow> AggregatedCallAssertion" where
  "AssertAggregatedValuePartial range_keys part wantCount agg =
     (let matchCount = fold (\<lambda>k n. if strings_Contains k part then n + count_of agg k else n) (range_keys agg) 0
      in assert_that (wantCount = matchCount))"

definition AssertCountWithinDelta :: "string \<Rightarrow> int \<Rightarrow> rat \<Rightarrow> AggregatedCallAssertion" where
  "AssertCountWithinDelta backendID wantCount delta agg =
     (let dt = rat_of_int wantCount - rat_of_int (count_of agg backendID)
      in assert_that (\<not> (dt < - delta \<or> dt > delta)))"

section \<open>Combinators\<close>

type_synonym ('c, 'w) step = "('c, 'w) CallContext \<Rightarrow> test_state \<Rightarrow> 'w \<Rightarrow> (test_state \<times> 'w) outcome"

text \<open>A test that was stopped does not go on to the next check.\<close>

fun MultiAssert :: "('c, 'w) step list \<Rightarrow> ('c, 'w) step" where
  "MultiAssert [] callCtx t w = Ok (t, w)"
| "MultiAssert (a # asserts) callCtx t w =
     and_then (a callCtx t w) (\<lambda>(t, w). if ts_stopped t then Ok (t, w) else MultiAssert asserts callCtx t w)"

text \<open>\<open>sleep\<close> is \<^verbatim>\<open>time.Sleep\<close> and \<open>now\<close> reads the clock of the world.\<close>

definition Wait :: "(nat \<Rightarrow> 'w \<Rightarrow> 'w) \<Rightarrow> nat \<Rightarrow> ('c, 'w) step" where
  "Wait sleep d callCtx t w = Ok (t, sleep d w)"

definition ExceedDelay :: "('w \<Rightarrow> nat) \<Rightarrow> nat \<Rightarrow> ('c, 'w) step \<Rightarrow> ('c, 'w) step" where
  "ExceedDelay now d a callCtx t w =
     (let start = now w in
      and_then (a callCtx t w) (\<lambda>(t, w).
        Ok (if ts_stopped t then t else if now w - start \<le> d then t_FailNow t else t, w)))"

definition WithinDelay :: "('w \<Rightarrow> nat) \<Rightarrow> nat \<Rightarrow> ('c, 'w) step \<Rightarrow> ('c, 'w) step" where
  "WithinDelay now d a callCtx t w =
     (let start = now w in
      and_then (a callCtx t w) (\<lambda>(t, w).
        Ok (if ts_stopped t then t else if now w - start > d then t_FailNow t else t, w)))"

section \<open>Running checks\<close>

definition passes :: "(test_state \<Rightarrow> test_state) \<Rightarrow> bool" where
  "passes f \<longleftrightarrow> \<not> ts_failed (f \<lparr>ts_failed = False, ts_stopped = False\<rparr>)"

lemma t_Fail_simps [simp]: "ts_failed (t_Fail t)" "ts_failed (t_FailNow t)" "ts_stopped (t_FailNow t)"
  "ts_stopped (t_Fail t) = ts_stopped t"
  by (simp_all add: t_Fail_def t_FailNow_def)

text \<open>Checks that only ever mark the test as failed pass together when each of them passes.\<close>

lemma run_require: "run_all (map (\<lambda>c. require_that (P c)) cs) t =
    (if \<forall>c \<in> set cs. P c then t else if ts_stopped t then (if cs = [] \<or> P (hd cs) then t else t_FailNow t) else t_FailNow t)"
  by (induction cs) (auto simp: Let_def)

lemma NoCallErrors_passes: "passes (NoCallErrors calls) \<longleftrightarrow> (\<forall>c \<in> set calls. ca_err c = None)"
  by (simp add: passes_def NoCallErrors_def run_require)

lemma MustFail_passes: "passes (MustFail calls) \<longleftrightarrow> (\<forall>c \<in> set calls. ca_err c \<noteq> None)"
  by (simp add: passes_def MustFail_def run_require)

lemma run_assert:
  "\<not> ts_stopped t \<Longrightarrow> run_all (map (\<lambda>c. assert_that (P c)) cs) t = (if \<forall>c \<in> set cs. P c then t else t_Fail t)"
proof (induction cs arbitrary: t)
  case (Cons c cs)
  have "t_Fail (t_Fail t) = t_Fail t" by (simp add: t_Fail_def)
  then show ?case using Cons.IH [of t] Cons.IH [of "t_Fail t"] Cons.prems by (simp add: Let_def)
qed simp

lemma MustFailWithCode_passes:
  "passes (MustFailWithCode code calls) \<longleftrightarrow> (\<forall>c \<in> set calls. status_Code (ca_err c) = code)"
  by (simp add: passes_def MustFailWithCode_def run_assert)

section \<open>The counts\<close>

text \<open>The loop that counts keys, and what it counts.\<close>

definition tally :: "string list \<Rightarrow> counts \<Rightarrow> counts" where
  "tally = fold (\<lambda>k agg. agg(k \<mapsto> count_of agg k + 1))"

lemma tally_count: "tally ks agg k = (if k \<in> set ks then Some (count_of agg k + int (count_list ks k)) else agg k)"
  by (induction ks arbitrary: agg) (auto simp: tally_def count_of_def count_list_0_iff)

lemma backend_counts_tally:
  "backend_counts calls = tally (map ca_backendID (filter (\<lambda>c. ca_err c = None) calls)) Map.empty"
proof -
  have "fold (\<lambda>c agg. if ca_err c \<noteq> None then agg else agg(ca_backendID c \<mapsto> count_of agg (ca_backendID c) + 1)) calls agg =
      tally (map ca_backendID (filter (\<lambda>c. ca_err c = None) calls)) agg" for agg
    by (induction calls arbitrary: agg) (auto simp: tally_def)
  then show ?thesis by (simp add: backend_counts_def)
qed

definition error_key :: "call \<Rightarrow> string" where
  "error_key c = (case ca_err c of None \<Rightarrow> ''ok'' | Some (code, msg) \<Rightarrow> msg)"

lemma error_counts_tally: "error_counts calls = tally (map error_key calls) Map.empty"
proof -
  have "fold (\<lambda>c agg. let key = (case ca_err c of None \<Rightarrow> ''ok'' | Some (code, msg) \<Rightarrow> msg)
      in agg(key \<mapsto> count_of agg key + 1)) calls agg = tally (map error_key calls) agg" for agg
    by (induction calls arbitrary: agg) (simp_all add: tally_def error_key_def [symmetric] Let_def)
  then show ?thesis by (simp add: error_counts_def)
qed

lemma tally_mset: "mset ks = mset ls \<Longrightarrow> tally ks Map.empty = tally ls Map.empty"
  by (simp add: fun_eq_iff tally_count count_mset [symmetric] set_mset_mset [symmetric] del: set_mset_mset)

text \<open>The loop passes when exactly one key has the wanted count and every other count is zero.\<close>

lemma one_backend_loop_passes:
  assumes "0 < want" and "\<And>k. k \<in> set keys \<Longrightarrow> 0 < count_of agg k" and "\<not> ts_failed t"
  shows "(case one_backend_loop want agg keys gotAll t of (all, t) \<Rightarrow> all \<and> \<not> ts_failed t) \<longleftrightarrow>
    (if gotAll then keys = [] else (\<exists>k. keys = [k] \<and> count_of agg k = want))"
  using assms
proof (induction keys arbitrary: gotAll t)
  case (Cons k keys)
  have failed: "ts_failed t' \<Longrightarrow> ts_failed (snd (one_backend_loop want agg ks g t'))" for ks g t'
    by (induction ks arbitrary: g t') auto
  show ?case
  proof (cases "count_of agg k = want \<and> \<not> gotAll")
    case True
    then show ?thesis using Cons.IH [of t True] Cons.prems by (auto split: prod.splits)
  next
    case False
    have "0 < count_of agg k" using Cons.prems(2) by simp
    then have "one_backend_loop want agg (k # keys) gotAll t = one_backend_loop want agg keys gotAll (t_Fail t)"
      using False by auto
    then show ?thesis using failed [of "t_Fail t" keys gotAll] False by (auto split: prod.splits)
  qed
qed auto

text \<open>
  The check for a single backend is exact, in any order of the loop: it passes when there is a backend to
  which every successful call went, and as many calls succeeded as were wanted. Failed calls are not
  counted, so the number wanted is that of the successes and not that of the calls.
\<close>

lemma one_backend_check_exact:
  assumes "0 < want" and "\<And>agg. finite (dom agg) \<Longrightarrow> set (range_keys agg) = dom agg \<and> distinct (range_keys agg)"
  shows "passes (CountByBackendID [AssertOneBackendGotAllCalls range_keys want] calls) \<longleftrightarrow>
    (\<exists>b. (\<forall>c \<in> set calls. ca_err c = None \<longrightarrow> ca_backendID c = b) \<and>
      int (length (filter (\<lambda>c. ca_err c = None) calls)) = want)"
proof -
  define ks where "ks = map ca_backendID (filter (\<lambda>c. ca_err c = None) calls)"
  define agg where "agg = tally ks Map.empty"
  have agg: "agg k = (if k \<in> set ks then Some (int (count_list ks k)) else None)" for k
    by (simp add: agg_def tally_count count_of_def)
  then have dom: "dom agg = set ks" by (auto simp: dom_def)
  then have keys: "set (range_keys agg) = set ks" "distinct (range_keys agg)" using assms(2) [of agg] by simp_all
  have pos: "0 < count_of agg k" if "k \<in> set (range_keys agg)" for k
    using that keys(1) count_list_0_iff [of ks k] by (simp add: count_of_def agg)
  have "passes (CountByBackendID [AssertOneBackendGotAllCalls range_keys want] calls) \<longleftrightarrow>
      (\<exists>k. range_keys agg = [k] \<and> count_of agg k = want)"
    using one_backend_loop_passes [OF assms(1), of "range_keys agg" agg "\<lparr>ts_failed = False, ts_stopped = False\<rparr>" False] pos
    by (auto simp: passes_def CountByBackendID_def AssertOneBackendGotAllCalls_def backend_counts_tally
        ks_def [symmetric] agg_def [symmetric] Let_def split: prod.splits)
  also have "\<dots> \<longleftrightarrow> (\<exists>k. set ks = {k} \<and> int (count_list ks k) = want)"
  proof -
    have "range_keys agg = [k] \<longleftrightarrow> set ks = {k}" for k
      using keys by (metis distinct.simps(2) distinct_singleton empty_set insert_not_empty list.exhaust list.set(2)
          list.set_intros(1) list.simps(15) singletonD subset_singletonD set_subset_Cons)
    then show ?thesis by (auto simp: count_of_def agg)
  qed
  also have "\<dots> \<longleftrightarrow> (\<exists>k. (\<forall>x \<in> set ks. x = k) \<and> int (length ks) = want)"
  proof -
    have all: "count_list ks k = length ks" if "\<forall>x \<in> set ks. x = k" for k
      using that by (induction ks) auto
    have "set ks = {k} \<and> int (count_list ks k) = want \<longleftrightarrow> (\<forall>x \<in> set ks. x = k) \<and> int (length ks) = want" for k
    proof (cases ks)
      case Nil
      then show ?thesis using assms(1) by simp
    next
      case (Cons y ys)
      then have "(\<forall>x \<in> set ks. x = k) \<longleftrightarrow> set ks = {k}" by auto
      then show ?thesis using all [of k] by metis
    qed
    then show ?thesis by blast
  qed
  finally show ?thesis by (auto simp: ks_def)
qed

section \<open>Parallel calls\<close>

text \<open>The calls in the order in which they take effect.\<close>

fun seq_calls :: "string \<Rightarrow> ('w \<Rightarrow> echo_result \<times> 'w) \<Rightarrow> nat \<Rightarrow> 'w \<Rightarrow> call list \<times> 'w" where
  "seq_calls addr run 0 w = ([], w)"
| "seq_calls addr run (Suc n) w =
     (case record_call addr run w of (c, w) \<Rightarrow> (case seq_calls addr run n w of (cs, w) \<Rightarrow> (c # cs, w)))"

lemma call_loop_seq:
  "length calls = i + n \<Longrightarrow>
   call_loop addr run i n calls w = (take i calls @ fst (seq_calls addr run n w), snd (seq_calls addr run n w))"
proof (induction n arbitrary: i calls w)
  case (Suc n)
  obtain c w1 where c: "record_call addr run w = (c, w1)" by fastforce
  have "take (Suc i) (calls[i := c]) = take i calls @ [c]"
    using Suc.prems by (simp add: take_Suc_conv_app_nth)
  then show ?case using Suc.IH [of "calls[i := c]" "Suc i" w1] Suc.prems c by (simp split: prod.splits)
qed simp

lemma parallel_calls_seq:
  assumes "distinct order" and "set order \<subseteq> {..<length calls}" and "parallel_calls addr run order calls w = (xs, w')"
  shows "length xs = length calls \<and> (\<forall>i. i \<notin> set order \<longrightarrow> xs ! i = calls ! i) \<and>
    seq_calls addr run (length order) w = (map ((!) xs) order, w')"
  using assms
proof (induction order arbitrary: calls w)
  case (Cons i order)
  obtain c w1 where c: "record_call addr run w = (c, w1)" by fastforce
  have "parallel_calls addr run order (calls[i := c]) w1 = (xs, w')" using Cons.prems(3) c by simp
  from Cons.IH [OF _ _ this] Cons.prems(1,2)
  have IH: "length xs = length calls" "\<forall>j. j \<notin> set order \<longrightarrow> xs ! j = calls[i := c] ! j"
    "seq_calls addr run (length order) w1 = (map ((!) xs) order, w')" by simp_all
  moreover have "xs ! i = c" using IH(2) Cons.prems(1,2) by simp
  ultimately show ?case using c by auto
qed simp

lemma CountByBackendID_mset:
  assumes "mset xs = mset ys"
  shows "CountByBackendID as xs = CountByBackendID as ys"
proof -
  have "backend_counts xs = backend_counts ys"
    unfolding backend_counts_tally by (rule tally_mset) (simp add: assms)
  then show ?thesis by (simp add: CountByBackendID_def)
qed

lemma AggregateByError_mset:
  assumes "mset xs = mset ys"
  shows "AggregateByError as xs = AggregateByError as ys"
proof -
  have "error_counts xs = error_counts ys"
    unfolding error_counts_tally by (rule tally_mset) (simp add: assms)
  then show ?thesis by (simp add: AggregateByError_def)
qed

text \<open>
  Making calls in parallel and one after the other gives the same verdict and leaves the same world, in
  whatever order the parallel calls take effect, as far as the checks count calls by backend or by error:
  these checks do not depend on which goroutine got which outcome.
\<close>

lemma parallel_calls_count_alike:
  assumes "mset order = mset [0..<nat n]"
    and "\<And>a. a \<in> set assertions \<Longrightarrow> (\<exists>as. a = CountByBackendID as) \<or> (\<exists>as. a = AggregateByError as)"
  shows "CallNParallel order withTimeout caller n assertions callCtx t w =
    CallN withTimeout caller n assertions callCtx t w"
proof -
  let ?run = "Caller_Do withTimeout caller (cc_client callCtx)" and ?start = "replicate (nat n) no_call"
  obtain xs w' where xs: "parallel_calls (cc_addr callCtx) ?run order ?start w = (xs, w')" by fastforce
  have order: "distinct order" "set order = {..<nat n}" "length order = nat n"
    using assms(1) mset_eq_imp_distinct_iff [OF assms(1)] mset_eq_setD [OF assms(1)] mset_eq_length [OF assms(1)]
    by (auto simp: lessThan_atLeast0)
  have "length xs = nat n" and seq: "seq_calls (cc_addr callCtx) ?run (nat n) w = (map ((!) xs) order, w')"
    using parallel_calls_seq [OF order(1) _ xs] order by simp_all
  then have "mset (map ((!) xs) order) = mset xs"
    using assms(1) by (metis map_nth mset_map)
  then have same: "a xs = a (map ((!) xs) order)" if "a \<in> set assertions" for a
    using assms(2) [OF that] CountByBackendID_mset AggregateByError_mset by metis
  have "call_loop (cc_addr callCtx) ?run 0 (nat n) ?start w = (map ((!) xs) order, w')"
    using call_loop_seq [of ?start 0 "nat n" "cc_addr callCtx" ?run w] seq by simp
  then show ?thesis
    using xs same by (simp add: CallNParallel_def CallN_def cong: map_cong)
qed

end
