(* ===== verification/Echo_Stubs.thy ===== *)
theory Echo_Stubs
  imports Test_Assertions Routes
begin

text \<open>
  The stubs of the echo service, \<^verbatim>\<open>pkg/echoserver/proto/echo_grpc.pb.go\<close>, and the call contexts of
  \<^verbatim>\<open>pkg/testruntime/assert.go\<close> that open a connection for them: what path a client's method sends, which method
  of a server a path reaches, and that the method matchers of a listener name those paths. The gRPC runtime that
  carries a call from a connection to a handler is a library.
\<close>

section \<open>Client\<close>

text \<open>
  \<open>invoke\<close> is \<^verbatim>\<open>Invoke\<close> on the connection: context, full method, request; it fills the reply or fails.
\<close>

type_synonym ('c, 'w) invoke = "'c \<Rightarrow> string \<Rightarrow> EchoRequest \<Rightarrow> 'w \<Rightarrow> echo_result \<times> 'w"

definition echoClient_Echo :: "('c, 'w) invoke \<Rightarrow> 'c \<Rightarrow> EchoRequest \<Rightarrow> 'w \<Rightarrow> echo_result \<times> 'w" where
  "echoClient_Echo cc ctx req w =
     (case cc ctx ''/echo.Echo/Echo'' req w of
        (Inl err, w) \<Rightarrow> (Inl err, w)
      | (Inr out, w) \<Rightarrow> (Inr out, w))"

definition echoClient_EchoPremium :: "('c, 'w) invoke \<Rightarrow> 'c \<Rightarrow> EchoRequest \<Rightarrow> 'w \<Rightarrow> echo_result \<times> 'w" where
  "echoClient_EchoPremium cc ctx req w =
     (case cc ctx ''/echo.Echo/EchoPremium'' req w of
        (Inl err, w) \<Rightarrow> (Inl err, w)
      | (Inr out, w) \<Rightarrow> (Inr out, w))"

definition NewEchoClient :: "('c, 'w) invoke \<Rightarrow> ('c, 'w) echo_client" where
  "NewEchoClient cc = \<lparr>ec_Echo = echoClient_Echo cc, ec_EchoPremium = echoClient_EchoPremium cc\<rparr>"

section \<open>Messages\<close>

text \<open>The getters of \<^verbatim>\<open>echo.pb.go\<close>: a nil message has the values of an empty one.\<close>

definition EchoRequest_GetPayload :: "EchoRequest option \<Rightarrow> string" where
  "EchoRequest_GetPayload x = (case x of Some m \<Rightarrow> eq_Payload m | None \<Rightarrow> [])"

definition EchoReply_GetPayload :: "EchoReply option \<Rightarrow> string" where
  "EchoReply_GetPayload x = (case x of Some m \<Rightarrow> er_Payload m | None \<Rightarrow> [])"

definition EchoReply_GetServerId :: "EchoReply option \<Rightarrow> string" where
  "EchoReply_GetServerId x = (case x of Some m \<Rightarrow> er_ServerId m | None \<Rightarrow> [])"

definition EchoReply_GetVariant :: "EchoReply option \<Rightarrow> string" where
  "EchoReply_GetVariant x = (case x of Some m \<Rightarrow> er_Variant m | None \<Rightarrow> [])"

text \<open>The getters determine a reply.\<close>

lemma EchoReply_getters:
  "EchoReply_GetPayload (Some r) = EchoReply_GetPayload (Some r') \<Longrightarrow> EchoReply_GetServerId (Some r) = EchoReply_GetServerId (Some r') \<Longrightarrow>
   EchoReply_GetVariant (Some r) = EchoReply_GetVariant (Some r') \<Longrightarrow> r = (r' :: EchoReply)"
  by (simp add: EchoReply_GetPayload_def EchoReply_GetServerId_def EchoReply_GetVariant_def)

section \<open>Server\<close>

text \<open>The interface \<^verbatim>\<open>EchoServer\<close>, and the server whose methods are missing; 12 is the code for that.\<close>

record ('c, 'w) EchoServer =
  srv_Echo :: "'c \<Rightarrow> EchoRequest \<Rightarrow> 'w \<Rightarrow> echo_result \<times> 'w"
  srv_EchoPremium :: "'c \<Rightarrow> EchoRequest \<Rightarrow> 'w \<Rightarrow> echo_result \<times> 'w"

definition UnimplementedEchoServer :: "('c, 'w) EchoServer" where
  "UnimplementedEchoServer =
     \<lparr>srv_Echo = (\<lambda>ctx req w. (Inl (12, ''method Echo not implemented''), w)),
      srv_EchoPremium = (\<lambda>ctx req w. (Inl (12, ''method EchoPremium not implemented''), w))\<rparr>"

text \<open>
  A handler decodes the request and calls the method, through the interceptor when there is one; the
  interceptor gets the full method and the call itself.
\<close>

type_synonym ('c, 'w) unary_handler = "'c \<Rightarrow> EchoRequest \<Rightarrow> 'w \<Rightarrow> echo_result \<times> 'w"

type_synonym ('c, 'w) interceptor = "'c \<Rightarrow> EchoRequest \<Rightarrow> string \<Rightarrow> ('c, 'w) unary_handler \<Rightarrow> 'w \<Rightarrow> echo_result \<times> 'w"

type_synonym ('c, 'w) method_handler =
  "('c, 'w) EchoServer \<Rightarrow> 'c \<Rightarrow> (nat \<times> string) + EchoRequest \<Rightarrow> ('c, 'w) interceptor option \<Rightarrow> 'w \<Rightarrow> echo_result \<times> 'w"

definition Echo_Echo_Handler :: "('c, 'w) method_handler" where
  "Echo_Echo_Handler srv ctx dec interceptor w =
     (case dec of
        Inl err \<Rightarrow> (Inl err, w)
      | Inr req \<Rightarrow>
          (case interceptor of
             None \<Rightarrow> srv_Echo srv ctx req w
           | Some icpt \<Rightarrow> icpt ctx req ''/echo.Echo/Echo'' (\<lambda>ctx req. srv_Echo srv ctx req) w))"

definition Echo_EchoPremium_Handler :: "('c, 'w) method_handler" where
  "Echo_EchoPremium_Handler srv ctx dec interceptor w =
     (case dec of
        Inl err \<Rightarrow> (Inl err, w)
      | Inr req \<Rightarrow>
          (case interceptor of
             None \<Rightarrow> srv_EchoPremium srv ctx req w
           | Some icpt \<Rightarrow> icpt ctx req ''/echo.Echo/EchoPremium'' (\<lambda>ctx req. srv_EchoPremium srv ctx req) w))"

record ('c, 'w) ServiceDesc =
  sd_ServiceName :: string
  sd_Methods :: "(string \<times> ('c, 'w) method_handler) list"
  sd_Metadata :: string

definition Echo_ServiceDesc :: "('c, 'w) ServiceDesc" where
  "Echo_ServiceDesc =
     \<lparr>sd_ServiceName = ''echo.Echo'',
      sd_Methods = [(''Echo'', Echo_Echo_Handler), (''EchoPremium'', Echo_EchoPremium_Handler)],
      sd_Metadata = ''pkg/echoserver/proto/echo.proto''\<rparr>"

text \<open>\<open>registrar\<close> is \<^verbatim>\<open>RegisterService\<close> of a gRPC server.\<close>

definition RegisterEchoServer ::
    "(('c, 'w) ServiceDesc \<Rightarrow> ('c, 'w) EchoServer \<Rightarrow> 's \<Rightarrow> 's) \<Rightarrow> 's \<Rightarrow> ('c, 'w) EchoServer \<Rightarrow> 's" where
  "RegisterEchoServer registrar s srv = registrar Echo_ServiceDesc srv s"

section \<open>Call contexts\<close>

record ('n, 'c, 'w) conn_lib =
  cn_Dial :: "string \<Rightarrow> go_error + 'n"
  cn_Invoke :: "'n \<Rightarrow> ('c, 'w) invoke"
  cn_Close :: "'n \<Rightarrow> 'w \<Rightarrow> go_error option \<times> 'w"

record ('n, 'c, 'w) OpenCallContext = "('c, 'w) CallContext" +
  cc_conn :: 'n

definition DefaultCallContext ::
    "('n, 'c, 'w) conn_lib \<Rightarrow> string \<Rightarrow> test_state \<Rightarrow> test_state \<times> ('n, 'c, 'w) OpenCallContext option" where
  "DefaultCallContext cl addr t =
     (case cn_Dial cl addr of
        Inl err \<Rightarrow> (t_FailNow t, None)
      | Inr conn \<Rightarrow>
          (t, Some \<lparr>cc_addr = addr, cc_client = NewEchoClient (cn_Invoke cl conn), cc_conn = conn\<rparr>))"

definition CallContext_Close :: "('n, 'c, 'w) conn_lib \<Rightarrow> ('n, 'c, 'w) OpenCallContext \<Rightarrow> 'w \<Rightarrow> go_error option \<times> 'w" where
  "CallContext_Close cl c = cn_Close cl (cc_conn c)"

section \<open>From a client to its server\<close>

text \<open>
  What gRPC documents of a connection to a server without interceptors: a call of \<^verbatim>\<open>/service/method\<close> runs the
  handler registered under that name on the decoded request.
\<close>

definition delivers :: "('c, 'w) ServiceDesc \<Rightarrow> ('c, 'w) EchoServer \<Rightarrow> ('c, 'w) interceptor option \<Rightarrow> ('c, 'w) invoke \<Rightarrow> bool" where
  "delivers sd srv icpt cc \<longleftrightarrow>
     (\<forall>(name, h) \<in> set (sd_Methods sd). \<forall>ctx req w.
        cc ctx (''/'' @ sd_ServiceName sd @ ''/'' @ name) req w = h srv ctx (Inr req) icpt w)"

lemma delivers_Echo: "delivers Echo_ServiceDesc srv icpt cc \<Longrightarrow>
    cc ctx ''/echo.Echo/Echo'' req w = Echo_Echo_Handler srv ctx (Inr req) icpt w"
  "delivers Echo_ServiceDesc srv icpt cc \<Longrightarrow>
    cc ctx ''/echo.Echo/EchoPremium'' req w = Echo_EchoPremium_Handler srv ctx (Inr req) icpt w"
  by (simp_all add: delivers_def Echo_ServiceDesc_def)

lemma echo_result_cases: "(case r of (Inl err, w) \<Rightarrow> (Inl err, w) | (Inr out, w) \<Rightarrow> (Inr out, w)) = r"
  by (auto split: prod.split sum.split)

text \<open>A stub's method is the server's method of the same name, with the same result, state and error.\<close>

lemma stub_calls_the_server:
  assumes "delivers Echo_ServiceDesc srv None cc"
  shows "ec_Echo (NewEchoClient cc) = srv_Echo srv" and "ec_EchoPremium (NewEchoClient cc) = srv_EchoPremium srv"
  by (simp_all add: fun_eq_iff NewEchoClient_def echoClient_Echo_def echoClient_EchoPremium_def echo_result_cases
      delivers_Echo [OF assms] Echo_Echo_Handler_def Echo_EchoPremium_Handler_def)

text \<open>An interceptor is told the path the client has sent.\<close>

lemma interceptor_sees_the_path:
  assumes "delivers Echo_ServiceDesc srv (Some icpt) cc"
  shows "ec_Echo (NewEchoClient cc) ctx req w = icpt ctx req ''/echo.Echo/Echo'' (srv_Echo srv) w"
    and "ec_EchoPremium (NewEchoClient cc) ctx req w = icpt ctx req ''/echo.Echo/EchoPremium'' (srv_EchoPremium srv) w"
  by (simp_all add: NewEchoClient_def echoClient_Echo_def echoClient_EchoPremium_def echo_result_cases
      delivers_Echo [OF assms] Echo_Echo_Handler_def Echo_EchoPremium_Handler_def)

text \<open>The connection inside one process, which delivers.\<close>

definition loopback :: "('c, 'w) ServiceDesc \<Rightarrow> ('c, 'w) EchoServer \<Rightarrow> ('c, 'w) interceptor option \<Rightarrow> ('c, 'w) invoke" where
  "loopback sd srv icpt ctx path req w =
     (case map_of (map (\<lambda>(name, h). (''/'' @ sd_ServiceName sd @ ''/'' @ name, h)) (sd_Methods sd)) path of
        Some h \<Rightarrow> h srv ctx (Inr req) icpt w
      | None \<Rightarrow> (Inl (12, ''unknown method''), w))"

lemma loopback_delivers: "delivers Echo_ServiceDesc srv icpt (loopback Echo_ServiceDesc srv icpt)"
  by (simp add: delivers_def Echo_ServiceDesc_def loopback_def)

section \<open>The matchers of a listener name the methods\<close>

definition echo_matcher :: "string \<Rightarrow> MethodMatcher" where
  "echo_matcher m = \<lparr>me_Namespace = ''echo'', me_Service = ''Echo'', me_Method = m\<rparr>"

abbreviation stub_path :: "string \<Rightarrow> string" where
  "stub_path m \<equiv> ''/echo.Echo/'' @ m"

text \<open>
  A route that matches a method of the echo service takes exactly the calls the stub of that method
  makes; a route that matches the service takes the calls of both stubs.
\<close>

lemma method_route_takes_the_stub:
  assumes "(m, h) \<in> set (sd_Methods Echo_ServiceDesc)" and "rm_Method r = Some (echo_matcher m)"
  shows "path_matches (path_specifier r) path \<longleftrightarrow> path = stub_path m"
proof -
  have "m = ''Echo'' \<or> m = ''EchoPremium''" using assms(1) by (auto simp: Echo_ServiceDesc_def)
  then have "plain_elem m" by (auto simp: plain_elem_def)
  then show ?thesis
    using method_matcher_is_exact [OF assms(2), of path]
    by (simp add: echo_matcher_def Echo_ServiceDesc_def grpc_path_def)
qed

lemma service_route_takes_both_stubs:
  assumes "(m, h) \<in> set (sd_Methods Echo_ServiceDesc)" and "rm_Method r = None"
    and "rm_Service r = Some \<lparr>sm_Namespace = ''echo'', sm_Service = ''Echo''\<rparr>"
  shows "path_matches (path_specifier r) (stub_path m)"
  using assms by (simp add: path_specifier_def path_matches_def ServiceMatcher_Prefix_def Echo_ServiceDesc_def)

end
