(* ===== verification/Examples.thy ===== *)
theory Examples
  imports Test_Backends Complex_Main
begin

text \<open>
  The demonstration programs, \<^verbatim>\<open>example/cmd/client/main.go\<close> and \<^verbatim>\<open>example/cmd/server/main.go\<close>: the metadata flag, the calls
  of the client and the answers of the server. Flag parsing, gRPC, the clock and the random numbers are
  libraries.
\<close>

section \<open>The metadata flag\<close>

type_synonym metadataArgs = "string \<rightharpoonup> string"

text \<open>\<open>keys\<close> is the order of the range loop.\<close>

definition metadataArgs_String :: "string list \<Rightarrow> metadataArgs \<Rightarrow> string" where
  "metadataArgs_String keys h = fold (\<lambda>k sb. sb @ k @ ''='' @ the (h k)) keys []"

definition metadataArgs_Set :: "string \<Rightarrow> metadataArgs \<Rightarrow> metadataArgs outcome" where
  "metadataArgs_Set v h =
     (let sp = strings_Split v CHR ''='' in
      if length sp \<noteq> 2 then Err (ErrorsNew (''malformed argument '' @ v))
      else Ok (h(sp ! 0 \<mapsto> sp ! 1)))"

section \<open>The client\<close>

record ExampleRequest = EchoRequest +
  xq_Flackeyness :: rat

text \<open>The getter of \<^verbatim>\<open>echo.pb.go\<close> for it.\<close>

definition EchoRequest_GetFlackeyness :: "ExampleRequest option \<Rightarrow> rat" where
  "EchoRequest_GetFlackeyness x = (case x of Some m \<Rightarrow> xq_Flackeyness m | None \<Rightarrow> 0)"

record client_flags =
  cf_addr :: string
  cf_period :: int
  cf_premium :: bool
  cf_flackeyness :: rat
  cf_meta :: metadataArgs

definition default_client_flags :: client_flags where
  "default_client_flags = \<lparr>cf_addr = ''localhost:3333'', cf_period = 0, cf_premium = False, cf_flackeyness = 0,
     cf_meta = Map.empty\<rparr>"

text \<open>The methods of the client on the world, with the outgoing metadata, and what a call logs.\<close>

record 'w example_client =
  xc_Echo :: "metadataArgs \<Rightarrow> ExampleRequest \<Rightarrow> 'w \<Rightarrow> echo_result \<times> 'w"
  xc_EchoPremium :: "metadataArgs \<Rightarrow> ExampleRequest \<Rightarrow> 'w \<Rightarrow> echo_result \<times> 'w"

datatype client_log = CallFailed nat string | CallAnswered EchoReply

definition client_callback :: "'w example_client \<Rightarrow> client_flags \<Rightarrow> string \<Rightarrow> 'w \<Rightarrow> client_log \<times> 'w" where
  "client_callback cl flags payload w =
     (let req = \<lparr>eq_Payload = payload, xq_Flackeyness = cf_flackeyness flags\<rparr>;
          (r, w) = (if cf_premium flags then xc_EchoPremium cl (cf_meta flags) req w
                    else xc_Echo cl (cf_meta flags) req w)
      in (case r of Inl (code, msg) \<Rightarrow> CallFailed code msg | Inr resp \<Rightarrow> CallAnswered resp, w))"

definition oneShot :: "('w \<Rightarrow> 'l \<times> 'w) \<Rightarrow> 'w \<Rightarrow> 'l list \<times> 'w" where
  "oneShot callback w = (let (l, w) = callback w in ([l], w))"

text \<open>The repeated policy never returns; this is what it has logged after \<open>n\<close> ticks, \<open>tick\<close> waiting for the next.\<close>

fun repeated :: "('w \<Rightarrow> 'w) \<Rightarrow> nat \<Rightarrow> ('w \<Rightarrow> 'l \<times> 'w) \<Rightarrow> 'w \<Rightarrow> 'l list \<times> 'w" where
  "repeated tick 0 callback w = ([], w)"
| "repeated tick (Suc n) callback w =
     (case callback (tick w) of (l, w) \<Rightarrow> (case repeated tick n callback w of (ls, w) \<Rightarrow> (l # ls, w)))"

text \<open>The client up to its \<open>n\<close>-th tick; \<^verbatim>\<open>log.Fatal\<close> ends it, and a ticker refuses a negative period.\<close>

definition client_main ::
    "(string \<Rightarrow> go_error + 'w example_client) \<Rightarrow> (int \<Rightarrow> 'w \<Rightarrow> 'w) \<Rightarrow> nat \<Rightarrow> client_flags \<Rightarrow> string list \<Rightarrow> 'w \<Rightarrow>
     (client_log list \<times> 'w) outcome" where
  "client_main dial tick n flags args w =
     (if length args \<noteq> 1 then Err (ErrorsNew ''Must provide a message'')
      else and_then (of_lib (dial (cf_addr flags))) (\<lambda>client.
        let callback = client_callback client flags (args ! 0)
        in if cf_period flags = 0 then Ok (oneShot callback w)
           else if cf_period flags < 0 then Panic (PanicWith (ErrorsNew ''non-positive interval for NewTicker''))
           else Ok (repeated (tick (cf_period flags)) n callback w)))"

section \<open>The server\<close>

text \<open>\<open>draw\<close> is \<^verbatim>\<open>rand.Float64\<close>; the code of an internal error is 13.\<close>

definition server_answer :: "('w \<Rightarrow> rat \<times> 'w) \<Rightarrow> string \<Rightarrow> string \<Rightarrow> ExampleRequest \<Rightarrow> 'w \<Rightarrow> echo_result \<times> 'w" where
  "server_answer draw hostName variant req w =
     (let (fails, w) = (if xq_Flackeyness req > 0 then (let (x, w) = draw w in (x < xq_Flackeyness req, w)) else (False, w))
      in if fails then (Inl (13, ''flackey call''), w)
         else (Inr \<lparr>er_ServerId = hostName, er_Payload = eq_Payload req, er_Variant = variant\<rparr>, w))"

definition server_EchoFunc :: "('w \<Rightarrow> rat \<times> 'w) \<Rightarrow> string \<Rightarrow> ExampleRequest \<Rightarrow> 'w \<Rightarrow> echo_result \<times> 'w" where
  "server_EchoFunc draw hostName = server_answer draw hostName ''standard''"

definition server_EchoPremiumFunc :: "('w \<Rightarrow> rat \<times> 'w) \<Rightarrow> string \<Rightarrow> ExampleRequest \<Rightarrow> 'w \<Rightarrow> echo_result \<times> 'w" where
  "server_EchoPremiumFunc draw hostName = server_answer draw hostName ''premium''"

text \<open>What the server logs before it serves, or the message it dies with.\<close>

definition server_main :: "go_error + string \<Rightarrow> (string \<Rightarrow> go_error + 'l) \<Rightarrow> string \<Rightarrow> (string \<times> 'l) outcome" where
  "server_main hostname listen bindAddress =
     (case hostname of
        Inl err \<Rightarrow> Err (ErrorsNew ''Could not read hostname'')
      | Inr hostName \<Rightarrow>
          (case listen bindAddress of
             Inl err \<Rightarrow> Err (ErrorsNew (''Can't bind to addr'' @ bindAddress))
           | Inr listener \<Rightarrow> Ok (''Server listening on 0.0.0.0:3333'', listener)))"

section \<open>What they do\<close>

text \<open>
  The flag takes what has exactly one equals sign and stores the two sides, so that no value may hold
  one itself; a printed map of one entry is read back.
\<close>

lemma strings_Split_length: "length (strings_Split s c) = Suc (count_list s c)"
  by (induction s) auto

lemma strings_Split_once:
  "c \<notin> set a \<Longrightarrow> c \<notin> set b \<Longrightarrow> strings_Split (a @ c # b) c = [a, b]"
proof (induction a)
  case Nil
  have "strings_Split b c = [b]" using Nil(2) by (induction b) auto
  then show ?case by simp
qed auto

lemma metadata_flag:
  "is_Ok (metadataArgs_Set v h) \<longleftrightarrow> count_list v CHR ''='' = 1"
  "CHR ''='' \<notin> set k \<Longrightarrow> CHR ''='' \<notin> set x \<Longrightarrow> metadataArgs_Set (metadataArgs_String [k] [k \<mapsto> x]) Map.empty = Ok [k \<mapsto> x]"
  by (simp_all add: metadataArgs_Set_def metadataArgs_String_def Let_def strings_Split_length strings_Split_once)

text \<open>A request that asks for no failure is never failed, one that asks for certain failure always is.\<close>

lemma flackeyness_bounds:
  assumes "\<And>w x w'. draw w = (x, w') \<Longrightarrow> 0 \<le> x \<and> x < 1"
  shows "xq_Flackeyness req \<le> 0 \<Longrightarrow> fst (server_answer draw host v req w) =
      Inr \<lparr>er_ServerId = host, er_Payload = eq_Payload req, er_Variant = v\<rparr>"
    and "xq_Flackeyness req \<ge> 1 \<Longrightarrow> fst (server_answer draw host v req w) = Inl (13, ''flackey call'')"
proof -
  obtain x w' where x: "draw w = (x, w')" by fastforce
  from assms [OF x]
  show "xq_Flackeyness req \<le> 0 \<Longrightarrow> fst (server_answer draw host v req w) =
      Inr \<lparr>er_ServerId = host, er_Payload = eq_Payload req, er_Variant = v\<rparr>"
    and "xq_Flackeyness req \<ge> 1 \<Longrightarrow> fst (server_answer draw host v req w) = Inl (13, ''flackey call'')"
    by (auto simp: server_answer_def x)
qed

text \<open>The client logs one line for each call it makes.\<close>

lemma repeated_length: "length (fst (repeated tick n callback w)) = n"
  by (induction n arbitrary: w) (auto split: prod.split, metis fst_conv)

text \<open>The line the server logs names port 3333, whatever address it was bound to.\<close>

lemma server_logs_default_port: "listen addr = Inr l \<Longrightarrow> server_main (Inr h) listen addr = Ok (''Server listening on 0.0.0.0:3333'', l)"
  by (simp add: server_main_def)

end
