(* ===== verification/Spec2Isabelle.thy ===== *)
theory Spec2Isabelle
  imports Config_Watcher Notify Bootstrap Deep_Copy Server Watch_Interleaving Apply_Config Consistency
    Client_View Controller Old_Configs Test_Fixtures Echo_Stubs Examples
begin

text \<open>
  \<^bold>\<open>grpc-traffic-controller\<close>: a control plane that turns \<^verbatim>\<open>GRPCListener\<close> objects of a Kubernetes
  cluster into xDS resources and serves them to gRPC clients. Informers keep a cache of the listeners
  and of the endpoint slices; a client's discovery request starts a goroutine that subscribes to the
  requested resources, resolves them from the caches and answers; a change of a cached object goes
  through a queue to a handler that notifies the subscribers of the resources it affects, and their
  goroutines resolve and answer again.

  \<^bold>\<open>Conventions.\<close> A Go struct is a record, a pointer an option, an enum or a oneof a datatype, a fixed
  width integer a word (or an int where the code only compares it). A call that may return an error
  or panic has the type \<open>outcome\<close> of \<^theory_text>\<open>Gtc_Prelude\<close>, so that every early return, nil dereference and
  index out of range is a branch. Libraries (client-go, go-control-plane, gRPC, protobuf, zap) are
  parameters: records of functions with predicates such as \<open>caches\<close>, \<open>workqueue_ok\<close>, \<open>meta_lib_ok\<close> that say
  what their documentation promises. Goroutines are step relations whose steps are the code between
  two points where another goroutine can observe it.

  \<^bold>\<open>Theories, in the order of the data flow.\<close>
  \<^item> \<^theory_text>\<open>Gtc_Prelude\<close>, \<^theory_text>\<open>Go_Strings\<close>: outcomes, Go's loops, slices and strings (\<^verbatim>\<open>Split\<close>, \<^verbatim>\<open>Join\<close>, \<^verbatim>\<open>Itoa\<close>,
    \<^verbatim>\<open>Atoi\<close>, \<^verbatim>\<open>path.Join\<close>), with their laws. \<^theory_text>\<open>Settling\<close>: the contract of a step relation that comes to rest,
    \<open>settling\<close> and \<open>bounded_settling\<close>, interpreted for the workers of a queue, the goroutine of a request, the
    server, the command and the whole controller.
  \<^item> \<^theory_text>\<open>Api_Types\<close>: the custom resource, \<^verbatim>\<open>api/gtc/v1alpha1/types.go\<close>, \<^verbatim>\<open>interceptor.go\<close>, \<^verbatim>\<open>matcher.go\<close>.
    \<^theory_text>\<open>Go_Heap\<close>, \<^theory_text>\<open>Deep_Copy\<close>: \<^verbatim>\<open>zz_generated.deepcopy.go\<close> over an explicit heap, since what a deep copy
    promises is about aliasing. \<open>deep_copier\<close> is the contract, with one rule per statement form, and is
    interpreted for the copy function of every struct.
  \<^item> \<^theory_text>\<open>Xds_Types\<close>: the messages the server sends and the library parameter \<open>xdslib\<close>.
  \<^item> \<^theory_text>\<open>Resource_Names\<close>: \<^verbatim>\<open>gtc/resource.go\<close> and the listener names of \<^verbatim>\<open>gtc/listener.go\<close>. \<open>resource_naming\<close> is
    the contract of a name format with a parser that inverts it.
  \<^item> \<^theory_text>\<open>Listers\<close>: the generated lister; \<open>listener_lookup\<close> is what the resolvers rely on.
  \<^item> \<^theory_text>\<open>Go_Hash\<close>, \<^theory_text>\<open>Resolver\<close>: \<^verbatim>\<open>gtc/resolver.go\<close> and \<^verbatim>\<open>gtc/xds.go\<close>, with SHA-256 and base64 computed;
    \<open>resource_resolver\<close> is the contract of the three resolvers.
  \<^item> \<^theory_text>\<open>Interceptors\<close>, \<^theory_text>\<open>Routes\<close>, \<^theory_text>\<open>Listeners\<close>, \<^theory_text>\<open>Clusters\<close>, \<^theory_text>\<open>Endpoints\<close>: the resolvers, one theory per file of
    \<^verbatim>\<open>gtc/\<close>. \<^theory_text>\<open>Endpoints\<close> has an abstract specification of the grouping by zone, \<open>zone_split\<close>, which the loops
    of \<^verbatim>\<open>makeServiceEndpoints\<close> refine.
  \<^item> \<^theory_text>\<open>Watchers\<close>: the subscription registry, \<^verbatim>\<open>gtc/watcher.go\<close>, as pointer structures; \<open>watch_registry\<close> is its
    contract in terms of a set of subscriptions, which the structures refine over any history.
    \<^theory_text>\<open>Watch_Interleaving\<close>: its callers, interleaved at its critical sections.
  \<^item> \<^theory_text>\<open>Config_Watcher\<close>: the goroutine of a request, \<^verbatim>\<open>gtc/cache.go\<close>, as a step relation.
  \<^item> \<^theory_text>\<open>Queued_Handler\<close>, \<^theory_text>\<open>Worker_Pool\<close>: \<^verbatim>\<open>pkg/controllersupport/handler.go\<close>, one worker as a function and the
    pool as a step relation; \<open>event_handler\<close> is the contract of a handler, interpreted in \<^theory_text>\<open>Notify\<close>, the
    change handlers of \<^verbatim>\<open>gtc/notify.go\<close>.
  \<^item> \<^theory_text>\<open>Informer_Factory\<close>: \<^verbatim>\<open>client/informers/externalversions\<close>, the factory and the calls on it.
  \<^item> \<^theory_text>\<open>Server\<close>: \<^verbatim>\<open>gtc/server.go\<close>, \<^verbatim>\<open>gtc/logger.go\<close> and the wiring in \<^verbatim>\<open>cmd/controller/main.go\<close>.
    \<^theory_text>\<open>Controller\<close>: the rest of that command, from its clients and early returns to the end of its error
    group, as a step relation on top of the one of \<^verbatim>\<open>XDSServer.Run\<close>. \<^theory_text>\<open>Change_Queues\<close>: the two queues of the
    server and the requests over the one registry they share.
  \<^item> \<^theory_text>\<open>Go_Json\<close>, \<^theory_text>\<open>Bootstrap\<close>: \<^verbatim>\<open>bootstrap/\<close> and \<^verbatim>\<open>cmd/bootstrapgen\<close> down to the bytes of the file, with the encoder
    of \<^verbatim>\<open>encoding/json\<close> and a reader that undoes it; \<open>config_provider\<close> is the contract of the providers.
  \<^item> \<^theory_text>\<open>Consistency\<close>: the parts put together, around one client: informers, queues, handlers, registry and
    the client's goroutine as one step relation, where the caches change also while a resolution reads
    them; \<open>change_coverage\<close> is what handlers and resolvers owe each other. \<^theory_text>\<open>Client_View\<close>: the same system with a request for several names, seen one name at a time.
  \<^item> \<^theory_text>\<open>Client_Api\<close>: the generated client of the resource: \<^verbatim>\<open>client/applyconfiguration\<close>'s listener with its
    setters and the requests of the typed client under \<^verbatim>\<open>client/clientset\<close>. \<^theory_text>\<open>Apply_Config\<close>: the
    configurations of the structs of a spec; \<open>config_builder\<close> is the contract of a struct's setters.
    \<^theory_text>\<open>Old_Configs\<close>: those of structs the API no longer has, and the schema nothing reads. \<^theory_text>\<open>Clientset\<close>: the registration of the API
    (\<^verbatim>\<open>register.go\<close>), the construction of the clientset, and its fake, as the actions it records.
  \<^item> \<^theory_text>\<open>Test_Backends\<close>, \<^theory_text>\<open>Test_Fixtures\<close>, \<^theory_text>\<open>Test_Assertions\<close>: \<^verbatim>\<open>pkg/testruntime\<close> and \<^verbatim>\<open>pkg/echoserver/server.go\<close>, the
    backends, objects, calls and checks the integration tests are built from. \<^theory_text>\<open>Echo_Stubs\<close>: the gRPC stubs
    of the echo service, and the routes that take their calls. \<^theory_text>\<open>Examples\<close>: the two
    programs under \<^verbatim>\<open>example/cmd\<close>.
  \<^item> This theory: what spans the resolvers.

  \<^bold>\<open>What is shown.\<close> The whole: a client that asked for one resource has, whenever the controller has settled,
  the answer for the current caches, and while the caches rest and the stream takes responses every run
  of the controller settles. The statement has its conditions. It is for the first request of a name on a stream, since an update
  can be lost between two requests; for names spelled as the server renders them; for requests that are
  not cancelled and workers that are not shut down; and, for load assignments, for runs without a slice moved to
  another service and without a tombstone, which the handlers miss. With several names, and for a
  follow-up request, every resource its goroutine delivered is current or a change of it is still on its
  way, under the same conditions. Names: what the server
  advertises can be fetched (listener to cluster to load assignment) and names round-trip. Resolution: the load assignment carries exactly the ready
  endpoints, split by zone with gapless priorities; routes, weights, filters and their overrides
  follow the listener; for requests with a node and well-formed listeners only a listener that does not
  serialize makes a resolver panic. Notification: a
  change handler notifies exactly the resources of a listener, once, and a slice change that changes
  a load assignment reaches its watchers. Subscription: over any history the registry holds exactly
  the subscriptions asked for and nothing leaks; a goroutine is subscribed before it resolves,
  answers every change, exits after a cancellation however it is scheduled and whether or not the stream
  reads on, and leaves no subscription behind; interleaved at its locks the registry stays
  sound and no notification is lost. Workers: no event is handled twice at
  once, and at shutdown the queue drains if a worker is still inside its loop; the two queues and the
  requests share the registry without losing or adding a notification. Set-up
  and shutdown: one shared informer, started once; \<^verbatim>\<open>Run\<close> returns once its context and the one of its
  streams are done, \<^verbatim>\<open>Shutdown\<close> returns, and the command ends
  within a bound after a signal, though not after the failure of its web server. Copies: deep copies are
  independent of their originals. Client: the setters can build every spec, what they
  build can be applied, and the fake records for every call what the client would send, nil updates and
  requests the REST client refuses apart. Tests: the
  objects the fixtures build make the endpoint handler answer with the addresses of the backends they
  start, the check that one backend got all calls is exact, and parallel calls are counted like
  sequential ones. Where the code departs from its comments or can panic, a theorem
  states what it does.

  \<^bold>\<open>Bounds and fuel.\<close> The reader of JSON documents takes the length of the text as fuel, which is proved to
  be enough for what the writer writes. Nothing else uses fuel: loops are structural recursion or folds, \<^verbatim>\<open>runWorker\<close> is a
  partial function with \<^term>\<open>None\<close> for a worker that blocks, and it is proved to return where that is
  claimed. Termination of goroutines is stated with explicit step bounds (\<open>pool_work_left\<close>,
  \<open>exit_work\<close>, \<open>server_work\<close>, \<open>controller_work\<close>, the number of running informers).

  \<^bold>\<open>Granularity.\<close> A resolution is not atomic: in \<^theory_text>\<open>Config_Watcher\<close> it lasts from one step to the next, and in
  \<^theory_text>\<open>Consistency\<close> each of its reads, name by name, finds one of the states the caches had meanwhile; only two
  localities of a backend that name the same service are taken to read it once. A send waits for room in the stream's channel. The
  lister of slices has no documented order: what compares two states of its cache supposes that slices
  which did not change keep theirs. In \<^theory_text>\<open>Config_Watcher\<close> and \<^theory_text>\<open>Worker_Pool\<close> a call on the registry and a call of a change
  handler are single steps; \<^theory_text>\<open>Watch_Interleaving\<close> runs the registry at the granularity of its locks and
  shows that what the coarser steps rely on holds there.

  \<^bold>\<open>Not modelled.\<close> The messages protoc generates for the echo service, but for their getters: tables of the
  protobuf runtime. Flag parsing. The texts of the error types, whose quoting is by Unicode tables; an
  error is its constructor. The unit and integration tests themselves.
\<close>

section \<open>What a route configuration advertises can be fetched\<close>

lemma encodeResource_encodes: "encodes lib m \<Longrightarrow> \<exists>a. encodeResource lib url m = Ok a \<and> any_TypeUrl a = url \<and>
    proto_Marshal lib m = Inr (any_Value a)"
  using encodes_marshal [of lib m] by (auto simp: encodeResource_def)

lemma answer_loop_Panic: "answer_loop one turl names = Panic p \<Longrightarrow> \<exists>nm \<in> set names. one nm = Panic p"
  by (auto simp: answer_loop_traverse and_then_Panic dest: traverse_Panic)

lemma backend_services:
  assumes "services_ok ls" and "lis \<in> set ls" and "i < length (lis_Routes lis)"
    and "j < length (rt_Backends (lis_Routes lis ! i))"
  shows "localities_have_services (rt_Backends (lis_Routes lis ! i) ! j)"
  using services_okD [OF assms(1,2), of i j] assms(3,4) by (simp add: backends_of_set)

text \<open>C4:
  Every cluster a client learns from a listener's route configuration can be fetched: for a cached
  listener, the name at each position of the configuration makes the cluster handler answer with the
  cluster of the backend at that position, an EDS cluster that carries this name and asks for its
  endpoints under it, provided that cluster serializes.
\<close>

theorem advertised_clusters_resolve:
  assumes "caches ix ls" and "lis \<in> set ls" and "small_listener lis"
    and "encodes lib (PCluster (makeCluster (backendName (lis_Namespace lis) (lis_Name lis) (int i) (int j))
      (rt_Backends (lis_Routes lis ! i) ! j)))"
    and "makeRouteConfig lib nm lis = Ok rc"
    and "i < length (lis_Routes lis)" and "j < length (rt_Backends (lis_Routes lis ! i))"
  shows "\<exists>c a resp. cluster_at rc i j = Some c \<and>
    clusterHandler_resolveResource lib ix
      \<lparr>rq_resourceNames = [cw_Name c], rq_typeUrl = ClusterType lib, rq_nodeInfo = node\<rparr> = Ok resp \<and>
    rr_resources resp = [Some a] \<and> any_TypeUrl a = ClusterType lib \<and>
    proto_Marshal lib (PCluster (makeCluster (cw_Name c) (rt_Backends (lis_Routes lis ! i) ! j))) =
      Inr (any_Value a) \<and>
    ecc_ServiceName (cm_EdsClusterConfig (makeCluster (cw_Name c) (rt_Backends (lis_Routes lis ! i) ! j))) = cw_Name c"
proof -
  obtain c where c: "cluster_at rc i j = Some c"
    and name: "cw_Name c = parsedBackendName_String (backend_ref lis i j)"
    using makeRouteConfig_cluster_at [OF assms(5-7)]
    by (auto simp: parsedBackendName_String_def backend_ref_def)
  let ?m = "PCluster (makeCluster (cw_Name c) (rt_Backends (lis_Routes lis ! i) ! j))"
  obtain a where a: "encodeResource lib (ClusterType lib) ?m = Ok a" "any_TypeUrl a = ClusterType lib"
    "proto_Marshal lib ?m = Inr (any_Value a)"
    using encodeResource_encodes [of lib ?m "ClusterType lib"] assms(4)
    by (auto simp: name parsedBackendName_String_def backend_ref_def)
  have "cluster_answer lib ix (ClusterType lib) (cw_Name c) = Ok (a, [lis_ResourceVersion lis])"
    using cluster_answer_found [OF assms(1-3,6,7), of lib "ClusterType lib"] a(1) by (simp add: name)
  then show ?thesis
    using c a by (simp add: clusterHandler_answer_loop answer_loop_single response_of_def makeCluster_def)
qed

text \<open>C27:
  The endpoints behind an advertised cluster: for a backend of a cached listener that names a service,
  the endpoint handler answers the EDS request for its cluster's service name with the load assignment
  of that name, made of the ready endpoints of the service's slices split by the client's zone, provided
  it serializes; it depends on the versions of the listener and of those slices.
\<close>

theorem advertised_endpoints_resolve:
  assumes "caches ix ls" and "lis \<in> set ls" and "small_listener lis"
    and "encodes lib (PClusterLoadAssignment
      \<lparr>cla_ClusterName = backendName (lis_Namespace lis) (lis_Name lis) (int i) (int j),
       cla_Endpoints = map Some (zone_split (sr_Name svc) (node_zone n) ds)\<rparr>)"
    and "selects_by_label lib" and "slices_cached sl content"
    and "i < length (lis_Routes lis)" and "j < length (rt_Backends (lis_Routes lis ! i))"
    and "bk_Service (rt_Backends (lis_Routes lis ! i) ! j) = Some svc" and "label_value_ok lib (sr_Name svc)"
    and "ready_endpoints svc (filter (slice_of_service (serviceNamespace svc lis) (sr_Name svc)) content) = Ok ds"
  shows "\<exists>a resp. endpointHandler_resolveResource lib ix sl
      \<lparr>rq_resourceNames = [backendName (lis_Namespace lis) (lis_Name lis) (int i) (int j)],
       rq_typeUrl = EndpointType lib, rq_nodeInfo = Some n\<rparr> = Ok resp \<and>
    rr_resources resp = [Some a] \<and> any_TypeUrl a = EndpointType lib \<and>
    proto_Marshal lib (PClusterLoadAssignment
      \<lparr>cla_ClusterName = backendName (lis_Namespace lis) (lis_Name lis) (int i) (int j),
       cla_Endpoints = map Some (zone_split (sr_Name svc) (node_zone n) ds)\<rparr>) = Inr (any_Value a) \<and>
    rr_versionHasher resp = lis_ResourceVersion lis @ concat (map (\<lambda>s. om_ResourceVersion (es_ObjectMeta s))
      (filter (slice_of_service (serviceNamespace svc lis) (sr_Name svc)) content))"
proof -
  let ?ref = "backend_ref lis i j"
  let ?nm = "parsedBackendName_String ?ref"
  have name: "backendName (lis_Namespace lis) (lis_Name lis) (int i) (int j) = ?nm"
    by (simp add: parsedBackendName_String_def backend_ref_def)
  let ?la = "\<lparr>cla_ClusterName = ?nm, cla_Endpoints = map Some (zone_split (sr_Name svc) (node_zone n) ds)\<rparr>"
  obtain a where a: "encodeResource lib (EndpointType lib) (PClusterLoadAssignment ?la) = Ok a"
    "any_TypeUrl a = EndpointType lib" "proto_Marshal lib (PClusterLoadAssignment ?la) = Inr (any_Value a)"
    using encodeResource_encodes [OF assms(4), of "EndpointType lib"] by (auto simp: name)
  have "k8s_listener lis" using assms(1,2) by (simp add: caches_def)
  then have parse: "parseBackendName ?nm = Ok ?ref"
    using backend_names.parse_render backend_ref_key_ok assms(3,7,8) by blast
  have get: "GRPCListenerNamespaceLister_Get ix (pb_Namespace ?ref) (pb_ListenerName ?ref) = Ok lis"
    using listener_lookup.get_stored [OF lister_lookup [OF assms(1)] assms(2)] by (simp add: backend_ref_def)
  have find: "findBackendSpec ?ref lis = Ok (rt_Backends (lis_Routes lis ! i) ! j)"
    using assms(7,8) by (simp add: findBackendSpec_Ok backend_ref_def)
  show ?thesis
    using a unfolding name
    by (simp add: endpointHandler_answer_loop answer_loop_single endpoint_answer_def parse get find
        makeLoadAssignment_def assms(9) makeServiceLoadAssignment_eq [OF assms(5,6,9,10)] assms(11) response_of_def)
qed

text \<open>C30:
  What can make the resolvers panic. For a cache whose backends' localities name their services, and a
  request with a node whose names that parse as backends carry no negative index, a panic has one cause:
  the request is for listeners, and the connection manager of a listener it names does not serialize,
  which \<^verbatim>\<open>mustAny\<close> turns into a panic with the encoder's error. Requests for clusters and load assignments
  are answered or refused with an error. The filter configurations, which hold no string, are taken to
  serialize.
\<close>

theorem only_unencodable_listeners_panic:
  assumes "type_urls_distinct lib" and "faults_encode lib" and "caches ix ls" and "services_ok ls"
    and "rq_nodeInfo req \<noteq> None"
    and "\<forall>nm \<in> set (rq_resourceNames req). \<forall>ref. parseBackendName nm = Ok ref \<longrightarrow>
      0 \<le> pb_RouteID ref \<and> 0 \<le> pb_BackendID ref"
    and "newConfigWatcher lib sl ix req = Panic p"
  shows "rq_typeUrl req = ListenerType lib \<and>
    (\<exists>nm \<in> set (rq_resourceNames req). \<exists>err. p = PanicWith err \<and> unencodable_listener lib ix nm err)"
proof -
  note look = listener_lookup.get_Ok [OF lister_lookup [OF assms(3)]]
  have "\<not> is_Panic (cluster_answer lib ix (rq_typeUrl req) nm)" if "nm \<in> set (rq_resourceNames req)" for nm
    using assms(6) that by (auto simp: cluster_answer_def go_simps)
  moreover have "\<not> is_Panic (endpoint_answer lib ix sl (rq_typeUrl req) (rq_nodeInfo req) nm)"
    if nm: "nm \<in> set (rq_resourceNames req)" for nm
  proof -
    have "localities_have_services b" if "parseBackendName nm = Ok ref"
      "GRPCListenerNamespaceLister_Get ix (pb_Namespace ref) (pb_ListenerName ref) = Ok lis"
      "findBackendSpec ref lis = Ok b" for ref lis b
      using that look [OF that(2)] parseBackendName_key_ok [OF that(1)] assms(4) backend_services
      by (auto simp: findBackendSpec_Ok)
    then show ?thesis
      using assms(6) nm makeLoadAssignment_no_panic [OF assms(5)]
      by (fastforce simp: endpoint_answer_def go_simps)
  qed
  ultimately show ?thesis
    using assms(7)
    by (auto simp: newConfigWatcher_dispatch [OF assms(1)] listenerHandler_answer_loop clusterHandler_answer_loop
        endpointHandler_answer_loop listener_answer_panics [OF assms(2)] split: if_splits dest!: answer_loop_Panic)
      (metis is_Panic.simps(3))+
qed

text \<open>C38:
  A client can crash the server with a name: for any cached listener, a request for a cluster or a load
  assignment whose route index is negative passes the range check, which only looks at the upper bound,
  and panics on the index.
\<close>

theorem negative_route_index_panics:
  assumes "caches ix ls" and "lis \<in> set ls" and "r < 0" and "go_int r" and "go_int b"
  shows "is_Panic (clusterHandler_resolveResource lib ix
      \<lparr>rq_resourceNames = [backendName (lis_Namespace lis) (lis_Name lis) r b], rq_typeUrl = url, rq_nodeInfo = node\<rparr>) \<and>
    is_Panic (endpointHandler_resolveResource lib ix sl
      \<lparr>rq_resourceNames = [backendName (lis_Namespace lis) (lis_Name lis) r b], rq_typeUrl = url, rq_nodeInfo = node\<rparr>)"
proof -
  let ?ref = "\<lparr>pb_Namespace = lis_Namespace lis, pb_ListenerName = lis_Name lis, pb_RouteID = r, pb_BackendID = b\<rparr>"
  have "k8s_listener lis" using assms(1,2) by (simp add: caches_def)
  then have "backend_key_ok ?ref" using assms(4,5) by (simp add: backend_key_ok_def k8s_listener_def k8s_name_plain)
  then have parse: "parseBackendName (backendName (lis_Namespace lis) (lis_Name lis) r b) = Ok ?ref"
    using backend_names.parse_render [of ?ref] by (simp add: parsedBackendName_String_def)
  have get: "GRPCListenerNamespaceLister_Get ix (lis_Namespace lis) (lis_Name lis) = Ok lis"
    using listener_lookup.get_stored [OF lister_lookup [OF assms(1)] assms(2)] .
  have "is_Panic (findBackendSpec ?ref lis)" using assms(3) by (simp add: findBackendSpec_panics)
  then show ?thesis
    by (simp add: clusterHandler_answer_loop endpointHandler_answer_loop answer_loop_single
        cluster_answer_def endpoint_answer_def parse get is_Panic_and_then)
qed

theorem negative_route_index_panics_witness:
  "is_Panic (clusterHandler_resolveResource sample_lib (cache_of [sample_listener])
      \<lparr>rq_resourceNames = [backendName ''default'' ''test-xds'' (- 1) 0], rq_typeUrl = ClusterType sample_lib,
       rq_nodeInfo = None\<rparr>)"
  using negative_route_index_panics [OF sample_cache, of sample_listener "- 1" 0 sample_lib "ClusterType sample_lib" None]
  by (simp add: go_int_def) (simp add: sample_listener_def)

section \<open>Witnesses\<close>

theorem advertised_clusters_resolve_witness:
  "\<exists>rc c resp. makeRouteConfig sample_lib ''default/test-xds'' sample_listener = Ok rc \<and>
     cluster_at rc 0 0 = Some c \<and>
     clusterHandler_resolveResource sample_lib (cache_of [sample_listener])
       \<lparr>rq_resourceNames = [cw_Name c], rq_typeUrl = ClusterType sample_lib, rq_nodeInfo = None\<rparr> = Ok resp"
proof -
  obtain rc where rc: "makeRouteConfig sample_lib ''default/test-xds'' sample_listener = Ok rc"
    using sample_routeConfig by blast
  from advertised_clusters_resolve [OF sample_cache _ sample_small sample_lib_encodes rc, of 0 0 None] rc
  show ?thesis by (simp add: sample_listener_def [THEN arg_cong, of gl_Spec] sample_route_def) blast
qed

theorem advertised_endpoints_resolve_witness:
  "\<exists>resp. endpointHandler_resolveResource sample_lib (cache_of [sample_listener]) (lister_of [sample_slice])
      \<lparr>rq_resourceNames = [backendName (lis_Namespace sample_listener) (lis_Name sample_listener) 0 0],
       rq_typeUrl = EndpointType sample_lib, rq_nodeInfo = Some sample_node\<rparr> = Ok resp"
proof -
  let ?slices = "filter (slice_of_service (serviceNamespace sample_service sample_listener) (sr_Name sample_service))
      [sample_slice]"
  have "?slices = [sample_slice]" by (simp add: slice_of_service_def serviceNamespace_def go_defs)
  then obtain ds where ready: "ready_endpoints sample_service ?slices = Ok ds" using sample_ready by simp
  have svc: "bk_Service (rt_Backends (lis_Routes sample_listener ! 0) ! 0) = Some sample_service"
    and len: "0 < length (lis_Routes sample_listener)" "0 < length (rt_Backends (lis_Routes sample_listener ! 0))"
    by (simp_all add: sample_listener_def sample_route_def sample_backend_def)
  have lbl: "label_value_ok sample_lib (sr_Name sample_service)" by (simp add: label_value_ok_def sample_lib_def)
  from advertised_endpoints_resolve [OF sample_cache _ sample_small sample_lib_encodes sample_lib_selects
      lister_of_cached [of "[sample_slice]"] len svc lbl ready, of sample_node]
  show ?thesis by auto
qed

text \<open>An encoder that refuses connection managers.\<close>

definition strict_lib :: xdslib where
  "strict_lib = sample_lib\<lparr>anypb_New := (\<lambda>m. case m of
       PHttpConnectionManager h \<Rightarrow> Inl (LibraryError ''string field contains invalid UTF-8'') | _ \<Rightarrow> anypb_New sample_lib m)\<rparr>"

theorem only_unencodable_listeners_panic_witness:
  "\<exists>req err. newConfigWatcher strict_lib (lister_of [sample_slice]) (cache_of [sample_listener]) req = Panic (PanicWith err) \<and>
     unencodable_listener strict_lib (cache_of [sample_listener]) ''default/test-xds'' err"
proof -
  let ?req = "\<lparr>rq_resourceNames = [''default/test-xds''], rq_typeUrl = ListenerType strict_lib, rq_nodeInfo = Some sample_node\<rparr>"
  let ?err = "LibraryError ''string field contains invalid UTF-8''"
  have lib: "type_urls_distinct strict_lib" "faults_encode strict_lib"
    using sample_lib_distinct
    by (simp_all add: strict_lib_def type_urls_distinct_def faults_encode_def encodes_def) (simp_all add: sample_lib_def)
  have "strings_Split (strings_Join [''default'', ''test-xds''] ''/'') CHR ''/'' = [''default'', ''test-xds'']"
    by (rule strings_Split_Join) auto
  moreover have "strings_Join [''default'', ''test-xds''] ''/'' = ''default/test-xds''" by simp
  ultimately have "strings_Split ''default/test-xds'' CHR ''/'' = [''default'', ''test-xds'']" by (simp only:)
  then have names: "\<forall>nm \<in> set (rq_resourceNames ?req). \<forall>ref. parseBackendName nm = Ok ref \<longrightarrow>
      0 \<le> pb_RouteID ref \<and> 0 \<le> pb_BackendID ref"
    by (simp add: parseBackendName_def Let_def del: strings_Split.simps)
  have "parseListenerName ''default/test-xds'' = Ok (''default'', ''test-xds'')"
    by (simp add: parseListenerName_def)
  moreover have "GRPCListenerNamespaceLister_Get (cache_of [sample_listener]) ''default'' ''test-xds'' = Ok sample_listener"
    by (simp add: GRPCListenerNamespaceLister_Get_def cache_of_def meta_key_def) (simp add: sample_listener_def)
  moreover have "\<exists>fs. makeFilters strict_lib (ls_Interceptors (gl_Spec sample_listener)) = Ok fs"
    by (simp add: makeFilters_def mustAny_def strict_lib_def go_defs)
  moreover have "\<exists>rc. makeRouteConfig strict_lib ''default/test-xds'' sample_listener = Ok rc"
    by (simp add: makeRouteConfig_traverse makeRoute_def makeRouteMatch_def makeWeightedClusters_traverse makeHashPolicy_def
      makeFilterOverrides_def go_defs)
  moreover have "anypb_New strict_lib (PHttpConnectionManager h) = Inl ?err" for h by (simp add: strict_lib_def)
  ultimately have "unencodable_listener strict_lib (cache_of [sample_listener]) ''default/test-xds'' ?err"
    by (fastforce simp: unencodable_listener_def)
  then have "listener_answer strict_lib (cache_of [sample_listener]) url ''default/test-xds'' = Panic (PanicWith ?err)" for url
    by (simp add: listener_answer_panics [OF lib(2)])
  then have panic: "newConfigWatcher strict_lib (lister_of [sample_slice]) (cache_of [sample_listener]) ?req = Panic (PanicWith ?err)"
    by (simp add: newConfigWatcher_dispatch [OF lib(1)] listenerHandler_answer_loop answer_loop_single)
  from only_unencodable_listeners_panic [OF lib sample_cache sample_services _ names panic] panic show ?thesis by auto
qed

end
